(* ===== verification/Values.thy ===== *)
theory Values
  imports Prelude
begin

section \<open>Dynamic Python values and dictionaries\<close>

text \<open>
  The values that the program takes out of decoded JSON and passes on without checking their
  type, and the dictionaries it merges. A float is a rational, an infinity or NaN (signed zeros
  are not told apart); \<open>frepr\<close> is Python's shortest decimal text of a finite float, a
  parameter of the functions that print one.
\<close>

subsection \<open>Values\<close>

datatype pyfloat = Fin rat | PosInf | NegInf | NaN

fun float_le :: "pyfloat \<Rightarrow> pyfloat \<Rightarrow> bool" where
  "float_le (Fin a) (Fin b) = (a \<le> b)"
| "float_le NaN y = False"
| "float_le x NaN = False"
| "float_le NegInf y = True"
| "float_le x PosInf = True"
| "float_le x y = False"

datatype pyv =
    PNone | PBool bool | PInt int | PFloat pyfloat | PStr string
  | PList "pyv list" | PDict "(string \<times> pyv) list"

type_synonym 'v dict = "(string \<times> 'v) list"

fun truthy :: "pyv \<Rightarrow> bool" where
  "truthy PNone = False"
| "truthy (PBool b) = b"
| "truthy (PInt i) = (i \<noteq> 0)"
| "truthy (PFloat f) = (f \<noteq> Fin 0)"
| "truthy (PStr s) = (s \<noteq> [])"
| "truthy (PList xs) = (xs \<noteq> [])"
| "truthy (PDict kvs) = (kvs \<noteq> [])"

definition py_or :: "pyv \<Rightarrow> pyv \<Rightarrow> pyv" where
  "py_or a b = (if truthy a then a else b)"

fun type_name :: "pyv \<Rightarrow> string" where
  "type_name PNone = ''NoneType''"
| "type_name (PBool b) = ''bool''"
| "type_name (PInt i) = ''int''"
| "type_name (PFloat f) = ''float''"
| "type_name (PStr s) = ''str''"
| "type_name (PList xs) = ''list''"
| "type_name (PDict kvs) = ''dict''"

fun opt_str :: "string option \<Rightarrow> pyv" where
  \<comment> \<open>a field annotated \<open>Optional[str]\<close> as a dynamic value\<close>
  "opt_str None = PNone"
| "opt_str (Some s) = PStr s"

fun is_opt_str :: "pyv \<Rightarrow> bool" where
  "is_opt_str PNone = True"
| "is_opt_str (PStr s) = True"
| "is_opt_str v = False"

lemma is_opt_str_iff: "is_opt_str v \<longleftrightarrow> (\<exists>x. v = opt_str x)"
proof
  assume "is_opt_str v"
  then show "\<exists>x. v = opt_str x"
    by (cases v) (auto intro: exI [of _ None] exI [of _ "Some _"])
next
  assume "\<exists>x. v = opt_str x"
  then obtain x where "v = opt_str x" ..
  then show "is_opt_str v" by (cases x) auto
qed

lemma opt_str_inject [simp]: "opt_str a = opt_str b \<longleftrightarrow> a = b"
  by (cases a; cases b) auto

lemma opt_str_eq_PNone [simp]: "opt_str a = PNone \<longleftrightarrow> a = None" "PNone = opt_str a \<longleftrightarrow> a = None"
  by (cases a; auto)+

subsection \<open>Dictionaries\<close>

definition dict_get :: "'v dict \<Rightarrow> string \<Rightarrow> 'v option" where
  "dict_get d k = map_of d k"

definition dget :: "pyv dict \<Rightarrow> string \<Rightarrow> pyv" where
  \<comment> \<open>\<open>d.get(k)\<close>\<close>
  "dget d k = (case map_of d k of None \<Rightarrow> PNone | Some v \<Rightarrow> v)"

definition dict_set :: "string \<Rightarrow> 'v \<Rightarrow> 'v dict \<Rightarrow> 'v dict" where
  "dict_set k v d = AList.update k v d"

fun dict_update :: "'v dict \<Rightarrow> 'v dict \<Rightarrow> 'v dict" where
  \<comment> \<open>\<open>d.update(e)\<close>, and \<open>{**d, **e}\<close>\<close>
  "dict_update d [] = d"
| "dict_update d ((k, v) # e) = dict_update (dict_set k v d) e"

definition dict_keys :: "'v dict \<Rightarrow> string list" where
  "dict_keys d = List.map fst d"

definition dict_wf :: "'v dict \<Rightarrow> bool" where
  "dict_wf d \<longleftrightarrow> distinct (dict_keys d)"

lemma dict_get_set [simp]: "dict_get (dict_set k v d) k' = (if k' = k then Some v else dict_get d k')"
  by (simp add: dict_get_def dict_set_def update_conv')

lemma dict_get_Nil [simp]: "dict_get [] k = None"
  by (simp add: dict_get_def)

lemma dict_get_Cons: "dict_get ((k', v) # e) k = (if k = k' then Some v else dict_get e k)"
  by (simp add: dict_get_def)

lemma dict_get_update:
  "dict_wf e \<Longrightarrow> dict_get (dict_update d e) k
     = (case dict_get e k of None \<Rightarrow> dict_get d k | Some v \<Rightarrow> Some v)"
proof (induction d e rule: dict_update.induct)
  case (1 d)
  then show ?case by (simp add: dict_get_def)
next
  case (2 d k' v e)
  then have "dict_wf e" and fresh: "dict_get e k' = None"
    by (auto simp: dict_wf_def dict_keys_def dict_get_def map_of_eq_None_iff)
  with 2 show ?case
    by (cases "k = k'") (auto simp: dict_get_Cons split: option.splits)
qed

lemma dict_keys_set: "set (dict_keys (dict_set k v d)) = insert k (set (dict_keys d))"
  by (simp add: dict_keys_def dict_set_def dom_update)

lemma dict_wf_set [intro]: "dict_wf d \<Longrightarrow> dict_wf (dict_set k v d)"
  by (simp add: dict_wf_def dict_keys_def dict_set_def distinct_update)

lemma dict_wf_update [intro]: "dict_wf d \<Longrightarrow> dict_wf (dict_update d e)"
  by (induction d e rule: dict_update.induct) auto

definition dict_of :: "'v dict \<Rightarrow> 'v dict" where
  \<comment> \<open>\<open>dict(m)\<close>\<close>
  "dict_of m = dict_update [] m"

lemma dict_wf_Nil [simp]: "dict_wf []"
  by (simp add: dict_wf_def dict_keys_def)

lemma dict_wf_of [simp, intro]: "dict_wf (dict_of m)"
  by (simp add: dict_of_def dict_wf_update)

lemma dict_get_of: "dict_wf m \<Longrightarrow> dict_get (dict_of m) k = dict_get m k"
  by (simp add: dict_of_def dict_get_update split: option.splits)

lemma dict_keys_update: "set (dict_keys (dict_update d e)) = set (dict_keys d) \<union> set (dict_keys e)"
proof (induction d e rule: dict_update.induct)
  case (1 d)
  then show ?case by (simp add: dict_keys_def)
next
  case (2 d k v e)
  have "set (dict_keys ((k, v) # e)) = insert k (set (dict_keys e))"
    by (simp add: dict_keys_def)
  with 2 show ?case by (simp add: dict_keys_set)
qed

lemma dict_get_None_iff: "dict_get d k = None \<longleftrightarrow> k \<notin> set (dict_keys d)"
  by (simp add: dict_get_def dict_keys_def map_of_eq_None_iff)

lemma dict_get_Some_set: "dict_get d k = Some v \<Longrightarrow> (k, v) \<in> set d"
  by (simp add: dict_get_def map_of_SomeD)

lemma dict_get_map_val:
  "dict_get (List.map (\<lambda>(k, v). (k, f k v)) d) k = map_option (f k) (dict_get d k)"
  by (induction d) (auto simp: dict_get_def)

text \<open>Two dictionaries with the same keys in the same order stay so under an update.\<close>

lemma dict_keys_update_cong:
  "dict_keys d = dict_keys d' \<Longrightarrow> dict_keys e = dict_keys e'
     \<Longrightarrow> dict_keys (dict_update d e) = dict_keys (dict_update d' e')"
proof (induction d e arbitrary: d' e' rule: dict_update.induct)
  case (1 d)
  then show ?case by (simp add: dict_keys_def)
next
  case (2 d k v e)
  from 2(3) obtain v' e'' where e': "e' = (k, v') # e''" and ks: "dict_keys e = dict_keys e''"
    by (cases e') (auto simp: dict_keys_def)
  have "dict_keys (dict_set k v d) = dict_keys (dict_set k v' d')"
    using 2(2) by (simp add: dict_keys_def dict_set_def update_keys)
  from 2(1) [OF this ks] show ?case by (simp add: e')
qed

subsection \<open>Text of values\<close>

definition hex_digit :: "nat \<Rightarrow> char" where
  "hex_digit n = (if n < 10 then char_of (48 + n) else char_of (87 + n))"

definition repr_char :: "char \<Rightarrow> char \<Rightarrow> string" where
  \<comment> \<open>one character of \<open>repr(s)\<close> between quotes \<open>q\<close>\<close>
  "repr_char q c = (let n = code c in
     if c = q \<or> n = 92 then [char_of (92 :: nat), c]
     else if n = 9 then [char_of (92 :: nat), CHR ''t'']
     else if n = 10 then [char_of (92 :: nat), CHR ''n'']
     else if n = 13 then [char_of (92 :: nat), CHR ''r'']
     else if n < 32 \<or> (127 \<le> n \<and> n \<le> 160) \<or> n = 173
       then [char_of (92 :: nat), CHR ''x'', hex_digit (n div 16), hex_digit (n mod 16)]
     else [c])"

definition repr_str :: "string \<Rightarrow> string" where
  "repr_str s =
     (let sq = char_of (39 :: nat); dq = char_of (34 :: nat);
          q = (if sq \<in> set s \<and> dq \<notin> set s then dq else sq)
      in [q] @ concat (List.map (repr_char q) s) @ [q])"

fun py_repr :: "(pyfloat \<Rightarrow> string) \<Rightarrow> pyv \<Rightarrow> string" where
  "py_repr fr PNone = ''None''"
| "py_repr fr (PBool b) = (if b then ''True'' else ''False'')"
| "py_repr fr (PInt i) = int_str i"
| "py_repr fr (PFloat f) = fr f"
| "py_repr fr (PStr s) = repr_str s"
| "py_repr fr (PList xs) = ''['' @ join_with '', '' (List.map (py_repr fr) xs) @ '']''"
| "py_repr fr (PDict kvs) =
     ''{'' @ join_with '', '' (List.map (\<lambda>kv. repr_str (fst kv) @ '': '' @ py_repr fr (snd kv)) kvs) @ ''}''"

definition py_str :: "(pyfloat \<Rightarrow> string) \<Rightarrow> pyv \<Rightarrow> string" where
  "py_str fr v = (case v of PStr s \<Rightarrow> s | _ \<Rightarrow> py_repr fr v)"

definition str_dict :: "string dict \<Rightarrow> pyv" where
  "str_dict d = PDict (List.map (\<lambda>(k, v). (k, PStr v)) d)"

lemma py_str_PStr [simp]: "py_str fr (PStr s) = s"
  by (simp add: py_str_def)

end
