(* ===== verification/Runtime.thy ===== *)
theory Runtime
  imports Values
begin

section \<open>Agent runtime contracts\<close>

text \<open>
  The data of \<open>engine/runtime/contracts.py\<close> and \<open>engine/workflows/contracts.py\<close> that the
  other layers exchange. A field that the backends fill from decoded JSON without checking its
  type (thread handle, text, tool name, tool input and output) is a \<open>pyv\<close>; \<open>PNone\<close> is
  Python's \<open>None\<close> there.
\<close>

record agent_run_request =
  req_prompt :: string
  req_cwd :: string
  req_env :: "string dict"
  req_backend_thread_id :: pyv
  req_model :: "string option"
  req_timeout_s :: int
  req_attachments :: "string list"
  req_metadata :: "pyv dict"

definition agent_run_request ::
  "string \<Rightarrow> string \<Rightarrow> string dict \<Rightarrow> pyv \<Rightarrow> string option \<Rightarrow> pyv dict \<Rightarrow> agent_run_request" where
  \<comment> \<open>the constructor with the defaults of \<open>timeout_s\<close> and \<open>attachments\<close>\<close>
  "agent_run_request prompt cwd env tid model md =
     \<lparr>req_prompt = prompt, req_cwd = cwd, req_env = env, req_backend_thread_id = tid,
      req_model = model, req_timeout_s = 1800, req_attachments = [], req_metadata = md\<rparr>"

datatype agent_event_kind =
    THREAD_STARTED | MESSAGE_DELTA | MESSAGE_COMPLETED
  | TOOL_CALL_STARTED | TOOL_CALL_COMPLETED | TURN_COMPLETED | ERROR

datatype agent_error_kind =
    AUTH | TIMEOUT | RATE_LIMIT | BACKEND_CRASH | PROTOCOL | CANCELLED

fun error_kind_value :: "agent_error_kind \<Rightarrow> string" where
  "error_kind_value AUTH = ''auth''"
| "error_kind_value TIMEOUT = ''timeout''"
| "error_kind_value RATE_LIMIT = ''rate_limit''"
| "error_kind_value BACKEND_CRASH = ''backend_crash''"
| "error_kind_value PROTOCOL = ''protocol''"
| "error_kind_value CANCELLED = ''cancelled''"

record token_usage =
  input_tokens :: int
  output_tokens :: int

definition no_usage :: token_usage where
  "no_usage = \<lparr>input_tokens = 0, output_tokens = 0\<rparr>"

record tool_event =
  tool_name :: pyv
  tool_input :: pyv
  tool_output :: pyv
  tool_skill :: "string option"

record agent_error =
  err_kind :: agent_error_kind
  err_message :: string
  err_retriable :: bool
  err_raw :: "pyv option"

record agent_run_result =
  res_backend_thread_id :: pyv
  final_text :: pyv
  res_usage :: token_usage
  res_status :: string

definition agent_run_result :: "pyv \<Rightarrow> pyv \<Rightarrow> token_usage \<Rightarrow> agent_run_result" where
  "agent_run_result tid text usage =
     \<lparr>res_backend_thread_id = tid, final_text = text, res_usage = usage, res_status = ''ok''\<rparr>"

record agent_event =
  ev_kind :: agent_event_kind
  ev_backend_thread_id :: pyv
  ev_text :: pyv
  ev_tool :: "tool_event option"
  ev_usage :: "token_usage option"
  ev_result :: "agent_run_result option"
  ev_error :: "agent_error option"
  ev_ts :: rat
  ev_raw :: "pyv option"

definition agent_event :: "agent_event_kind \<Rightarrow> agent_event" where
  \<comment> \<open>\<open>AgentEvent(kind=k)\<close> with every other field at its default\<close>
  "agent_event k =
     \<lparr>ev_kind = k, ev_backend_thread_id = PNone, ev_text = PNone, ev_tool = None, ev_usage = None,
      ev_result = None, ev_error = None, ev_ts = 0, ev_raw = None\<rparr>"

record backend_capabilities =
  supports_resume :: bool
  supports_streaming :: bool
  supports_tools :: bool
  supports_mcp :: bool
  auth_modes :: "string list"

record backend_health =
  health_ok :: bool
  health_detail :: string

lemma agent_event_fields [simp]:
  "ev_kind (agent_event k) = k" "ev_error (agent_event k) = None"
  "ev_result (agent_event k) = None" "ev_tool (agent_event k) = None"
  "ev_text (agent_event k) = PNone" "ev_backend_thread_id (agent_event k) = PNone"
  by (simp_all add: agent_event_def)

lemma agent_run_result_fields [simp]:
  "res_backend_thread_id (agent_run_result t x u) = t" "final_text (agent_run_result t x u) = x"
  "res_usage (agent_run_result t x u) = u" "res_status (agent_run_result t x u) = ''ok''"
  by (simp_all add: agent_run_result_def)

lemma agent_run_request_fields [simp]:
  "req_prompt (agent_run_request p c e t m md) = p" "req_cwd (agent_run_request p c e t m md) = c"
  "req_env (agent_run_request p c e t m md) = e"
  "req_backend_thread_id (agent_run_request p c e t m md) = t"
  "req_model (agent_run_request p c e t m md) = m" "req_timeout_s (agent_run_request p c e t m md) = 1800"
  "req_metadata (agent_run_request p c e t m md) = md"
  by (simp_all add: agent_run_request_def)

subsection \<open>Workflow status\<close>

datatype workflow_status = PENDING | RUNNING | SUCCESS | FAILED

fun status_value :: "workflow_status \<Rightarrow> string" where
  "status_value PENDING = ''pending''"
| "status_value RUNNING = ''running''"
| "status_value SUCCESS = ''success''"
| "status_value FAILED = ''failed''"

definition terminal :: "workflow_status \<Rightarrow> bool" where
  "terminal st \<longleftrightarrow> st = SUCCESS \<or> st = FAILED"

end
