(* ===== verification/Errors.thy ===== *)
theory Errors
  imports Runtime
begin

section \<open>Exceptions\<close>

text \<open>
  Every exception the modelled code raises or lets through, with the data it carries, its class
  name and its text (\<open>str(exc)\<close>). The Chinese words of the messages are rendered in English;
  the values interpolated into them are kept. \<open>BaseExc\<close> stands for the exceptions outside
  \<open>Exception\<close> (\<open>KeyboardInterrupt\<close>, \<open>SystemExit\<close>), which \<open>except Exception\<close> does not
  catch.
\<close>

datatype exn =
    BackendNotRegistered string
  | WorkflowNotRegistered string
  | InboundAuthError string
  | UnknownUser string
  | WorkspaceAccessDenied string string
  | WorkspaceRouteError string
  | InvalidWorkspaceId string
  | InvalidSkillName string
  | SkillNotFound string
  | AgentRunFailed agent_error
  | SessionRoundsExceeded string int
  | DuplicateMessage string pyv
  | WorkflowRunNotFound string
  | WorkflowNotTerminal string workflow_status
  | WorkflowNotAllowed string string
  | CasbinIdentityProviderError string
  | GitSkillSourceError string string int string
  | SessionStoreError string "string option"
  | SecretProviderError string string "int option"
  | ValueError string
  | TypeError string
  | AttributeError string
  | KeyError string
  | AssertionError string
  | RuntimeError string
  | OverflowError string
  | OSError string string
  | TimeoutExpired string int
  | SubprocessError string
  | DatabaseError string
  | IntegrityError string
  | OtherError string string
  | BaseExc string string

fun exn_type :: "exn \<Rightarrow> string" where
  "exn_type (BackendNotRegistered _) = ''BackendNotRegistered''"
| "exn_type (WorkflowNotRegistered _) = ''WorkflowNotRegistered''"
| "exn_type (InboundAuthError _) = ''InboundAuthError''"
| "exn_type (UnknownUser _) = ''UnknownUser''"
| "exn_type (WorkspaceAccessDenied _ _) = ''WorkspaceAccessDenied''"
| "exn_type (WorkspaceRouteError _) = ''WorkspaceRouteError''"
| "exn_type (InvalidWorkspaceId _) = ''InvalidWorkspaceId''"
| "exn_type (InvalidSkillName _) = ''InvalidSkillName''"
| "exn_type (SkillNotFound _) = ''SkillNotFound''"
| "exn_type (AgentRunFailed _) = ''AgentRunFailed''"
| "exn_type (SessionRoundsExceeded _ _) = ''SessionRoundsExceeded''"
| "exn_type (DuplicateMessage _ _) = ''DuplicateMessage''"
| "exn_type (WorkflowRunNotFound _) = ''WorkflowRunNotFound''"
| "exn_type (WorkflowNotTerminal _ _) = ''WorkflowNotTerminal''"
| "exn_type (WorkflowNotAllowed _ _) = ''WorkflowNotAllowed''"
| "exn_type (CasbinIdentityProviderError _) = ''CasbinIdentityProviderError''"
| "exn_type (GitSkillSourceError _ _ _ _) = ''GitSkillSourceError''"
| "exn_type (SessionStoreError _ _) = ''SessionStoreError''"
| "exn_type (SecretProviderError _ _ _) = ''SecretProviderError''"
| "exn_type (ValueError _) = ''ValueError''"
| "exn_type (TypeError _) = ''TypeError''"
| "exn_type (AttributeError _) = ''AttributeError''"
| "exn_type (KeyError _) = ''KeyError''"
| "exn_type (AssertionError _) = ''AssertionError''"
| "exn_type (RuntimeError _) = ''RuntimeError''"
| "exn_type (OverflowError _) = ''OverflowError''"
| "exn_type (OSError c _) = c"
| "exn_type (TimeoutExpired _ _) = ''TimeoutExpired''"
| "exn_type (SubprocessError _) = ''SubprocessError''"
| "exn_type (DatabaseError _) = ''ProgrammingError''"
| "exn_type (IntegrityError _) = ''IntegrityError''"
| "exn_type (OtherError c _) = c"
| "exn_type (BaseExc c _) = c"

definition error_text :: "agent_error \<Rightarrow> string" where
  \<comment> \<open>\<open>f"{error.kind.value}: {error.message}"\<close>\<close>
  "error_text er = error_kind_value (err_kind er) @ '': '' @ err_message er"

subsection \<open>The texts that the classes of the code define\<close>

definition access_denied_text :: "string \<Rightarrow> string \<Rightarrow> string" where
  "access_denied_text user_id workspace_id = ''user '' @ user_id @ '' may not access workspace '' @ workspace_id"

definition rounds_exceeded_text :: "string \<Rightarrow> int \<Rightarrow> string" where
  "rounds_exceeded_text session_id max_rounds =
     ''session '' @ session_id @ '' has reached its maximum of rounds '' @ int_str max_rounds"

definition duplicate_message_text :: "string \<Rightarrow> pyv \<Rightarrow> string" where
  \<comment> \<open>a message identifier that is no string comes from JSON; the digits of a float are left open\<close>
  "duplicate_message_text session_id message_id =
     ''message '' @ py_str (\<lambda>_. ''float'') message_id @ '' in session '' @ session_id @ '' was already processed''"

definition not_terminal_text :: "string \<Rightarrow> workflow_status \<Rightarrow> string" where
  "not_terminal_text run_id status =
     ''run '' @ run_id @ '' is '' @ status_value status @ '', only a terminal run (success/failed) can rerun''"

definition not_allowed_text :: "string \<Rightarrow> string \<Rightarrow> string" where
  "not_allowed_text workspace_id workflow =
     ''workflow '' @ repr_str workflow @ '' is not allowed in workspace '' @ repr_str workspace_id"

definition store_error_str :: "string \<Rightarrow> string option \<Rightarrow> string" where
  "store_error_str message stage =
     (case stage of None \<Rightarrow> [] | Some x \<Rightarrow> if x = [] then [] else ''['' @ x @ ''] '') @ message"

definition store_error_repr :: "string \<Rightarrow> string option \<Rightarrow> string" where
  "store_error_repr message stage =
     ''SessionStoreError('' @ repr_str message @ '', stage='' @ (case stage of None \<Rightarrow> ''None'' | Some x \<Rightarrow> repr_str x) @ '')''"

definition secret_error_str :: "string \<Rightarrow> string \<Rightarrow> int option \<Rightarrow> string" where
  "secret_error_str message stage status =
     ''['' @ stage @ (case status of None \<Rightarrow> [] | Some x \<Rightarrow> '' (HTTP '' @ int_str x @ '')'') @ ''] '' @ message"

definition secret_error_repr :: "string \<Rightarrow> string \<Rightarrow> int option \<Rightarrow> string" where
  "secret_error_repr message stage status =
     ''SecretProviderError('' @ repr_str message @ '', stage='' @ repr_str stage @ '', status=''
       @ (case status of None \<Rightarrow> ''None'' | Some x \<Rightarrow> int_str x) @ '')''"

definition git_error_repr :: "string \<Rightarrow> string \<Rightarrow> int \<Rightarrow> string" where
  "git_error_repr message stage returncode =
     ''GitSkillSourceError('' @ repr_str message @ '', stage='' @ repr_str stage @ '', returncode='' @ int_str returncode @ '')''"

lemmas exn_texts [simp] =
  access_denied_text_def rounds_exceeded_text_def duplicate_message_text_def not_terminal_text_def not_allowed_text_def

fun exn_str :: "exn \<Rightarrow> string" where
  "exn_str (BackendNotRegistered n) = repr_str n"
| "exn_str (WorkflowNotRegistered n) = repr_str n"
| "exn_str (InboundAuthError m) = m"
| "exn_str (UnknownUser r) = repr_str r"
| "exn_str (WorkspaceAccessDenied u w) = access_denied_text u w"
| "exn_str (WorkspaceRouteError u) = ''user '' @ u @ '' has no default_workspace, cannot route''"
| "exn_str (InvalidWorkspaceId w) = ''illegal workspace_id (possible path traversal): '' @ repr_str w"
| "exn_str (InvalidSkillName n) = n"
| "exn_str (SkillNotFound n) = repr_str n"
| "exn_str (AgentRunFailed er) = error_text er"
| "exn_str (SessionRoundsExceeded s n) = rounds_exceeded_text s n"
| "exn_str (DuplicateMessage s m) = duplicate_message_text s m"
| "exn_str (WorkflowRunNotFound r) = repr_str r"
| "exn_str (WorkflowNotTerminal r st) = not_terminal_text r st"
| "exn_str (WorkflowNotAllowed w n) = not_allowed_text w n"
| "exn_str (CasbinIdentityProviderError m) = m"
| "exn_str (GitSkillSourceError m _ _ _) = m"
| "exn_str (SessionStoreError m st) = store_error_str m st"
| "exn_str (SecretProviderError m st c) = secret_error_str m st c"
| "exn_str (ValueError m) = m"
| "exn_str (TypeError m) = m"
| "exn_str (AttributeError m) = m"
| "exn_str (KeyError k) = repr_str k"
| "exn_str (AssertionError m) = m"
| "exn_str (RuntimeError m) = m"
| "exn_str (OverflowError m) = m"
| "exn_str (OSError _ m) = m"
| "exn_str (TimeoutExpired cmd t) =
     ''Command '' @ cmd @ '' timed out after '' @ int_str t @ '' seconds''"
| "exn_str (SubprocessError m) = m"
| "exn_str (DatabaseError m) = m"
| "exn_str (IntegrityError m) = m"
| "exn_str (OtherError _ m) = m"
| "exn_str (BaseExc _ m) = m"

fun is_exception :: "exn \<Rightarrow> bool" where
  \<comment> \<open>does \<open>except Exception\<close> catch it?\<close>
  "is_exception (BaseExc _ _) = False"
| "is_exception _ = True"

end
