(* ===== verification/Registry.thy ===== *)
theory Registry
  imports Errors
begin

section \<open>Backends, handlers and the registry\<close>

text \<open>
  The \<open>CodeAgentBackend\<close> protocol with the event-stream contract of
  \<open>engine/runtime/contract_suite.py\<close>, workflow handlers, and \<open>EngineRegistry\<close> of
  \<open>engine/bootstrap.py\<close>.

  A backend's \<open>run\<close> is a generator; its behaviour on a request is the list of events it
  yields and the exception it then raises, if any. The consumer sends nothing back, so this
  list says all there is.
\<close>

type_synonym event_stream = "agent_event list \<times> exn option"

record backend =
  be_name :: string
  be_capabilities :: backend_capabilities
  be_run :: "agent_run_request \<Rightarrow> event_stream"
  be_healthcheck :: backend_health

type_synonym backend_factory = "unit \<Rightarrow> exn + backend"

text \<open>
  A workflow handler is a program that may report progress, assign to its \<open>params\<close> dictionary
  and ends by returning or raising. After a report it continues with what
  \<open>report_progress\<close> did: return or raise (a handler may catch it). The code accepts any
  callable; the type takes in those that come to an end by themselves, after finitely many reports
  and writes. A handler that loops forever, that waits for another run or that uses \<open>ctx.store\<close>
  beside its reports is outside the model, and with it what the properties of workflows say of its run.
\<close>

datatype wf_prog =
    WfReturn pyv
  | WfRaise exn
  | WfReport string "string option" "pyfloat option" "(exn + unit) \<Rightarrow> wf_prog"
  | WfSetParam string pyv wf_prog

type_synonym workflow_handler = "pyv dict \<Rightarrow> wf_prog"

subsection \<open>The event-stream contract\<close>

definition terminal_kind :: "agent_event_kind \<Rightarrow> bool" where
  "terminal_kind k \<longleftrightarrow> k = TURN_COMPLETED \<or> k = ERROR"

definition assert_valid_event_stream :: "agent_event list \<Rightarrow> exn + unit" where
  "assert_valid_event_stream events =
     (if events = [] then Inl (AssertionError ''the event stream must not be empty'')
      else let terminals = filter (\<lambda>e. terminal_kind (ev_kind e)) events in
      if length terminals \<noteq> 1
      then Inl (AssertionError (''exactly one terminal event required, got '' @ nat_str (length terminals)))
      else if \<not> terminal_kind (ev_kind (last events))
      then Inl (AssertionError ''the terminal event must come last'')
      else let l = last events in
      if ev_kind l = TURN_COMPLETED
      then (if ev_result l = None then Inl (AssertionError ''TURN_COMPLETED must carry a result'')
            else if ev_error l \<noteq> None then Inl (AssertionError ''TURN_COMPLETED must not carry an error'')
            else Inr ())
      else (if ev_error l = None then Inl (AssertionError ''ERROR must carry an error'')
            else if ev_result l \<noteq> None then Inl (AssertionError ''ERROR must not carry a result'')
            else Inr ()))"

definition plain_event :: "agent_event \<Rightarrow> bool" where
  "plain_event e \<longleftrightarrow> \<not> terminal_kind (ev_kind e)"

definition good_terminal :: "agent_event \<Rightarrow> bool" where
  "good_terminal e \<longleftrightarrow>
     (ev_kind e = TURN_COMPLETED \<and> ev_result e \<noteq> None \<and> ev_error e = None)
     \<or> (ev_kind e = ERROR \<and> ev_error e \<noteq> None \<and> ev_result e = None)"

lemma plain_event_agent_event [simp]: "plain_event (agent_event k) \<longleftrightarrow> \<not> terminal_kind k"
  by (simp add: plain_event_def)

text \<open>The contract in one line: plain events, then one well-formed terminal event.\<close>

lemma valid_stream_iff:
  "assert_valid_event_stream evs = Inr () \<longleftrightarrow>
     (\<exists>pre t. evs = pre @ [t] \<and> list_all plain_event pre \<and> good_terminal t)"
proof (cases evs rule: rev_cases)
  case Nil
  then show ?thesis by (simp add: assert_valid_event_stream_def)
next
  case (snoc pre t)
  show ?thesis
  proof (cases "terminal_kind (ev_kind t)")
    case True
    then have "length (filter (\<lambda>e. terminal_kind (ev_kind e)) evs) = 1
        \<longleftrightarrow> list_all plain_event pre"
      by (simp add: snoc list_all_iff plain_event_def filter_empty_conv)
    with True snoc show ?thesis
      by (auto simp: assert_valid_event_stream_def good_terminal_def terminal_kind_def Let_def)
  next
    case False
    with snoc show ?thesis
      by (auto simp: assert_valid_event_stream_def good_terminal_def terminal_kind_def Let_def)
  qed
qed

subsection \<open>The registry\<close>

record engine_registry =
  reg_backends :: "string \<rightharpoonup> backend_factory"
  reg_workflows :: "string \<rightharpoonup> workflow_handler"

definition empty_registry :: engine_registry where
  "empty_registry = \<lparr>reg_backends = Map.empty, reg_workflows = Map.empty\<rparr>"

definition register_backend :: "string \<Rightarrow> backend_factory \<Rightarrow> engine_registry \<Rightarrow> engine_registry" where
  "register_backend name factory r = r\<lparr>reg_backends := (reg_backends r)(name \<mapsto> factory)\<rparr>"

definition resolve_backend :: "engine_registry \<Rightarrow> string \<Rightarrow> exn + backend" where
  "resolve_backend r name =
     (case reg_backends r name of
        None \<Rightarrow> Inl (BackendNotRegistered name)
      | Some factory \<Rightarrow> factory ())"

definition register_workflow :: "string \<Rightarrow> workflow_handler \<Rightarrow> engine_registry \<Rightarrow> engine_registry" where
  "register_workflow name handler r = r\<lparr>reg_workflows := (reg_workflows r)(name \<mapsto> handler)\<rparr>"

definition resolve_workflow :: "engine_registry \<Rightarrow> string \<Rightarrow> exn + workflow_handler" where
  "resolve_workflow r name =
     (case reg_workflows r name of
        None \<Rightarrow> Inl (WorkflowNotRegistered name)
      | Some handler \<Rightarrow> Inr handler)"

lemma resolve_register_backend [simp]:
  "resolve_backend (register_backend n f r) m = (if m = n then f () else resolve_backend r m)"
  by (simp add: resolve_backend_def register_backend_def)

lemma resolve_register_workflow [simp]:
  "resolve_workflow (register_workflow n h r) m = (if m = n then Inr h else resolve_workflow r m)"
  by (simp add: resolve_workflow_def register_workflow_def)

lemma resolve_backend_register_workflow [simp]:
  "resolve_backend (register_workflow n h r) m = resolve_backend r m"
  by (simp add: resolve_backend_def register_workflow_def)

lemma resolve_workflow_register_backend [simp]:
  "resolve_workflow (register_backend n f r) m = resolve_workflow r m"
  by (simp add: resolve_workflow_def register_backend_def)

lemma resolve_empty [simp]:
  "resolve_backend empty_registry n = Inl (BackendNotRegistered n)"
  "resolve_workflow empty_registry n = Inl (WorkflowNotRegistered n)"
  by (simp_all add: resolve_backend_def resolve_workflow_def empty_registry_def)

end
