(* ===== verification/Observability.thy ===== *)
theory Observability
  imports Registry
begin

section \<open>Tracing\<close>

text \<open>
  The \<open>Tracer\<close> and \<open>TraceSpan\<close> protocols of \<open>engine/observability/contracts.py\<close> with
  \<open>MemoryTracer\<close> and \<open>NoOpTracer\<close>. A tracer is a state \<open>'t\<close> with a record of operations;
  a span is a handle \<open>'sp\<close> into that state. \<open>MemorySpan\<close> holds a reference to the
  record that \<open>MemoryTracer.traces\<close> lists, so its handle is the record's position.
\<close>

record trace_dims =
  dim_workspace_id :: pyv
  dim_user_id :: pyv
  dim_session_id :: pyv
  dim_backend_name :: pyv

record ('t, 'sp) tracer_ops =
  op_start_trace :: "string \<Rightarrow> trace_dims \<Rightarrow> pyv \<Rightarrow> pyv dict option \<Rightarrow> 't \<Rightarrow> 'sp \<times> 't"
  op_record_tool :: "'sp \<Rightarrow> pyv \<Rightarrow> pyv \<Rightarrow> pyv \<Rightarrow> 't \<Rightarrow> 't"
  op_finish :: "'sp \<Rightarrow> pyv \<Rightarrow> string option \<Rightarrow> 't \<Rightarrow> 't"
  op_exit :: "'sp \<Rightarrow> exn option \<Rightarrow> 't \<Rightarrow> 't"

text \<open>
  What every tracer promises: \<open>finish\<close> closes the span, a closed span stays closed and is not
  written again by \<open>finish\<close> or \<open>__exit__\<close>, and recording a tool call neither opens nor
  closes a span.
\<close>

locale tracer_contract =
  fixes T :: "('t, 'sp) tracer_ops"
    and ended :: "'sp \<Rightarrow> 't \<Rightarrow> bool"
  assumes finish_ends: "ended sp (op_finish T sp out err t)"
    and finish_ended: "ended sp t \<Longrightarrow> op_finish T sp out err t = t"
    and exit_ended: "ended sp t \<Longrightarrow> op_exit T sp x t = t"
    and exit_open: "\<not> ended sp t \<Longrightarrow> op_exit T sp x t = op_finish T sp PNone (map_option exn_str x) t"
    and record_tool_ended: "ended sp (op_record_tool T sp n i out t) = ended sp t"
begin

lemma exit_ends: "ended sp (op_exit T sp x t)"
  using exit_ended exit_open finish_ends by (cases "ended sp t") simp_all

lemma finish_idem: "op_finish T sp o1 e1 (op_finish T sp o2 e2 t) = op_finish T sp o2 e2 t"
  using finish_ended finish_ends by blast

lemma exit_after_finish: "op_exit T sp x (op_finish T sp out e t) = op_finish T sp out e t"
  using exit_ended finish_ends by blast

end

text \<open>A tracer that keeps what it is told starts each span open.\<close>

locale recording_tracer = tracer_contract +
  assumes start_open: "op_start_trace T n d i m t = (sp, t') \<Longrightarrow> \<not> ended sp t'"

subsection \<open>NoOpTracer\<close>

definition noop_tracer_ops :: "(unit, unit) tracer_ops" where
  "noop_tracer_ops =
     \<lparr>op_start_trace = (\<lambda>_ _ _ _ t. ((), t)), op_record_tool = (\<lambda>_ _ _ _ t. t),
      op_finish = (\<lambda>_ _ _ t. t), op_exit = (\<lambda>_ _ t. t)\<rparr>"

interpretation noop: tracer_contract noop_tracer_ops "\<lambda>_ _. True"
  by unfold_locales (simp_all add: noop_tracer_ops_def)

subsection \<open>MemoryTracer\<close>

record trace_record =
  tr_name :: string
  tr_dims :: trace_dims
  tr_input :: pyv
  tr_metadata :: "pyv dict"
  tr_tools :: "pyv dict list"
  tr_output :: pyv
  tr_error :: "string option"
  tr_finished :: bool

type_synonym memory_tracer = "trace_record list"

definition mem_start_trace ::
  "string \<Rightarrow> trace_dims \<Rightarrow> pyv \<Rightarrow> pyv dict option \<Rightarrow> memory_tracer \<Rightarrow> nat \<times> memory_tracer" where
  "mem_start_trace name dims input metadata t =
     (length t,
      t @ [\<lparr>tr_name = name, tr_dims = dims, tr_input = input,
            tr_metadata = (case metadata of None \<Rightarrow> [] | Some d \<Rightarrow> d), tr_tools = [],
            tr_output = PNone, tr_error = None, tr_finished = False\<rparr>])"

definition upd_at :: "nat \<Rightarrow> ('a \<Rightarrow> 'a) \<Rightarrow> 'a list \<Rightarrow> 'a list" where
  "upd_at i f xs = (if i < length xs then xs[i := f (xs ! i)] else xs)"

definition tool_entry :: "pyv \<Rightarrow> pyv \<Rightarrow> pyv \<Rightarrow> pyv dict" where
  "tool_entry name input output = [(''name'', name), (''input'', input), (''output'', output)]"

definition mem_record_tool :: "nat \<Rightarrow> pyv \<Rightarrow> pyv \<Rightarrow> pyv \<Rightarrow> memory_tracer \<Rightarrow> memory_tracer" where
  "mem_record_tool sp name input output =
     upd_at sp (\<lambda>r. r\<lparr>tr_tools := tr_tools r @ [tool_entry name input output]\<rparr>)"

definition mem_finish :: "nat \<Rightarrow> pyv \<Rightarrow> string option \<Rightarrow> memory_tracer \<Rightarrow> memory_tracer" where
  "mem_finish sp output error =
     upd_at sp (\<lambda>r. if tr_finished r then r
                    else r\<lparr>tr_output := output, tr_error := error, tr_finished := True\<rparr>)"

definition mem_exit :: "nat \<Rightarrow> exn option \<Rightarrow> memory_tracer \<Rightarrow> memory_tracer" where
  "mem_exit sp x t =
     (if sp < length t \<and> \<not> tr_finished (t ! sp)
      then mem_finish sp PNone (map_option exn_str x) t else t)"

definition memory_tracer_ops :: "(memory_tracer, nat) tracer_ops" where
  "memory_tracer_ops =
     \<lparr>op_start_trace = mem_start_trace, op_record_tool = mem_record_tool,
      op_finish = mem_finish, op_exit = mem_exit\<rparr>"

lemma memory_tracer_sel [simp]:
  "op_start_trace memory_tracer_ops = mem_start_trace"
  "op_record_tool memory_tracer_ops = mem_record_tool"
  "op_finish memory_tracer_ops = mem_finish" "op_exit memory_tracer_ops = mem_exit"
  by (simp_all add: memory_tracer_ops_def)

lemma upd_at_nth: "i < length xs \<Longrightarrow> upd_at i f xs ! j = (if j = i then f (xs ! i) else xs ! j)"
  by (simp add: upd_at_def nth_list_update)

lemma length_upd_at [simp]: "length (upd_at i f xs) = length xs"
  by (simp add: upd_at_def)

lemma upd_at_last [simp]: "upd_at (length xs) f (xs @ [x]) = xs @ [f x]"
  by (simp add: upd_at_def)

definition mem_ended :: "nat \<Rightarrow> memory_tracer \<Rightarrow> bool" where
  \<comment> \<open>a handle outside the list belongs to no span\<close>
  "mem_ended sp t \<longleftrightarrow> (sp < length t \<longrightarrow> tr_finished (t ! sp))"

interpretation memtr: recording_tracer memory_tracer_ops mem_ended
proof unfold_locales
  show "mem_ended sp (op_finish memory_tracer_ops sp out err t)" for sp out err t
    by (auto simp: mem_ended_def mem_finish_def upd_at_nth)
  show "op_finish memory_tracer_ops sp out err t = t" if "mem_ended sp t" for sp t out err
    using that by (auto simp: mem_ended_def mem_finish_def upd_at_def)
  show "op_exit memory_tracer_ops sp x t = t" if "mem_ended sp t" for sp t x
    using that by (auto simp: mem_ended_def mem_exit_def)
  show "op_exit memory_tracer_ops sp x t = op_finish memory_tracer_ops sp PNone (map_option exn_str x) t"
    if "\<not> mem_ended sp t" for sp t x
    using that by (auto simp: mem_ended_def mem_exit_def)
  show "mem_ended sp (op_record_tool memory_tracer_ops sp n i out t) = mem_ended sp t" for sp n i out t
    by (auto simp: mem_ended_def mem_record_tool_def upd_at_nth)
  show "\<not> mem_ended sp t'" if "op_start_trace memory_tracer_ops n d i m t = (sp, t')" for n d i m t sp t'
    using that by (auto simp: mem_ended_def mem_start_trace_def)
qed

text \<open>On the record at the end of the list, where a running turn writes.\<close>

lemma mem_last:
  "mem_record_tool (length t) n i out (t @ [r])
     = t @ [r\<lparr>tr_tools := tr_tools r @ [tool_entry n i out]\<rparr>]"
  "\<not> tr_finished r \<Longrightarrow> mem_finish (length t) out err (t @ [r])
     = t @ [r\<lparr>tr_output := out, tr_error := err, tr_finished := True\<rparr>]"
  "mem_exit (length t) x (t @ [r])
     = t @ [if tr_finished r then r
            else r\<lparr>tr_output := PNone, tr_error := map_option exn_str x, tr_finished := True\<rparr>]"
  by (simp_all add: mem_record_tool_def mem_finish_def mem_exit_def)

end
