(* ===== verification/Engine.thy ===== *)
theory Engine
  imports Observability
begin

section \<open>Engine.run_turn\<close>

text \<open>
  \<open>engine/orchestration/engine.py\<close>. The state holds the tracer, the runs started on
  backends (what \<open>backend.run\<close> does to the world: the requests that reach a child process)
  and the events handed to \<open>on_event\<close>. A callback is a function of the events it saw
  before and the event at hand that says whether it raises.
\<close>

record 't engine_state =
  es_tracer :: 't
  es_runs :: "(string \<times> agent_run_request) list"
  es_seen :: "agent_event list"

type_synonym event_callback = "agent_event list \<Rightarrow> agent_event \<Rightarrow> exn option"

record turn_args =
  ta_backend_name :: string
  ta_prompt :: string
  ta_cwd :: string
  ta_env :: "string dict"
  ta_backend_thread_id :: pyv
  ta_model :: "string option"
  ta_metadata :: "pyv dict option"
  ta_trace_metadata :: "pyv dict option"
  ta_on_event :: "event_callback option"

definition deliver :: "event_callback option \<Rightarrow> agent_event \<Rightarrow> 't engine_state \<Rightarrow> exn option \<times> 't engine_state" where
  \<comment> \<open>\<open>if on_event is not None: on_event(event)\<close>\<close>
  "deliver cb ev s =
     (case cb of
        None \<Rightarrow> (None, s)
      | Some f \<Rightarrow> (f (es_seen s) ev, s\<lparr>es_seen := es_seen s @ [ev]\<rparr>))"

definition note_tool :: "('t, 'sp) tracer_ops \<Rightarrow> 'sp \<Rightarrow> agent_event \<Rightarrow> 't engine_state \<Rightarrow> 't engine_state" where
  "note_tool T sp ev s =
     (case ev_tool ev of
        Some tool \<Rightarrow>
          (if ev_kind ev = TOOL_CALL_COMPLETED
           then s\<lparr>es_tracer := op_record_tool T sp (tool_name tool) (tool_input tool) (tool_output tool)
                                  (es_tracer s)\<rparr>
           else s)
      | None \<Rightarrow> s)"

fun consume :: "('t, 'sp) tracer_ops \<Rightarrow> bool \<Rightarrow> event_callback option \<Rightarrow> 'sp \<Rightarrow> agent_event list
    \<Rightarrow> exn option \<Rightarrow> agent_run_result option \<Rightarrow> 't engine_state
    \<Rightarrow> (exn + agent_run_result option) \<times> 't engine_state" where
  \<comment> \<open>the loop over the events of \<open>backend.run(req)\<close>; the exception that ends the generator, if any,
     leaves the loop\<close>
  "consume T streaming cb sp [] tail result s =
     (case tail of None \<Rightarrow> (Inr result, s) | Some e \<Rightarrow> (Inl e, s))"
| "consume T streaming cb sp (ev # evs) tail result s =
     (if ev_kind ev = MESSAGE_DELTA \<and> \<not> streaming
      then consume T streaming cb sp evs tail result s
      else (case deliver cb ev s of
              (Some e, s1) \<Rightarrow> (Inl e, s1)
            | (None, s1) \<Rightarrow>
                (let s2 = note_tool T sp ev s1 in
                 if ev_kind ev = ERROR
                 then (case ev_error ev of
                         None \<Rightarrow> (Inl (AssertionError ''''), s2)
                       | Some er \<Rightarrow>
                           (Inl (AgentRunFailed er),
                            s2\<lparr>es_tracer := op_finish T sp PNone (Some (error_text er)) (es_tracer s2)\<rparr>))
                 else if ev_kind ev = TURN_COMPLETED
                 then (case ev_result ev of
                         None \<Rightarrow> (Inl (AssertionError ''''), s2)
                       | Some r \<Rightarrow> consume T streaming cb sp evs tail (Some r) s2)
                 else consume T streaming cb sp evs tail result s2)))"

definition no_terminal_text :: string where
  "no_terminal_text = ''backend produced no terminal TURN_COMPLETED/ERROR''"

definition turn_request :: "backend_capabilities \<Rightarrow> turn_args \<Rightarrow> agent_run_request" where
  "turn_request caps a =
     agent_run_request (ta_prompt a) (ta_cwd a) (ta_env a)
       (if supports_resume caps then ta_backend_thread_id a else PNone)
       (ta_model a) (case ta_metadata a of None \<Rightarrow> [] | Some md \<Rightarrow> md)"

definition turn_dims :: "turn_args \<Rightarrow> trace_dims" where
  "turn_dims a =
     (let md = (case ta_metadata a of None \<Rightarrow> [] | Some md \<Rightarrow> md) in
      \<lparr>dim_workspace_id = dget md ''workspace_id'', dim_user_id = dget md ''user_id'',
       dim_session_id = dget md ''session_id'', dim_backend_name = PStr (ta_backend_name a)\<rparr>)"

definition turn_body :: "('t, 'sp) tracer_ops \<Rightarrow> backend_capabilities \<Rightarrow> event_stream \<Rightarrow> event_callback option
    \<Rightarrow> 'sp \<Rightarrow> 't engine_state \<Rightarrow> (exn + agent_run_result) \<times> 't engine_state" where
  \<comment> \<open>the body of the \<open>with\<close> block\<close>
  "turn_body T caps stream cb sp s =
     (case consume T (supports_streaming caps) cb sp (fst stream) (snd stream) None s of
        (Inl e, s1) \<Rightarrow> (Inl e, s1)
      | (Inr None, s1) \<Rightarrow>
          (Inl (RuntimeError (no_terminal_text @ '', contract violated'')),
           s1\<lparr>es_tracer := op_finish T sp PNone (Some no_terminal_text) (es_tracer s1)\<rparr>)
      | (Inr (Some r), s1) \<Rightarrow>
          (Inr r, s1\<lparr>es_tracer := op_finish T sp (final_text r) None (es_tracer s1)\<rparr>))"

definition leave_span :: "('t, 'sp) tracer_ops \<Rightarrow> 'sp \<Rightarrow> (exn + 'a) \<times> 't engine_state \<Rightarrow> (exn + 'a) \<times> 't engine_state" where
  \<comment> \<open>\<open>__exit__\<close> of the span; it returns False, so the exception goes on\<close>
  "leave_span T sp out =
     (fst out, (snd out)\<lparr>es_tracer :=
        op_exit T sp (case fst out of Inl e \<Rightarrow> Some e | Inr _ \<Rightarrow> None) (es_tracer (snd out))\<rparr>)"

definition run_turn :: "('t, 'sp) tracer_ops \<Rightarrow> engine_registry \<Rightarrow> turn_args \<Rightarrow> 't engine_state
    \<Rightarrow> (exn + agent_run_result) \<times> 't engine_state" where
  "run_turn T reg a s =
     (case resolve_backend reg (ta_backend_name a) of
        Inl e \<Rightarrow> (Inl e, s)
      | Inr be \<Rightarrow>
          (let caps = be_capabilities be;
               req = turn_request caps a;
               (sp, t1) = op_start_trace T ''agent-turn'' (turn_dims a) (PStr (ta_prompt a))
                            (ta_trace_metadata a) (es_tracer s);
               s1 = s\<lparr>es_tracer := t1, es_runs := es_runs s @ [(ta_backend_name a, req)]\<rparr>
           in leave_span T sp (turn_body T caps (be_run be req) (ta_on_event a) sp s1)))"

subsection \<open>The loop over a stream that keeps the contract\<close>

definition visible :: "bool \<Rightarrow> agent_event list \<Rightarrow> agent_event list" where
  \<comment> \<open>the events the loop does not skip\<close>
  "visible streaming evs = filter (\<lambda>e. \<not> (ev_kind e = MESSAGE_DELTA \<and> \<not> streaming)) evs"

definition note_tools :: "('t, 'sp) tracer_ops \<Rightarrow> 'sp \<Rightarrow> agent_event list \<Rightarrow> 't engine_state \<Rightarrow> 't engine_state" where
  "note_tools T sp evs s = fold (note_tool T sp) evs s"

lemma deliver_None [simp]: "deliver None ev s = (None, s)"
  by (simp add: deliver_def)

lemma note_tool_frame [simp]:
  "es_runs (note_tool T sp ev s) = es_runs s" "es_seen (note_tool T sp ev s) = es_seen s"
  by (simp_all add: note_tool_def split: option.splits)

lemma deliver_frame:
  "deliver cb ev s = (x, s') \<Longrightarrow> es_runs s' = es_runs s \<and> es_tracer s' = es_tracer s"
  by (auto simp: deliver_def split: option.splits)

lemma note_tools_Nil [simp]: "note_tools T sp [] s = s"
  by (simp add: note_tools_def)

lemma note_tools_Cons [simp]:
  "note_tools T sp (ev # evs) s = note_tools T sp evs (note_tool T sp ev s)"
  by (simp add: note_tools_def)

lemma consume_plain:
  "list_all plain_event pre \<Longrightarrow>
   consume T st None sp (pre @ evs) tail result s
     = consume T st None sp evs tail result (note_tools T sp (visible st pre) s)"
  by (induction pre arbitrary: s) (auto simp: visible_def plain_event_def terminal_kind_def Let_def)

lemma consume_runs: "es_runs (snd (consume T st cb sp evs tail result s)) = es_runs s"
proof (induction evs arbitrary: result s)
  case Nil
  then show ?case by (simp split: option.splits)
next
  case (Cons ev evs)
  obtain x s1 where d: "deliver cb ev s = (x, s1)" by fastforce
  then have "es_runs s1 = es_runs s" by (auto dest: deliver_frame)
  with Cons d show ?case
    by (auto simp: Let_def split: option.splits)
qed

lemma turn_body_runs: "es_runs (snd (turn_body T caps stream cb sp s)) = es_runs s"
  using consume_runs [of T "supports_streaming caps" cb sp "fst stream" "snd stream" None s]
  by (auto simp: turn_body_def split: prod.splits sum.splits option.splits)

text \<open>A turn that reaches a backend starts exactly one run on it, with the request built from its
  arguments; one that does not starts none and leaves the state alone.\<close>

lemma run_turn_runs:
  "es_runs (snd (run_turn T reg a s)) =
     (case resolve_backend reg (ta_backend_name a) of
        Inl e \<Rightarrow> es_runs s
      | Inr be \<Rightarrow> es_runs s @ [(ta_backend_name a, turn_request (be_capabilities be) a)])"
  by (simp add: run_turn_def leave_span_def turn_body_runs Let_def split: sum.splits prod.splits)

lemma run_turn_unregistered:
  "resolve_backend reg (ta_backend_name a) = Inl e \<Longrightarrow> run_turn T reg a s = (Inl e, s)"
  by (simp add: run_turn_def)

lemma turn_body_completed:
  assumes "be_stream = (pre @ [t], None)" and "list_all plain_event pre"
    and "ev_kind t = TURN_COMPLETED" and "ev_result t = Some r"
  shows "fst (turn_body T caps be_stream None sp s) = Inr r"
  using assms by (simp add: turn_body_def consume_plain Let_def)

lemma turn_body_error:
  assumes "be_stream = (pre @ [t], tail)" and "list_all plain_event pre"
    and "ev_kind t = ERROR" and "ev_error t = Some er"
  shows "fst (turn_body T caps be_stream None sp s) = Inl (AgentRunFailed er)"
  using assms by (simp add: turn_body_def consume_plain Let_def)

lemma consume_result:
  "fst (consume T st cb sp evs tail result s) = Inr (Some r)
     \<Longrightarrow> tail = None \<and> (result = Some r \<or> (\<exists>ev \<in> set evs. ev_kind ev = TURN_COMPLETED \<and> ev_result ev = Some r))"
proof (induction evs arbitrary: result s)
  case Nil
  then show ?case by (auto split: option.splits)
next
  case (Cons ev evs)
  obtain x s1 where "deliver cb ev s = (x, s1)" by fastforce
  with Cons show ?case
    by (fastforce simp: Let_def split: if_splits option.splits)
qed

lemma run_turn_result_event:
  assumes "run_turn T reg a s = (Inr r, s')"
  shows "\<exists>be evs. resolve_backend reg (ta_backend_name a) = Inr be
    \<and> be_run be (turn_request (be_capabilities be) a) = (evs, None)
    \<and> (\<exists>ev \<in> set evs. ev_kind ev = TURN_COMPLETED \<and> ev_result ev = Some r)"
proof -
  obtain be where be: "resolve_backend reg (ta_backend_name a) = Inr be"
    using assms by (cases "resolve_backend reg (ta_backend_name a)") (auto simp: run_turn_unregistered)
  let ?req = "turn_request (be_capabilities be) a"
  obtain sp s1 where "fst (turn_body T (be_capabilities be) (be_run be ?req) (ta_on_event a) sp s1) = Inr r"
    using assms be by (auto simp: run_turn_def leave_span_def Let_def split: prod.splits)
  then have "fst (consume T (supports_streaming (be_capabilities be)) (ta_on_event a) sp
      (fst (be_run be ?req)) (snd (be_run be ?req)) None s1) = Inr (Some r)"
    by (auto simp: turn_body_def split: prod.splits sum.splits option.splits)
  from consume_result [OF this] be show ?thesis by (metis option.distinct(1) prod.collapse)
qed


context tracer_contract
begin

text \<open>Whatever the backend and the callback do, the span of the turn is closed.\<close>

lemma turn_span_ended:
  assumes "resolve_backend reg (ta_backend_name a) = Inr be"
    and "op_start_trace T ''agent-turn'' (turn_dims a) (PStr (ta_prompt a)) (ta_trace_metadata a)
           (es_tracer s) = (sp, t1)"
  shows "ended sp (es_tracer (snd (run_turn T reg a s)))"
  using assms by (simp add: run_turn_def leave_span_def Let_def exit_ends)

end

end
