(* ===== verification/Sessions.thy ===== *)
theory Sessions
  imports Errors
begin

section \<open>Sessions and the SessionStore contract\<close>

text \<open>
  \<open>engine/persistence/contracts.py\<close>: the \<open>Session\<close> record and the \<open>SessionStore\<close> protocol.
  The specification of a store is a map from the natural key (workspace, channel, thread) to the
  session and the set of processed (session, message) pairs. The locale \<open>session_store\<close>
  states what every store promises in terms of it, for the calls the protocol allows: \<open>save\<close>
  only of a session the store handed out, \<open>mark_processed\<close> only for a known session.

  The identifier a store draws from \<open>uuid4\<close> and the clock reading are arguments.
\<close>

record session =
  ss_id :: string
  ss_workspace_id :: string
  ss_channel :: string
  ss_thread_key :: string
  ss_backend_name :: string
  ss_backend_thread_id :: pyv
  ss_round_count :: int
  ss_max_rounds :: int
  ss_last_active :: rat

type_synonym sess_key = "string \<times> string \<times> string"

definition with_turn :: "pyv \<Rightarrow> rat \<Rightarrow> session \<Rightarrow> session" where
  "with_turn tid now s =
     s\<lparr>ss_backend_thread_id := tid, ss_round_count := ss_round_count s + 1, ss_last_active := now\<rparr>"

definition new_session :: "string \<Rightarrow> sess_key \<Rightarrow> string \<Rightarrow> int \<Rightarrow> session" where
  \<comment> \<open>the constructor call of \<open>get_or_create\<close>, with the defaults of the other fields\<close>
  "new_session uuid key bn mr =
     \<lparr>ss_id = uuid, ss_workspace_id = fst key, ss_channel = fst (snd key), ss_thread_key = snd (snd key),
      ss_backend_name = bn, ss_backend_thread_id = PNone, ss_round_count = 0, ss_max_rounds = mr,
      ss_last_active = 0\<rparr>"

definition key_of :: "session \<Rightarrow> sess_key" where
  "key_of s = (ss_workspace_id s, ss_channel s, ss_thread_key s)"

definition same_identity :: "session \<Rightarrow> session \<Rightarrow> bool" where
  "same_identity a b \<longleftrightarrow> ss_id a = ss_id b \<and> key_of a = key_of b \<and> ss_backend_name a = ss_backend_name b"

lemma new_session_fields [simp]:
  "ss_id (new_session u k b m) = u" "key_of (new_session u k b m) = k"
  "ss_backend_name (new_session u k b m) = b" "ss_max_rounds (new_session u k b m) = m"
  "ss_round_count (new_session u k b m) = 0" "ss_backend_thread_id (new_session u k b m) = PNone"
  by (cases k; simp add: new_session_def key_of_def)+

lemma with_turn_fields [simp]:
  "ss_id (with_turn t n s) = ss_id s" "key_of (with_turn t n s) = key_of s"
  "ss_backend_name (with_turn t n s) = ss_backend_name s" "ss_max_rounds (with_turn t n s) = ss_max_rounds s"
  "ss_round_count (with_turn t n s) = ss_round_count s + 1" "ss_backend_thread_id (with_turn t n s) = t"
  by (simp_all add: with_turn_def key_of_def)

lemma same_identity_with_turn [simp]: "same_identity (with_turn t n s) s"
  by (simp add: same_identity_def)

lemma same_identity_refl [simp]: "same_identity s s"
  by (simp add: same_identity_def)

subsection \<open>The protocol\<close>

record 's session_store_ops =
  sop_get_or_create :: "string \<Rightarrow> sess_key \<Rightarrow> string \<Rightarrow> int \<Rightarrow> 's \<Rightarrow> (exn + session) \<times> 's"
  sop_save :: "session \<Rightarrow> 's \<Rightarrow> (exn + unit) \<times> 's"
  sop_is_processed :: "string \<Rightarrow> pyv \<Rightarrow> 's \<Rightarrow> (exn + bool) \<times> 's"
  sop_mark_processed :: "string \<Rightarrow> pyv \<Rightarrow> 's \<Rightarrow> (exn + unit) \<times> 's"

record store_spec =
  sp_sessions :: "sess_key \<rightharpoonup> session"
  sp_done :: "(string \<times> string) set"

definition empty_spec :: store_spec where
  "empty_spec = \<lparr>sp_sessions = Map.empty, sp_done = {}\<rparr>"

definition known_id :: "store_spec \<Rightarrow> string \<Rightarrow> bool" where
  "known_id sp sid \<longleftrightarrow> (\<exists>key x. sp_sessions sp key = Some x \<and> ss_id x = sid)"

definition spec_wf :: "store_spec \<Rightarrow> bool" where
  "spec_wf sp \<longleftrightarrow>
     (\<forall>key x. sp_sessions sp key = Some x \<longrightarrow> key_of x = key)
     \<and> (\<forall>k1 k2 x y. sp_sessions sp k1 = Some x \<longrightarrow> sp_sessions sp k2 = Some y \<longrightarrow> ss_id x = ss_id y \<longrightarrow> k1 = k2)"

definition put_session :: "session \<Rightarrow> store_spec \<Rightarrow> store_spec" where
  "put_session x sp = sp\<lparr>sp_sessions := (sp_sessions sp)(key_of x \<mapsto> x)\<rparr>"

definition put_done :: "string \<Rightarrow> string \<Rightarrow> store_spec \<Rightarrow> store_spec" where
  "put_done sid m sp = sp\<lparr>sp_done := insert (sid, m) (sp_done sp)\<rparr>"

lemma put_session_sel [simp]:
  "sp_sessions (put_session x sp) = (sp_sessions sp)(key_of x \<mapsto> x)"
  "sp_done (put_session x sp) = sp_done sp"
  by (simp_all add: put_session_def)

lemma put_done_sel [simp]:
  "sp_sessions (put_done sid m sp) = sp_sessions sp"
  "sp_done (put_done sid m sp) = insert (sid, m) (sp_done sp)"
  by (simp_all add: put_done_def)

lemma known_id_put_done [simp]: "known_id (put_done sid m sp) = known_id sp"
  by (simp add: known_id_def fun_eq_iff)

lemma known_id_lookup: "sp_sessions sp key = Some x \<Longrightarrow> known_id sp (ss_id x)"
  unfolding known_id_def by blast

lemma spec_wf_key: "spec_wf sp \<Longrightarrow> sp_sessions sp key = Some x \<Longrightarrow> key_of x = key"
  unfolding spec_wf_def by blast

lemma spec_wf_inj:
  "spec_wf sp \<Longrightarrow> sp_sessions sp k1 = Some x \<Longrightarrow> sp_sessions sp k2 = Some y \<Longrightarrow> ss_id x = ss_id y \<Longrightarrow> k1 = k2"
  unfolding spec_wf_def by blast

lemma spec_wfI:
  assumes "\<And>key x. sp_sessions sp key = Some x \<Longrightarrow> key_of x = key"
    and "\<And>k1 k2 x y. sp_sessions sp k1 = Some x \<Longrightarrow> sp_sessions sp k2 = Some y \<Longrightarrow> ss_id x = ss_id y \<Longrightarrow> k1 = k2"
  shows "spec_wf sp"
  unfolding spec_wf_def using assms by blast

lemma spec_wf_put:
  assumes wf: "spec_wf sp"
    and new: "\<And>k y. sp_sessions sp k = Some y \<Longrightarrow> ss_id y = ss_id x \<Longrightarrow> k = key_of x"
  shows "spec_wf (put_session x sp)"
proof (rule spec_wfI)
  fix key z
  assume "sp_sessions (put_session x sp) key = Some z"
  then show "key_of z = key"
    using spec_wf_key [OF wf, of key z] by (simp split: if_splits)
next
  fix k1 k2 y z
  assume "sp_sessions (put_session x sp) k1 = Some y" "sp_sessions (put_session x sp) k2 = Some z"
    and "ss_id y = ss_id z"
  then show "k1 = k2"
    using spec_wf_inj [OF wf, of k1 y k2 z] new [of k1 y] new [of k2 z] by (simp split: if_splits)
qed

lemma spec_wf_put_same:
  assumes "spec_wf sp" and "sp_sessions sp (key_of x) = Some y" and "ss_id x = ss_id y"
  shows "spec_wf (put_session x sp)"
  using assms by (intro spec_wf_put) (auto intro: spec_wf_inj)

lemma spec_wf_put_new:
  assumes "spec_wf sp" and "\<not> known_id sp (ss_id x)"
  shows "spec_wf (put_session x sp)"
  using assms by (intro spec_wf_put) (metis known_id_lookup)+

lemma known_id_put_iff:
  assumes "spec_wf sp" and "sp_sessions sp (key_of x) = None \<or> (\<exists>y. sp_sessions sp (key_of x) = Some y \<and> ss_id y = ss_id x)"
  shows "known_id (put_session x sp) sid \<longleftrightarrow> known_id sp sid \<or> sid = ss_id x"
proof
  assume "known_id (put_session x sp) sid"
  then obtain key z where "sp_sessions (put_session x sp) key = Some z" "ss_id z = sid"
    unfolding known_id_def by blast
  then show "known_id sp sid \<or> sid = ss_id x"
    using known_id_lookup [of sp key z] by (auto split: if_splits)
next
  assume "known_id sp sid \<or> sid = ss_id x"
  then consider (old) key z where "sp_sessions sp key = Some z" "ss_id z = sid" "key \<noteq> key_of x"
    | (self) "sid = ss_id x"
    using assms(2) unfolding known_id_def by force
  then show "known_id (put_session x sp) sid"
  proof cases
    case old
    then have "sp_sessions (put_session x sp) key = Some z" by simp
    with old(2) show ?thesis using known_id_lookup by blast
  next
    case self
    have "sp_sessions (put_session x sp) (key_of x) = Some x" by simp
    with self show ?thesis using known_id_lookup by blast
  qed
qed

locale session_store =
  fixes S :: "'s session_store_ops"
    and abs :: "'s \<Rightarrow> store_spec"
    and inv :: "'s \<Rightarrow> bool"
    and accepts :: "session \<Rightarrow> bool"
    and accepts_msg :: "string \<Rightarrow> string \<Rightarrow> bool"
  assumes spec_ok: "inv s \<Longrightarrow> spec_wf (abs s)"
    and get_hit: "\<lbrakk>inv s; accepts (new_session uuid key bn mr); sp_sessions (abs s) key = Some x;
           sop_get_or_create S uuid key bn mr s = (r, s')\<rbrakk>
         \<Longrightarrow> r = Inr x \<and> abs s' = abs s \<and> inv s'"
    and get_miss: "\<lbrakk>inv s; accepts (new_session uuid key bn mr); sp_sessions (abs s) key = None;
           \<not> known_id (abs s) uuid; sop_get_or_create S uuid key bn mr s = (r, s')\<rbrakk>
         \<Longrightarrow> r = Inr (new_session uuid key bn mr)
           \<and> abs s' = put_session (new_session uuid key bn mr) (abs s) \<and> inv s'"
    and save_known: "\<lbrakk>inv s; accepts x; sp_sessions (abs s) (key_of x) = Some y; same_identity x y;
           sop_save S x s = (u, s')\<rbrakk>
         \<Longrightarrow> u = Inr () \<and> abs s' = put_session x (abs s) \<and> inv s'"
    and is_processed: "\<lbrakk>inv s; accepts_msg sid m; sop_is_processed S sid (PStr m) s = (b, s')\<rbrakk>
         \<Longrightarrow> b = Inr ((sid, m) \<in> sp_done (abs s)) \<and> abs s' = abs s \<and> inv s'"
    and mark_processed: "\<lbrakk>inv s; accepts_msg sid m; known_id (abs s) sid;
           sop_mark_processed S sid (PStr m) s = (u, s')\<rbrakk>
         \<Longrightarrow> u = Inr () \<and> abs s' = put_done sid m (abs s) \<and> inv s'"

subsection \<open>Sequences of calls\<close>

text \<open>
  The calls of the protocol as data, the reply the specification gives to each, and the calls a
  client may make. A store that keeps the contract answers every legal sequence of calls as the
  specification does.
\<close>

datatype store_call =
    CGetOrCreate string sess_key string int
  | CSave session
  | CIsProcessed string string
  | CMarkProcessed string string

datatype store_reply = RSession session | RUnit | RBool bool | RRaise exn

fun reply_of :: "('a \<Rightarrow> store_reply) \<Rightarrow> exn + 'a \<Rightarrow> store_reply" where
  "reply_of f (Inl e) = RRaise e"
| "reply_of f (Inr x) = f x"

fun run_call :: "'s session_store_ops \<Rightarrow> store_call \<Rightarrow> 's \<Rightarrow> store_reply \<times> 's" where
  "run_call S (CGetOrCreate uuid key bn mr) s = map_prod (reply_of RSession) id (sop_get_or_create S uuid key bn mr s)"
| "run_call S (CSave x) s = map_prod (reply_of (\<lambda>_. RUnit)) id (sop_save S x s)"
| "run_call S (CIsProcessed sid m) s = map_prod (reply_of RBool) id (sop_is_processed S sid (PStr m) s)"
| "run_call S (CMarkProcessed sid m) s = map_prod (reply_of (\<lambda>_. RUnit)) id (sop_mark_processed S sid (PStr m) s)"

fun run_calls :: "'s session_store_ops \<Rightarrow> store_call list \<Rightarrow> 's \<Rightarrow> store_reply list \<times> 's" where
  "run_calls S [] s = ([], s)"
| "run_calls S (c # cs) s =
     (let (r, s1) = run_call S c s; (rs, s2) = run_calls S cs s1 in (r # rs, s2))"

fun spec_call :: "store_call \<Rightarrow> store_spec \<Rightarrow> store_reply \<times> store_spec" where
  "spec_call (CGetOrCreate uuid key bn mr) sp =
     (case sp_sessions sp key of
        Some x \<Rightarrow> (RSession x, sp)
      | None \<Rightarrow> (RSession (new_session uuid key bn mr), put_session (new_session uuid key bn mr) sp))"
| "spec_call (CSave x) sp = (RUnit, put_session x sp)"
| "spec_call (CIsProcessed sid m) sp = (RBool ((sid, m) \<in> sp_done sp), sp)"
| "spec_call (CMarkProcessed sid m) sp = (RUnit, put_done sid m sp)"

fun spec_calls :: "store_call list \<Rightarrow> store_spec \<Rightarrow> store_reply list \<times> store_spec" where
  "spec_calls [] sp = ([], sp)"
| "spec_calls (c # cs) sp =
     (let (r, sp1) = spec_call c sp; (rs, sp2) = spec_calls cs sp1 in (r # rs, sp2))"

fun legal_call :: "store_spec \<Rightarrow> store_call \<Rightarrow> bool" where
  "legal_call sp (CGetOrCreate uuid key bn mr) = (sp_sessions sp key \<noteq> None \<or> \<not> known_id sp uuid)"
| "legal_call sp (CSave x) = (\<exists>y. sp_sessions sp (key_of x) = Some y \<and> same_identity x y)"
| "legal_call sp (CIsProcessed sid m) = True"
| "legal_call sp (CMarkProcessed sid m) = known_id sp sid"

fun legal_calls :: "store_spec \<Rightarrow> store_call list \<Rightarrow> bool" where
  "legal_calls sp [] = True"
| "legal_calls sp (c # cs) = (legal_call sp c \<and> legal_calls (snd (spec_call c sp)) cs)"

fun admits :: "(session \<Rightarrow> bool) \<Rightarrow> (string \<Rightarrow> string \<Rightarrow> bool) \<Rightarrow> store_call \<Rightarrow> bool" where
  "admits acc accm (CGetOrCreate uuid key bn mr) = acc (new_session uuid key bn mr)"
| "admits acc accm (CSave x) = acc x"
| "admits acc accm (CIsProcessed sid m) = accm sid m"
| "admits acc accm (CMarkProcessed sid m) = accm sid m"

context session_store
begin

lemma call_refines:
  assumes "inv s" and "legal_call (abs s) c" and "admits accepts accepts_msg c"
    and "run_call S c s = (r, s')"
  shows "spec_call c (abs s) = (r, abs s') \<and> inv s'"
proof (cases c)
  case (CGetOrCreate uuid key bn mr)
  obtain r0 where g: "sop_get_or_create S uuid key bn mr s = (r0, s')" and r: "r = reply_of RSession r0"
    using assms(4) CGetOrCreate by (auto simp: map_prod_def split: prod.splits)
  show ?thesis
  proof (cases "sp_sessions (abs s) key")
    case None
    with assms CGetOrCreate g r get_miss [OF assms(1) _ None _ g] show ?thesis by auto
  next
    case (Some x)
    with assms CGetOrCreate g r get_hit [OF assms(1) _ Some g] show ?thesis by auto
  qed
next
  case (CSave x)
  then obtain r0 where "sop_save S x s = (r0, s')" "r = reply_of (\<lambda>_. RUnit) r0"
    using assms(4) by (auto simp: map_prod_def split: prod.splits)
  with assms CSave save_known [OF assms(1)] show ?thesis by fastforce
next
  case (CIsProcessed sid m)
  then obtain r0 where "sop_is_processed S sid (PStr m) s = (r0, s')" "r = reply_of RBool r0"
    using assms(4) by (auto simp: map_prod_def split: prod.splits)
  with assms CIsProcessed is_processed [OF assms(1)] show ?thesis by fastforce
next
  case (CMarkProcessed sid m)
  then obtain r0 where "sop_mark_processed S sid (PStr m) s = (r0, s')" "r = reply_of (\<lambda>_. RUnit) r0"
    using assms(4) by (auto simp: map_prod_def split: prod.splits)
  with assms CMarkProcessed mark_processed [OF assms(1)] show ?thesis by fastforce
qed

lemma calls_refine:
  "\<lbrakk>inv s; legal_calls (abs s) cs; \<forall>c \<in> set cs. admits accepts accepts_msg c\<rbrakk>
   \<Longrightarrow> spec_calls cs (abs s) = map_prod id abs (run_calls S cs s) \<and> inv (snd (run_calls S cs s))"
proof (induction cs arbitrary: s)
  case Nil
  then show ?case by simp
next
  case (Cons c cs)
  obtain r s1 where c: "run_call S c s = (r, s1)" by fastforce
  with Cons.prems call_refines [of s c r s1]
  have sp: "spec_call c (abs s) = (r, abs s1)" and i: "inv s1" by auto
  from Cons.prems sp have "legal_calls (abs s1) cs" by simp
  from Cons.IH [OF i this] Cons.prems c sp show ?case
    by (auto simp: Let_def map_prod_def split: prod.splits)
qed

lemma replies_refine:
  assumes "inv s" and "legal_calls (abs s) cs" and "\<forall>c \<in> set cs. admits accepts accepts_msg c"
  shows "fst (run_calls S cs s) = fst (spec_calls cs (abs s))"
  using calls_refine [OF assms] by simp

end

end
