(* ===== verification/Memory_Store.thy ===== *)
theory Memory_Store
  imports Sessions
begin

section \<open>MemorySessionStore\<close>

text \<open>
  \<open>engine/persistence/memory_store.py\<close>: two dictionaries and a set of processed pairs. The key of
  a Python set must be hashable, so a list or a dictionary as message id raises; equal numbers and
  booleans are one key.
\<close>

datatype hkey = HNone | HStr string | HNum rat | HFloat pyfloat

fun hash_key :: "pyv \<Rightarrow> exn + hkey" where
  "hash_key PNone = Inr HNone"
| "hash_key (PStr s) = Inr (HStr s)"
| "hash_key (PBool b) = Inr (HNum (if b then 1 else 0))"
| "hash_key (PInt i) = Inr (HNum (rat_of_int i))"
| "hash_key (PFloat f) = Inr (case f of Fin q \<Rightarrow> HNum q | _ \<Rightarrow> HFloat f)"
| "hash_key v = Inl (TypeError (''unhashable type: '' @ repr_str (type_name v)))"

record memory_store =
  ms_by_id :: "string \<rightharpoonup> session"
  ms_key_to_id :: "sess_key \<rightharpoonup> string"
  ms_processed :: "(string \<times> hkey) set"

definition mem_init :: memory_store where
  "mem_init = \<lparr>ms_by_id = Map.empty, ms_key_to_id = Map.empty, ms_processed = {}\<rparr>"

definition mem_get_or_create ::
  "string \<Rightarrow> sess_key \<Rightarrow> string \<Rightarrow> int \<Rightarrow> memory_store \<Rightarrow> (exn + session) \<times> memory_store" where
  "mem_get_or_create uuid key bn mr s =
     (case ms_key_to_id s key of
        Some sid \<Rightarrow> (case ms_by_id s sid of
                        Some x \<Rightarrow> (Inr x, s)
                      | None \<Rightarrow> (Inl (KeyError sid), s))
      | None \<Rightarrow>
          (let x = new_session uuid key bn mr in
           (Inr x, s\<lparr>ms_by_id := (ms_by_id s)(ss_id x \<mapsto> x),
                     ms_key_to_id := (ms_key_to_id s)(key \<mapsto> ss_id x)\<rparr>)))"

definition mem_save :: "session \<Rightarrow> memory_store \<Rightarrow> (exn + unit) \<times> memory_store" where
  "mem_save x s =
     (Inr (), s\<lparr>ms_by_id := (ms_by_id s)(ss_id x \<mapsto> x),
                ms_key_to_id := (ms_key_to_id s)(key_of x \<mapsto> ss_id x)\<rparr>)"

definition mem_is_processed :: "string \<Rightarrow> pyv \<Rightarrow> memory_store \<Rightarrow> (exn + bool) \<times> memory_store" where
  "mem_is_processed sid m s =
     (case hash_key m of
        Inl e \<Rightarrow> (Inl e, s)
      | Inr h \<Rightarrow> (Inr ((sid, h) \<in> ms_processed s), s))"

definition mem_mark_processed :: "string \<Rightarrow> pyv \<Rightarrow> memory_store \<Rightarrow> (exn + unit) \<times> memory_store" where
  "mem_mark_processed sid m s =
     (case hash_key m of
        Inl e \<Rightarrow> (Inl e, s)
      | Inr h \<Rightarrow> (Inr (), s\<lparr>ms_processed := insert (sid, h) (ms_processed s)\<rparr>))"

definition memory_store_ops :: "memory_store session_store_ops" where
  "memory_store_ops =
     \<lparr>sop_get_or_create = mem_get_or_create, sop_save = mem_save,
      sop_is_processed = mem_is_processed, sop_mark_processed = mem_mark_processed\<rparr>"

lemma memory_store_ops_sel [simp]:
  "sop_get_or_create memory_store_ops = mem_get_or_create" "sop_save memory_store_ops = mem_save"
  "sop_is_processed memory_store_ops = mem_is_processed"
  "sop_mark_processed memory_store_ops = mem_mark_processed"
  by (simp_all add: memory_store_ops_def)

subsection \<open>The contract\<close>

definition mem_abs :: "memory_store \<Rightarrow> store_spec" where
  "mem_abs s =
     \<lparr>sp_sessions = (\<lambda>key. case ms_key_to_id s key of None \<Rightarrow> None | Some sid \<Rightarrow> ms_by_id s sid),
      sp_done = {(sid, m). (sid, HStr m) \<in> ms_processed s}\<rparr>"

definition mem_inv :: "memory_store \<Rightarrow> bool" where
  \<comment> \<open>the two dictionaries list the same sessions\<close>
  "mem_inv s \<longleftrightarrow>
     (\<forall>key sid. ms_key_to_id s key = Some sid \<longrightarrow>
        (\<exists>x. ms_by_id s sid = Some x \<and> key_of x = key \<and> ss_id x = sid))
     \<and> (\<forall>sid x. ms_by_id s sid = Some x \<longrightarrow> ss_id x = sid \<and> ms_key_to_id s (key_of x) = Some sid)"

lemma mem_inv_keyD:
  "mem_inv s \<Longrightarrow> ms_key_to_id s key = Some sid \<Longrightarrow>
     \<exists>x. ms_by_id s sid = Some x \<and> key_of x = key \<and> ss_id x = sid"
  unfolding mem_inv_def by blast

lemma mem_inv_idD:
  "mem_inv s \<Longrightarrow> ms_by_id s sid = Some x \<Longrightarrow> ss_id x = sid \<and> ms_key_to_id s (key_of x) = Some sid"
  unfolding mem_inv_def by blast

lemma mem_invI:
  assumes "\<And>key sid. ms_key_to_id s key = Some sid \<Longrightarrow>
        \<exists>x. ms_by_id s sid = Some x \<and> key_of x = key \<and> ss_id x = sid"
    and "\<And>sid x. ms_by_id s sid = Some x \<Longrightarrow> ss_id x = sid \<and> ms_key_to_id s (key_of x) = Some sid"
  shows "mem_inv s"
  unfolding mem_inv_def using assms by blast

lemma mem_abs_lookup:
  "mem_inv s \<Longrightarrow> sp_sessions (mem_abs s) key = Some x \<longleftrightarrow> ms_key_to_id s key = Some (ss_id x) \<and> ms_by_id s (ss_id x) = Some x"
  using mem_inv_keyD [of s key] by (auto simp: mem_abs_def split: option.splits)

lemma mem_abs_None: "mem_inv s \<Longrightarrow> sp_sessions (mem_abs s) key = None \<longleftrightarrow> ms_key_to_id s key = None"
  using mem_inv_keyD [of s key] by (auto simp: mem_abs_def split: option.splits)

lemma mem_known_id: "mem_inv s \<Longrightarrow> known_id (mem_abs s) sid \<longleftrightarrow> ms_by_id s sid \<noteq> None"
proof
  assume inv: "mem_inv s" and "known_id (mem_abs s) sid"
  then obtain key x where "sp_sessions (mem_abs s) key = Some x" "ss_id x = sid"
    unfolding known_id_def by blast
  with inv show "ms_by_id s sid \<noteq> None" by (simp add: mem_abs_lookup)
next
  assume inv: "mem_inv s" and "ms_by_id s sid \<noteq> None"
  then obtain x where x: "ms_by_id s sid = Some x" by blast
  with inv have "sp_sessions (mem_abs s) (key_of x) = Some x"
    using mem_inv_idD [OF inv x] by (simp add: mem_abs_lookup)
  with x mem_inv_idD [OF inv x] show "known_id (mem_abs s) sid"
    using known_id_lookup by blast
qed

lemma mem_spec_wf: "mem_inv s \<Longrightarrow> spec_wf (mem_abs s)"
proof (rule spec_wfI)
  fix key x
  assume "mem_inv s" "sp_sessions (mem_abs s) key = Some x"
  then show "key_of x = key"
    using mem_inv_keyD [of s key "ss_id x"] by (auto simp: mem_abs_lookup)
next
  fix k1 k2 x y
  assume "mem_inv s" "sp_sessions (mem_abs s) k1 = Some x" "sp_sessions (mem_abs s) k2 = Some y"
    and "ss_id x = ss_id y"
  then show "k1 = k2"
    using mem_inv_keyD [of s k1 "ss_id x"] mem_inv_keyD [of s k2 "ss_id y"]
    by (auto simp: mem_abs_lookup)
qed

text \<open>Writing a session under its identifier and its key, where both are new or both are its own.\<close>

lemma mem_write:
  assumes inv: "mem_inv s"
    and own: "ms_by_id s (ss_id x) = None \<and> ms_key_to_id s (key_of x) = None
      \<or> ms_key_to_id s (key_of x) = Some (ss_id x)"
  defines "s' \<equiv> s\<lparr>ms_by_id := (ms_by_id s)(ss_id x \<mapsto> x), ms_key_to_id := (ms_key_to_id s)(key_of x \<mapsto> ss_id x)\<rparr>"
  shows "mem_inv s'" and "mem_abs s' = put_session x (mem_abs s)"
proof -
  have other: "sid \<noteq> ss_id x" if "ms_key_to_id s key = Some sid" "key \<noteq> key_of x" for key sid
    using that own mem_inv_keyD [OF inv that(1)] mem_inv_keyD [OF inv, of "key_of x"] by auto
  have other_key: "key_of y \<noteq> key_of x" if "ms_by_id s sid = Some y" "sid \<noteq> ss_id x" for sid y
    using that own mem_inv_idD [OF inv that(1)] by auto
  show "mem_inv s'"
  proof (rule mem_invI)
    fix key sid
    assume "ms_key_to_id s' key = Some sid"
    then show "\<exists>y. ms_by_id s' sid = Some y \<and> key_of y = key \<and> ss_id y = sid"
      using mem_inv_keyD [OF inv, of key sid] other [of key sid] by (auto simp: s'_def split: if_splits)
  next
    fix sid y
    assume "ms_by_id s' sid = Some y"
    then show "ss_id y = sid \<and> ms_key_to_id s' (key_of y) = Some sid"
      using mem_inv_idD [OF inv, of sid y] other_key [of sid y] by (auto simp: s'_def split: if_splits)
  qed
  have "sp_sessions (mem_abs s') key = sp_sessions (put_session x (mem_abs s)) key" for key
    using other [of key] by (auto simp: s'_def mem_abs_def split: option.splits)
  then show "mem_abs s' = put_session x (mem_abs s)"
    by (intro store_spec.equality) (auto simp: s'_def mem_abs_def)
qed

lemma mem_mark:
  "mem_abs (s\<lparr>ms_processed := insert (sid, HStr m) (ms_processed s)\<rparr>) = put_done sid m (mem_abs s)"
  "mem_inv (s\<lparr>ms_processed := p\<rparr>) = mem_inv s"
proof -
  show "mem_abs (s\<lparr>ms_processed := insert (sid, HStr m) (ms_processed s)\<rparr>) = put_done sid m (mem_abs s)"
    by (intro store_spec.equality) (auto simp: mem_abs_def put_done_def split: option.splits)
  show "mem_inv (s\<lparr>ms_processed := p\<rparr>) = mem_inv s" by (simp add: mem_inv_def)
qed

interpretation mem: session_store memory_store_ops mem_abs mem_inv "\<lambda>_. True" "\<lambda>_ _. True"
proof unfold_locales
  show "spec_wf (mem_abs s)" if "mem_inv s" for s
    using that by (rule mem_spec_wf)
next
  fix s uuid key bn mr x r s'
  assume "mem_inv s" "sp_sessions (mem_abs s) key = Some x"
    and "sop_get_or_create memory_store_ops uuid key bn mr s = (r, s')"
  then show "r = Inr x \<and> mem_abs s' = mem_abs s \<and> mem_inv s'"
    by (auto simp: mem_abs_lookup mem_get_or_create_def)
next
  fix s uuid key bn mr r s'
  assume inv: "mem_inv s" and n: "sp_sessions (mem_abs s) key = None" "\<not> known_id (mem_abs s) uuid"
    and g: "sop_get_or_create memory_store_ops uuid key bn mr s = (r, s')"
  then show "r = Inr (new_session uuid key bn mr)
      \<and> mem_abs s' = put_session (new_session uuid key bn mr) (mem_abs s) \<and> mem_inv s'"
    using mem_write [OF inv, of "new_session uuid key bn mr"]
    by (auto simp: mem_abs_None mem_known_id mem_get_or_create_def Let_def)
next
  fix s x y u s'
  assume inv: "mem_inv s" and k: "sp_sessions (mem_abs s) (key_of x) = Some y" "same_identity x y"
    and g: "sop_save memory_store_ops x s = (u, s')"
  then show "u = Inr () \<and> mem_abs s' = put_session x (mem_abs s) \<and> mem_inv s'"
    using mem_write [OF inv, of x] by (auto simp: mem_abs_lookup same_identity_def mem_save_def)
next
  fix s sid m b s'
  assume "mem_inv s" "sop_is_processed memory_store_ops sid (PStr m) s = (b, s')"
  then show "b = Inr ((sid, m) \<in> sp_done (mem_abs s)) \<and> mem_abs s' = mem_abs s \<and> mem_inv s'"
    by (auto simp: mem_is_processed_def mem_abs_def)
next
  fix s sid m u s'
  assume "mem_inv s" "sop_mark_processed memory_store_ops sid (PStr m) s = (u, s')"
  then show "u = Inr () \<and> mem_abs s' = put_done sid m (mem_abs s) \<and> mem_inv s'"
    by (auto simp: mem_mark_processed_def mem_mark)
qed

lemma mem_inv_init: "mem_inv mem_init"
  by (simp add: mem_inv_def mem_init_def)

lemma mem_abs_init: "mem_abs mem_init = empty_spec"
  by (simp add: mem_abs_def mem_init_def empty_spec_def fun_eq_iff)

end
