(* ===== verification/Sqlite_Store.thy ===== *)
theory Sqlite_Store
  imports Sessions
begin

section \<open>SqliteSessionStore\<close>

text \<open>
  \<open>engine/persistence/sqlite_store.py\<close>. The database holds the rows of the two tables of
  \<open>_SCHEMA\<close> in insertion order; each statement the store executes is one function on it, with
  the constraints of the schema and the parameter binding of the \<open>sqlite3\<close> module: an integer
  must fit 64 bits, a list or a dictionary cannot be bound, and a number stored in a TEXT column
  becomes its text (\<open>fr\<close> is that text for a float).
\<close>

record session_row =
  col_session_id :: string
  col_workspace_id :: string
  col_channel :: string
  col_external_thread_key :: string
  col_backend_name :: string
  col_backend_thread_id :: pyv
  col_round_count :: int
  col_max_rounds :: int
  col_last_active :: rat

definition session_to_row :: "session \<Rightarrow> session_row" where
  "session_to_row x =
     \<lparr>col_session_id = ss_id x, col_workspace_id = ss_workspace_id x, col_channel = ss_channel x,
      col_external_thread_key = ss_thread_key x, col_backend_name = ss_backend_name x,
      col_backend_thread_id = ss_backend_thread_id x, col_round_count = ss_round_count x,
      col_max_rounds = ss_max_rounds x, col_last_active = ss_last_active x\<rparr>"

definition row_to_session :: "session_row \<Rightarrow> session" where
  "row_to_session row =
     \<lparr>ss_id = col_session_id row, ss_workspace_id = col_workspace_id row, ss_channel = col_channel row,
      ss_thread_key = col_external_thread_key row, ss_backend_name = col_backend_name row,
      ss_backend_thread_id = col_backend_thread_id row, ss_round_count = col_round_count row,
      ss_max_rounds = col_max_rounds row, ss_last_active = col_last_active row\<rparr>"

definition row_key :: "session_row \<Rightarrow> sess_key" where
  "row_key row = (col_workspace_id row, col_channel row, col_external_thread_key row)"

lemma row_round_trip [simp]:
  "row_to_session (session_to_row x) = x" "session_to_row (row_to_session row) = row"
  by (simp_all add: row_to_session_def session_to_row_def)

lemma row_keys [simp]:
  "row_key (session_to_row x) = key_of x" "key_of (row_to_session row) = row_key row"
  "col_session_id (session_to_row x) = ss_id x" "ss_id (row_to_session row) = col_session_id row"
  "ss_backend_name (row_to_session row) = col_backend_name row"
  by (simp_all add: row_to_session_def session_to_row_def row_key_def key_of_def)

record sqlite_db =
  db_sessions :: "session_row list"
  db_processed :: "(string \<times> string) list"

definition sqlite_init :: sqlite_db where
  "sqlite_init = \<lparr>db_sessions = [], db_processed = []\<rparr>"

subsection \<open>Parameter binding\<close>

definition sql_int :: "int \<Rightarrow> exn + int" where
  "sql_int i = (if - (2 ^ 63) \<le> i \<and> i < 2 ^ 63 then Inr i
                else Inl (OverflowError ''Python int too large to convert to SQLite INTEGER''))"

fun sql_text :: "(pyfloat \<Rightarrow> string) \<Rightarrow> pyv \<Rightarrow> exn + pyv" where
  "sql_text fr PNone = Inr PNone"
| "sql_text fr (PStr s) = Inr (PStr s)"
| "sql_text fr (PBool b) = Inr (PStr (if b then ''1'' else ''0''))"
| "sql_text fr (PInt i) = res_bind (sql_int i) (\<lambda>j. Inr (PStr (int_str j)))"
| "sql_text fr (PFloat f) = Inr (if f = NaN then PNone else PStr (fr f))"
| "sql_text fr v = Inl (DatabaseError (''Error binding parameter: type '' @ repr_str (type_name v) @ '' is not supported''))"

subsection \<open>Statements\<close>

definition sql_select_key :: "sess_key \<Rightarrow> sqlite_db \<Rightarrow> session_row option" where
  "sql_select_key key d = List.find (\<lambda>row. row_key row = key) (db_sessions d)"

definition sql_insert_session :: "session_row \<Rightarrow> sqlite_db \<Rightarrow> (exn + unit) \<times> sqlite_db" where
  "sql_insert_session row d =
     (if col_session_id row \<in> set (List.map col_session_id (db_sessions d))
      then (Inl (IntegrityError ''UNIQUE constraint failed: session.session_id''), d)
      else if row_key row \<in> set (List.map row_key (db_sessions d))
      then (Inl (IntegrityError ''UNIQUE constraint failed: session.workspace_id, session.channel, session.external_thread_key''), d)
      else (Inr (), d\<lparr>db_sessions := db_sessions d @ [row]\<rparr>))"

definition sql_update_session :: "pyv \<Rightarrow> int \<Rightarrow> int \<Rightarrow> rat \<Rightarrow> string \<Rightarrow> sqlite_db \<Rightarrow> sqlite_db" where
  "sql_update_session tid rc mr la sid d =
     d\<lparr>db_sessions := List.map (\<lambda>row. if col_session_id row = sid
          then row\<lparr>col_backend_thread_id := tid, col_round_count := rc, col_max_rounds := mr,
                   col_last_active := la\<rparr>
          else row) (db_sessions d)\<rparr>"

subsection \<open>Operations\<close>

definition sqlite_get_or_create ::
  "string \<Rightarrow> sess_key \<Rightarrow> string \<Rightarrow> int \<Rightarrow> sqlite_db \<Rightarrow> (exn + session) \<times> sqlite_db" where
  "sqlite_get_or_create uuid key bn mr d =
     (case sql_select_key key d of
        Some row \<Rightarrow> (Inr (row_to_session row), d)
      | None \<Rightarrow>
          (let x = new_session uuid key bn mr in
           case sql_int (ss_max_rounds x) of
             Inl e \<Rightarrow> (Inl e, d)
           | Inr _ \<Rightarrow>
               (case sql_insert_session (session_to_row x) d of
                  (Inl e, d1) \<Rightarrow> (Inl e, d1)
                | (Inr _, d1) \<Rightarrow> (Inr x, d1))))"

definition sqlite_save :: "(pyfloat \<Rightarrow> string) \<Rightarrow> session \<Rightarrow> sqlite_db \<Rightarrow> (exn + unit) \<times> sqlite_db" where
  "sqlite_save fr x d =
     (case sql_text fr (ss_backend_thread_id x) of
        Inl e \<Rightarrow> (Inl e, d)
      | Inr tid \<Rightarrow>
          (case sql_int (ss_round_count x) of
             Inl e \<Rightarrow> (Inl e, d)
           | Inr rc \<Rightarrow>
               (case sql_int (ss_max_rounds x) of
                  Inl e \<Rightarrow> (Inl e, d)
                | Inr mr \<Rightarrow> (Inr (), sql_update_session tid rc mr (ss_last_active x) (ss_id x) d))))"

definition sqlite_is_processed ::
  "(pyfloat \<Rightarrow> string) \<Rightarrow> string \<Rightarrow> pyv \<Rightarrow> sqlite_db \<Rightarrow> (exn + bool) \<times> sqlite_db" where
  "sqlite_is_processed fr sid m d =
     (case sql_text fr m of
        Inl e \<Rightarrow> (Inl e, d)
      | Inr v \<Rightarrow> (Inr (case v of PStr t \<Rightarrow> (sid, t) \<in> set (db_processed d) | _ \<Rightarrow> False), d))"

definition sqlite_mark_processed ::
  "(pyfloat \<Rightarrow> string) \<Rightarrow> string \<Rightarrow> pyv \<Rightarrow> sqlite_db \<Rightarrow> (exn + unit) \<times> sqlite_db" where
  \<comment> \<open>INSERT OR IGNORE: a duplicate, or NULL in a NOT NULL column, inserts nothing\<close>
  "sqlite_mark_processed fr sid m d =
     (case sql_text fr m of
        Inl e \<Rightarrow> (Inl e, d)
      | Inr v \<Rightarrow>
          (Inr (), case v of
             PStr t \<Rightarrow> if (sid, t) \<in> set (db_processed d) then d
                       else d\<lparr>db_processed := db_processed d @ [(sid, t)]\<rparr>
           | _ \<Rightarrow> d))"

definition sqlite_store_ops :: "(pyfloat \<Rightarrow> string) \<Rightarrow> sqlite_db session_store_ops" where
  "sqlite_store_ops fr =
     \<lparr>sop_get_or_create = sqlite_get_or_create, sop_save = sqlite_save fr,
      sop_is_processed = sqlite_is_processed fr, sop_mark_processed = sqlite_mark_processed fr\<rparr>"

lemma sqlite_store_ops_sel [simp]:
  "sop_get_or_create (sqlite_store_ops fr) = sqlite_get_or_create"
  "sop_save (sqlite_store_ops fr) = sqlite_save fr"
  "sop_is_processed (sqlite_store_ops fr) = sqlite_is_processed fr"
  "sop_mark_processed (sqlite_store_ops fr) = sqlite_mark_processed fr"
  by (simp_all add: sqlite_store_ops_def)

subsection \<open>The contract\<close>

definition sqlite_abs :: "sqlite_db \<Rightarrow> store_spec" where
  "sqlite_abs d =
     \<lparr>sp_sessions = (\<lambda>key. map_option row_to_session (sql_select_key key d)),
      sp_done = set (db_processed d)\<rparr>"

definition sqlite_inv :: "sqlite_db \<Rightarrow> bool" where
  \<comment> \<open>the primary key and the unique constraint\<close>
  "sqlite_inv d \<longleftrightarrow> distinct (List.map col_session_id (db_sessions d)) \<and> distinct (List.map row_key (db_sessions d))"

definition sqlite_accepts :: "session \<Rightarrow> bool" where
  "sqlite_accepts x \<longleftrightarrow> is_opt_str (ss_backend_thread_id x)
     \<and> - (2 ^ 63) \<le> ss_round_count x \<and> ss_round_count x < 2 ^ 63
     \<and> - (2 ^ 63) \<le> ss_max_rounds x \<and> ss_max_rounds x < 2 ^ 63"

lemma sql_text_opt_str: "is_opt_str v \<Longrightarrow> sql_text fr v = Inr v"
  by (cases v) auto

lemma find_key_iff:
  assumes "distinct (List.map row_key rows)"
  shows "List.find (\<lambda>row. row_key row = key) rows = Some row \<longleftrightarrow> row \<in> set rows \<and> row_key row = key"
proof
  assume "List.find (\<lambda>row. row_key row = key) rows = Some row"
  then show "row \<in> set rows \<and> row_key row = key"
    by (auto simp: find_Some_iff)
next
  assume r: "row \<in> set rows \<and> row_key row = key"
  then obtain row' where f: "List.find (\<lambda>row. row_key row = key) rows = Some row'"
    by (cases "List.find (\<lambda>row. row_key row = key) rows") (auto simp: find_None_iff)
  then have "row' \<in> set rows" "row_key row' = key"
    by (auto simp: find_Some_iff)
  with r assms have "row' = row"
    by (auto simp: distinct_map dest: inj_onD)
  with f show "List.find (\<lambda>row. row_key row = key) rows = Some row" by simp
qed

lemma sqlite_lookup:
  "sqlite_inv d \<Longrightarrow> sp_sessions (sqlite_abs d) key = Some x \<longleftrightarrow>
     session_to_row x \<in> set (db_sessions d) \<and> key_of x = key"
proof -
  assume inv: "sqlite_inv d"
  have "sp_sessions (sqlite_abs d) key = Some x \<longleftrightarrow>
      (\<exists>row. sql_select_key key d = Some row \<and> row_to_session row = x)"
    by (auto simp: sqlite_abs_def)
  also have "\<dots> \<longleftrightarrow> sql_select_key key d = Some (session_to_row x)"
    by auto
  also have "\<dots> \<longleftrightarrow> session_to_row x \<in> set (db_sessions d) \<and> key_of x = key"
    using inv by (simp add: sql_select_key_def sqlite_inv_def find_key_iff)
  finally show ?thesis .
qed

lemma sqlite_lookup_None:
  "sp_sessions (sqlite_abs d) key = None \<longleftrightarrow> key \<notin> set (List.map row_key (db_sessions d))"
  by (auto simp: sqlite_abs_def sql_select_key_def find_None_iff)

lemma sqlite_known_id:
  assumes "sqlite_inv d"
  shows "known_id (sqlite_abs d) sid \<longleftrightarrow> sid \<in> set (List.map col_session_id (db_sessions d))"
proof
  assume "known_id (sqlite_abs d) sid"
  then obtain key x where "sp_sessions (sqlite_abs d) key = Some x" "ss_id x = sid"
    unfolding known_id_def by blast
  with assms show "sid \<in> set (List.map col_session_id (db_sessions d))"
    by (force simp: sqlite_lookup)
next
  assume "sid \<in> set (List.map col_session_id (db_sessions d))"
  then obtain row where r: "row \<in> set (db_sessions d)" "col_session_id row = sid" by auto
  with assms have "sp_sessions (sqlite_abs d) (row_key row) = Some (row_to_session row)"
    by (simp add: sqlite_lookup)
  from known_id_lookup [OF this] r show "known_id (sqlite_abs d) sid" by simp
qed

lemma sqlite_row_inj:
  assumes "sqlite_inv d" and "r1 \<in> set (db_sessions d)" and "r2 \<in> set (db_sessions d)"
  shows "col_session_id r1 = col_session_id r2 \<Longrightarrow> r1 = r2" and "row_key r1 = row_key r2 \<Longrightarrow> r1 = r2"
  using assms by (auto simp: sqlite_inv_def distinct_map inj_on_def)

lemma sqlite_spec_wf: "sqlite_inv d \<Longrightarrow> spec_wf (sqlite_abs d)"
proof (rule spec_wfI)
  fix key x
  assume "sqlite_inv d" "sp_sessions (sqlite_abs d) key = Some x"
  then show "key_of x = key" by (simp add: sqlite_lookup)
next
  fix k1 k2 x y
  assume d: "sqlite_inv d"
    and s: "sp_sessions (sqlite_abs d) k1 = Some x" "sp_sessions (sqlite_abs d) k2 = Some y"
    and ids: "ss_id x = ss_id y"
  have "session_to_row x = session_to_row y"
    using s ids by (intro sqlite_row_inj(1) [OF d]) (simp_all add: sqlite_lookup [OF d])
  then have "x = y" by (metis row_round_trip(1))
  with s show "k1 = k2" by (simp add: sqlite_lookup [OF d])
qed

lemma spec_sessions_eqI:
  assumes "\<And>key x. sp_sessions a key = Some x \<longleftrightarrow> sp_sessions b key = Some x" and "sp_done a = sp_done b"
  shows "a = (b :: store_spec)"
proof (intro store_spec.equality)
  show "sp_sessions a = sp_sessions b"
  proof
    fix key
    show "sp_sessions a key = sp_sessions b key"
      using assms(1) by (metis not_None_eq)
  qed
qed (use assms(2) in auto)

lemma sqlite_insert:
  assumes inv: "sqlite_inv d" and "key_of x \<notin> set (List.map row_key (db_sessions d))"
    and "ss_id x \<notin> set (List.map col_session_id (db_sessions d))"
  defines "d' \<equiv> d\<lparr>db_sessions := db_sessions d @ [session_to_row x]\<rparr>"
  shows "sqlite_inv d'" and "sqlite_abs d' = put_session x (sqlite_abs d)"
proof -
  have rows: "db_sessions d' = db_sessions d @ [session_to_row x]" by (simp add: d'_def)
  show inv': "sqlite_inv d'"
    using assms by (auto simp: sqlite_inv_def)
  show "sqlite_abs d' = put_session x (sqlite_abs d)"
  proof (rule spec_sessions_eqI)
    fix key y
    have eq: "session_to_row y = session_to_row x \<longleftrightarrow> y = x" by (metis row_round_trip(1))
    have "key_of x \<noteq> key_of y" if "session_to_row y \<in> set (db_sessions d)"
      using that assms(2) by (metis image_eqI list.set_map row_keys(1))
    then show "sp_sessions (sqlite_abs d') key = Some y \<longleftrightarrow> sp_sessions (put_session x (sqlite_abs d)) key = Some y"
      using assms(2) eq
      by (auto simp: sqlite_lookup [OF inv'] sqlite_lookup [OF inv] rows)
  qed (simp add: sqlite_abs_def d'_def)
qed

lemma sqlite_update:
  assumes inv: "sqlite_inv d" and row: "session_to_row y \<in> set (db_sessions d)"
    and same: "same_identity x y"
  defines "d' \<equiv> sql_update_session (ss_backend_thread_id x) (ss_round_count x) (ss_max_rounds x)
                  (ss_last_active x) (ss_id x) d"
  shows "sqlite_inv d'" and "sqlite_abs d' = put_session x (sqlite_abs d)"
proof -
  define f :: "session_row \<Rightarrow> session_row" where "f = (\<lambda>row. if col_session_id row = ss_id x
          then row\<lparr>col_backend_thread_id := ss_backend_thread_id x, col_round_count := ss_round_count x,
                   col_max_rounds := ss_max_rounds x, col_last_active := ss_last_active x\<rparr>
          else row)"
  have rows: "db_sessions d' = List.map f (db_sessions d)"
    by (simp add: d'_def sql_update_session_def f_def)
  have ids: "List.map col_session_id (db_sessions d') = List.map col_session_id (db_sessions d)"
    and keys: "List.map row_key (db_sessions d') = List.map row_key (db_sessions d)"
    by (simp_all add: rows row_key_def f_def)
  show inv': "sqlite_inv d'"
    using inv by (simp only: sqlite_inv_def ids keys)
  have own: "f (session_to_row y) = session_to_row x"
    using same by (simp add: same_identity_def session_to_row_def key_of_def f_def)
  have other: "f r = r" if "col_session_id r \<noteq> ss_id x" for r
    using that by (simp add: f_def)
  have only: "r = session_to_row y" if "r \<in> set (db_sessions d)" "col_session_id r = ss_id x" for r
    using that row same by (intro sqlite_row_inj(1) [OF inv]) (simp_all add: same_identity_def)
  have mem: "r \<in> set (db_sessions d') \<longleftrightarrow>
      r = session_to_row x \<or> (r \<in> set (db_sessions d) \<and> col_session_id r \<noteq> ss_id x)" for r
  proof
    assume "r \<in> set (db_sessions d')"
    then obtain r0 where r0: "r0 \<in> set (db_sessions d)" "r = f r0" unfolding rows by auto
    show "r = session_to_row x \<or> (r \<in> set (db_sessions d) \<and> col_session_id r \<noteq> ss_id x)"
    proof (cases "col_session_id r0 = ss_id x")
      case True
      then have "r0 = session_to_row y" by (rule only [OF r0(1)])
      with own r0(2) show ?thesis by simp
    next
      case False
      with r0 show ?thesis by (simp add: other)
    qed
  next
    assume "r = session_to_row x \<or> (r \<in> set (db_sessions d) \<and> col_session_id r \<noteq> ss_id x)"
    then show "r \<in> set (db_sessions d')"
    proof
      assume "r = session_to_row x"
      with own row show ?thesis unfolding rows by (metis image_eqI list.set_map)
    next
      assume "r \<in> set (db_sessions d) \<and> col_session_id r \<noteq> ss_id x"
      then show ?thesis unfolding rows using other [of r] by (auto intro!: image_eqI [of r f r])
    qed
  qed
  show "sqlite_abs d' = put_session x (sqlite_abs d)"
  proof (rule spec_sessions_eqI)
    fix key z
    have xy: "key_of x = key_of y" "ss_id x = ss_id y" using same by (simp_all add: same_identity_def)
    have eq: "session_to_row z = session_to_row x \<longleftrightarrow> z = x" by (metis row_round_trip(1))
    have "key_of z = key_of x \<longleftrightarrow> ss_id z = ss_id x" if z: "session_to_row z \<in> set (db_sessions d)"
    proof
      assume "key_of z = key_of x"
      with z row xy have "session_to_row z = session_to_row y"
        by (intro sqlite_row_inj(2) [OF inv]) simp_all
      with xy show "ss_id z = ss_id x" by (metis row_keys(3))
    next
      assume "ss_id z = ss_id x"
      then have "session_to_row z = session_to_row y" using only [OF z] by simp
      with xy show "key_of z = key_of x" by (metis row_keys(1))
    qed
    then show "sp_sessions (sqlite_abs d') key = Some z \<longleftrightarrow> sp_sessions (put_session x (sqlite_abs d)) key = Some z"
      using eq by (auto simp: sqlite_lookup [OF inv'] sqlite_lookup [OF inv] mem)
  qed (simp add: sqlite_abs_def d'_def sql_update_session_def)
qed

lemma sqlite_mark:
  "sqlite_abs (d\<lparr>db_processed := db_processed d @ [(sid, m)]\<rparr>) = put_done sid m (sqlite_abs d)"
  "(sid, m) \<in> set (db_processed d) \<Longrightarrow> put_done sid m (sqlite_abs d) = sqlite_abs d"
  "sqlite_inv (d\<lparr>db_processed := p\<rparr>) = sqlite_inv d"
  by (auto simp: sqlite_abs_def put_done_def sql_select_key_def sqlite_inv_def insert_absorb)

interpretation sqlite: session_store "sqlite_store_ops fr" sqlite_abs sqlite_inv sqlite_accepts "\<lambda>_ _. True"
proof unfold_locales
  show "spec_wf (sqlite_abs s)" if "sqlite_inv s" for s
    using that by (rule sqlite_spec_wf)
next
  fix s uuid key bn mr x r s'
  assume "sp_sessions (sqlite_abs s) key = Some x" "sqlite_inv s"
    and "sop_get_or_create (sqlite_store_ops fr) uuid key bn mr s = (r, s')"
  then show "r = Inr x \<and> sqlite_abs s' = sqlite_abs s \<and> sqlite_inv s'"
    by (auto simp: sqlite_get_or_create_def sqlite_abs_def)
next
  fix s uuid key bn mr r s'
  assume inv: "sqlite_inv s" and acc: "sqlite_accepts (new_session uuid key bn mr)"
    and n: "sp_sessions (sqlite_abs s) key = None" "\<not> known_id (sqlite_abs s) uuid"
    and g: "sop_get_or_create (sqlite_store_ops fr) uuid key bn mr s = (r, s')"
  have sel: "sql_select_key key s = None" using n(1) by (simp add: sqlite_abs_def)
  have fresh: "key_of (new_session uuid key bn mr) \<notin> set (List.map row_key (db_sessions s))"
    "ss_id (new_session uuid key bn mr) \<notin> set (List.map col_session_id (db_sessions s))"
    using n inv by (simp_all add: sqlite_lookup_None sqlite_known_id)
  from g acc fresh sel show "r = Inr (new_session uuid key bn mr)
      \<and> sqlite_abs s' = put_session (new_session uuid key bn mr) (sqlite_abs s) \<and> sqlite_inv s'"
    using sqlite_insert [OF inv fresh]
    by (auto simp: sqlite_get_or_create_def sql_insert_session_def sql_int_def sqlite_accepts_def Let_def)
next
  fix s x y u s'
  assume inv: "sqlite_inv s" and acc: "sqlite_accepts x"
    and k: "sp_sessions (sqlite_abs s) (key_of x) = Some y" "same_identity x y"
    and g: "sop_save (sqlite_store_ops fr) x s = (u, s')"
  have "session_to_row y \<in> set (db_sessions s)" using k(1) inv by (simp add: sqlite_lookup)
  from sqlite_update [OF inv this k(2)] g acc
  show "u = Inr () \<and> sqlite_abs s' = put_session x (sqlite_abs s) \<and> sqlite_inv s'"
    by (auto simp: sqlite_save_def sqlite_accepts_def sql_text_opt_str sql_int_def)
next
  fix s sid m b s'
  assume "sqlite_inv s" "sop_is_processed (sqlite_store_ops fr) sid (PStr m) s = (b, s')"
  then show "b = Inr ((sid, m) \<in> sp_done (sqlite_abs s)) \<and> sqlite_abs s' = sqlite_abs s \<and> sqlite_inv s'"
    by (auto simp: sqlite_is_processed_def sqlite_abs_def)
next
  fix s sid m u s'
  assume "sqlite_inv s" "sop_mark_processed (sqlite_store_ops fr) sid (PStr m) s = (u, s')"
  then show "u = Inr () \<and> sqlite_abs s' = put_done sid m (sqlite_abs s) \<and> sqlite_inv s'"
    by (auto simp: sqlite_mark_processed_def sqlite_mark split: if_splits)
qed

lemma sqlite_inv_init: "sqlite_inv sqlite_init"
  by (simp add: sqlite_inv_def sqlite_init_def)

lemma sqlite_abs_init: "sqlite_abs sqlite_init = empty_spec"
  by (simp add: sqlite_abs_def sqlite_init_def empty_spec_def sql_select_key_def fun_eq_iff)

end
