(* ===== verification/Conversation.thy ===== *)
theory Conversation
  imports Engine Memory_Store Sqlite_Store
begin

section \<open>ConversationService\<close>

text \<open>
  \<open>engine/orchestration/conversation.py\<close>: a message on a (workspace, channel, thread) becomes a
  turn of a stored session. The service is a function of the store's operations, so it runs on
  every store; on the specification of a store (\<open>spec_store_ops\<close>) it is its own abstract
  specification, and the locale lemma \<open>handle_refines\<close> carries what is proved there to every
  store that keeps the contract.
\<close>

definition DEFAULT_MAX_ROUNDS :: int where
  "DEFAULT_MAX_ROUNDS = 50"

record ('s, 't) conv_world =
  cw_store :: 's
  cw_engine :: "'t engine_state"

record conv_args =
  ca_workspace_id :: string
  ca_channel :: string
  ca_thread_key :: string
  ca_text :: string
  ca_cwd :: string
  ca_env :: "string dict"
  ca_backend_name :: string
  ca_max_rounds :: int
  ca_message_id :: pyv
  ca_model :: "string option"
  ca_user_id :: "string option"
  ca_trace_metadata :: "pyv dict option"

definition ca_key :: "conv_args \<Rightarrow> sess_key" where
  "ca_key a = (ca_workspace_id a, ca_channel a, ca_thread_key a)"

definition turn_args_of :: "session \<Rightarrow> conv_args \<Rightarrow> turn_args" where
  \<comment> \<open>the call of \<open>run_turn\<close>, with the metadata dictionary the service builds\<close>
  "turn_args_of x a =
     \<lparr>ta_backend_name = ss_backend_name x, ta_prompt = ca_text a, ta_cwd = ca_cwd a, ta_env = ca_env a,
      ta_backend_thread_id = ss_backend_thread_id x, ta_model = ca_model a,
      ta_metadata = Some [(''workspace_id'', PStr (ca_workspace_id a)), (''session_id'', PStr (ss_id x)),
                          (''channel'', PStr (ca_channel a)), (''user_id'', opt_str (ca_user_id a))],
      ta_trace_metadata = ca_trace_metadata a, ta_on_event = None\<rparr>"

definition already_processed :: "'s session_store_ops \<Rightarrow> session \<Rightarrow> conv_args \<Rightarrow> 's \<Rightarrow> (exn + bool) \<times> 's" where
  \<comment> \<open>\<open>message_id is not None and store.is_processed(...)\<close>\<close>
  "already_processed S x a s =
     (if ca_message_id a = PNone then (Inr False, s)
      else sop_is_processed S (ss_id x) (ca_message_id a) s)"

definition record_turn ::
  "'s session_store_ops \<Rightarrow> rat \<Rightarrow> session \<Rightarrow> conv_args \<Rightarrow> agent_run_result \<Rightarrow> 's \<Rightarrow> (exn + agent_run_result) \<times> 's" where
  \<comment> \<open>after the turn: save the session, then mark the message\<close>
  "record_turn S now x a r s =
     (case sop_save S (with_turn (res_backend_thread_id r) now x) s of
        (Inl e, s1) \<Rightarrow> (Inl e, s1)
      | (Inr _, s1) \<Rightarrow>
          (if ca_message_id a = PNone then (Inr r, s1)
           else (case sop_mark_processed S (ss_id x) (ca_message_id a) s1 of
                   (Inl e, s2) \<Rightarrow> (Inl e, s2)
                 | (Inr _, s2) \<Rightarrow> (Inr r, s2))))"

definition conv_handle :: "'s session_store_ops \<Rightarrow> ('t, 'sp) tracer_ops \<Rightarrow> engine_registry \<Rightarrow> string \<Rightarrow> rat
    \<Rightarrow> conv_args \<Rightarrow> ('s, 't) conv_world \<Rightarrow> (exn + agent_run_result) \<times> ('s, 't) conv_world" where
  "conv_handle S T reg uuid now a w =
     (case sop_get_or_create S uuid (ca_key a) (ca_backend_name a) (ca_max_rounds a) (cw_store w) of
        (Inl e, s1) \<Rightarrow> (Inl e, w\<lparr>cw_store := s1\<rparr>)
      | (Inr x, s1) \<Rightarrow>
          (case already_processed S x a s1 of
             (Inl e, s2) \<Rightarrow> (Inl e, w\<lparr>cw_store := s2\<rparr>)
           | (Inr True, s2) \<Rightarrow> (Inl (DuplicateMessage (ss_id x) (ca_message_id a)), w\<lparr>cw_store := s2\<rparr>)
           | (Inr False, s2) \<Rightarrow>
               (if ss_round_count x \<ge> ss_max_rounds x
                then (Inl (SessionRoundsExceeded (ss_id x) (ss_max_rounds x)), w\<lparr>cw_store := s2\<rparr>)
                else (case run_turn T reg (turn_args_of x a) (cw_engine w) of
                        (Inl e, es) \<Rightarrow> (Inl e, w\<lparr>cw_store := s2, cw_engine := es\<rparr>)
                      | (Inr r, es) \<Rightarrow>
                          (let (out, s3) = record_turn S now x a r s2
                           in (out, w\<lparr>cw_store := s3, cw_engine := es\<rparr>))))))"

subsection \<open>The service on the specification of a store\<close>

fun spec_is_processed :: "string \<Rightarrow> pyv \<Rightarrow> store_spec \<Rightarrow> (exn + bool) \<times> store_spec" where
  "spec_is_processed sid (PStr m) sp = (Inr ((sid, m) \<in> sp_done sp), sp)"
| "spec_is_processed sid v sp = (Inl (TypeError ''message_id''), sp)"

fun spec_mark_processed :: "string \<Rightarrow> pyv \<Rightarrow> store_spec \<Rightarrow> (exn + unit) \<times> store_spec" where
  "spec_mark_processed sid (PStr m) sp = (Inr (), put_done sid m sp)"
| "spec_mark_processed sid v sp = (Inl (TypeError ''message_id''), sp)"

definition spec_get_or_create ::
  "string \<Rightarrow> sess_key \<Rightarrow> string \<Rightarrow> int \<Rightarrow> store_spec \<Rightarrow> (exn + session) \<times> store_spec" where
  "spec_get_or_create uuid key bn mr sp =
     (case sp_sessions sp key of
        Some x \<Rightarrow> (Inr x, sp)
      | None \<Rightarrow> (Inr (new_session uuid key bn mr), put_session (new_session uuid key bn mr) sp))"

definition spec_store_ops :: "store_spec session_store_ops" where
  "spec_store_ops =
     \<lparr>sop_get_or_create = spec_get_or_create, sop_save = (\<lambda>x sp. (Inr (), put_session x sp)),
      sop_is_processed = spec_is_processed, sop_mark_processed = spec_mark_processed\<rparr>"

lemma spec_store_ops_sel [simp]:
  "sop_get_or_create spec_store_ops = spec_get_or_create"
  "sop_save spec_store_ops = (\<lambda>x sp. (Inr (), put_session x sp))"
  "sop_is_processed spec_store_ops = spec_is_processed"
  "sop_mark_processed spec_store_ops = spec_mark_processed"
  by (simp_all add: spec_store_ops_def)

definition session_for :: "store_spec \<Rightarrow> string \<Rightarrow> conv_args \<Rightarrow> session" where
  "session_for sp uuid a =
     (case sp_sessions sp (ca_key a) of
        Some x \<Rightarrow> x | None \<Rightarrow> new_session uuid (ca_key a) (ca_backend_name a) (ca_max_rounds a))"

definition opened :: "store_spec \<Rightarrow> string \<Rightarrow> conv_args \<Rightarrow> store_spec" where
  \<comment> \<open>the specification after \<open>get_or_create\<close>\<close>
  "opened sp uuid a =
     (case sp_sessions sp (ca_key a) of
        Some x \<Rightarrow> sp
      | None \<Rightarrow> put_session (new_session uuid (ca_key a) (ca_backend_name a) (ca_max_rounds a)) sp)"

lemma spec_get_or_create_eq:
  "spec_get_or_create uuid (ca_key a) (ca_backend_name a) (ca_max_rounds a) sp
     = (Inr (session_for sp uuid a), opened sp uuid a)"
  by (simp add: spec_get_or_create_def session_for_def opened_def split: option.splits)

lemma opened_lookup: "sp_sessions (opened sp uuid a) (ca_key a) = Some (session_for sp uuid a)"
  by (simp add: opened_def session_for_def split: option.splits)

lemma opened_other: "key \<noteq> ca_key a \<Longrightarrow> sp_sessions (opened sp uuid a) key = sp_sessions sp key"
  by (simp add: opened_def split: option.splits)

lemma opened_done [simp]: "sp_done (opened sp uuid a) = sp_done sp"
  by (simp add: opened_def split: option.splits)

lemma session_for_key: "spec_wf sp \<Longrightarrow> key_of (session_for sp uuid a) = ca_key a"
  by (auto simp: session_for_def spec_wf_key split: option.splits)

definition fresh_for :: "store_spec \<Rightarrow> string \<Rightarrow> conv_args \<Rightarrow> bool" where
  \<comment> \<open>a drawn identifier is not in use\<close>
  "fresh_for sp uuid a \<longleftrightarrow> sp_sessions sp (ca_key a) \<noteq> None \<or> \<not> known_id sp uuid"

lemma opened_wf: "spec_wf sp \<Longrightarrow> fresh_for sp uuid a \<Longrightarrow> spec_wf (opened sp uuid a)"
  by (auto simp: opened_def fresh_for_def intro: spec_wf_put_new split: option.splits)

definition turn_recorded :: "rat \<Rightarrow> session \<Rightarrow> conv_args \<Rightarrow> agent_run_result \<Rightarrow> store_spec \<Rightarrow> store_spec" where
  "turn_recorded now x a r sp =
     (let sp1 = put_session (with_turn (res_backend_thread_id r) now x) sp in
      case ca_message_id a of PStr m \<Rightarrow> put_done (ss_id x) m sp1 | _ \<Rightarrow> sp1)"

definition is_duplicate :: "store_spec \<Rightarrow> session \<Rightarrow> conv_args \<Rightarrow> bool" where
  "is_duplicate sp x a \<longleftrightarrow> (case ca_message_id a of PStr m \<Rightarrow> (ss_id x, m) \<in> sp_done sp | _ \<Rightarrow> False)"

lemma is_duplicate_opened: "is_duplicate (opened sp uuid b) x a = is_duplicate sp x a"
  by (simp add: is_duplicate_def cong: pyv.case_cong)

text \<open>What \<open>handle\<close> does, on the specification of the store.\<close>

lemma conv_handle_spec:
  assumes "is_opt_str (ca_message_id a)"
  shows "conv_handle spec_store_ops T reg uuid now a w =
    (let sp = cw_store w; x = session_for sp uuid a; sp1 = opened sp uuid a in
     if is_duplicate sp x a
     then (Inl (DuplicateMessage (ss_id x) (ca_message_id a)), w\<lparr>cw_store := sp1\<rparr>)
     else if ss_round_count x \<ge> ss_max_rounds x
     then (Inl (SessionRoundsExceeded (ss_id x) (ss_max_rounds x)), w\<lparr>cw_store := sp1\<rparr>)
     else (case run_turn T reg (turn_args_of x a) (cw_engine w) of
             (Inl e, es) \<Rightarrow> (Inl e, w\<lparr>cw_store := sp1, cw_engine := es\<rparr>)
           | (Inr r, es) \<Rightarrow> (Inr r, w\<lparr>cw_store := turn_recorded now x a r sp1, cw_engine := es\<rparr>)))"
proof -
  from assms consider (none) "ca_message_id a = PNone" | (str) m where "ca_message_id a = PStr m"
    by (cases "ca_message_id a") auto
  then show ?thesis
  proof cases
    case none
    then show ?thesis
      by (simp add: conv_handle_def already_processed_def spec_get_or_create_eq is_duplicate_def
          record_turn_def turn_recorded_def Let_def split: prod.splits sum.splits)
  next
    case str
    then show ?thesis
      by (simp add: conv_handle_def already_processed_def spec_get_or_create_eq is_duplicate_def
          record_turn_def turn_recorded_def Let_def split: prod.splits sum.splits)
  qed
qed

subsection \<open>Every store that keeps the contract\<close>

definition handle_legal :: "(session \<Rightarrow> bool) \<Rightarrow> (string \<Rightarrow> string \<Rightarrow> bool) \<Rightarrow> ('t, 'sp) tracer_ops
    \<Rightarrow> engine_registry \<Rightarrow> string \<Rightarrow> rat \<Rightarrow> conv_args \<Rightarrow> store_spec \<Rightarrow> 't engine_state \<Rightarrow> bool" where
  \<comment> \<open>a fresh identifier, a message id that is a string or absent, and sessions the store accepts\<close>
  "handle_legal acc accm T reg uuid now a sp es \<longleftrightarrow>
     fresh_for sp uuid a \<and> is_opt_str (ca_message_id a)
     \<and> acc (new_session uuid (ca_key a) (ca_backend_name a) (ca_max_rounds a))
     \<and> (let x = session_for sp uuid a in
        (\<forall>m. ca_message_id a = PStr m \<longrightarrow> accm (ss_id x) m)
        \<and> (ss_round_count x < ss_max_rounds x \<longrightarrow>
            (case fst (run_turn T reg (turn_args_of x a) es) of
               Inl _ \<Rightarrow> True | Inr r \<Rightarrow> acc (with_turn (res_backend_thread_id r) now x))))"

context session_store
begin

definition conv_abs :: "('s, 't) conv_world \<Rightarrow> (store_spec, 't) conv_world" where
  "conv_abs w = \<lparr>cw_store = abs (cw_store w), cw_engine = cw_engine w\<rparr>"

lemma conv_abs_sel: "cw_store (conv_abs w) = abs (cw_store w)" "cw_engine (conv_abs w) = cw_engine w"
  by (simp_all add: conv_abs_def)

lemma open_refines:
  assumes "inv s" and "fresh_for (abs s) uuid a"
    and "accepts (new_session uuid (ca_key a) (ca_backend_name a) (ca_max_rounds a))"
    and "sop_get_or_create S uuid (ca_key a) (ca_backend_name a) (ca_max_rounds a) s = (r, s')"
  shows "r = Inr (session_for (abs s) uuid a)" and "abs s' = opened (abs s) uuid a" and "inv s'"
proof -
  have "r = Inr (session_for (abs s) uuid a) \<and> abs s' = opened (abs s) uuid a \<and> inv s'"
  proof (cases "sp_sessions (abs s) (ca_key a)")
    case None
    with assms(2) have "\<not> known_id (abs s) uuid" by (simp add: fresh_for_def)
    from get_miss [OF assms(1,3) None this assms(4)] None show ?thesis
      by (simp add: session_for_def opened_def)
  next
    case (Some x)
    from get_hit [OF assms(1,3) Some assms(4)] Some show ?thesis
      by (simp add: session_for_def opened_def)
  qed
  then show "r = Inr (session_for (abs s) uuid a)" "abs s' = opened (abs s) uuid a" "inv s'" by auto
qed

lemma processed_refines:
  assumes "inv s" and "is_opt_str (ca_message_id a)"
    and "\<And>m. ca_message_id a = PStr m \<Longrightarrow> accepts_msg (ss_id x) m"
    and "already_processed S x a s = (r, s')"
  shows "r = Inr (is_duplicate (abs s) x a) \<and> abs s' = abs s \<and> inv s'"
proof (cases "ca_message_id a")
  case (PStr m)
  with assms is_processed [OF assms(1) assms(3) [OF PStr]] show ?thesis
    by (auto simp: already_processed_def is_duplicate_def)
qed (use assms in \<open>auto simp: already_processed_def is_duplicate_def\<close>)

lemma record_refines:
  assumes i: "inv s" and opt: "is_opt_str (ca_message_id a)"
    and acc: "accepts (with_turn (res_backend_thread_id res) now x)"
    and accm: "\<And>m. ca_message_id a = PStr m \<Longrightarrow> accepts_msg (ss_id x) m"
    and look: "sp_sessions (abs s) (key_of x) = Some x"
    and rec: "record_turn S now x a res s = (out, s')"
  shows "out = Inr res \<and> abs s' = turn_recorded now x a res (abs s) \<and> inv s'"
proof -
  let ?y = "with_turn (res_backend_thread_id res) now x"
  obtain u s1 where save: "sop_save S ?y s = (u, s1)" by fastforce
  have "sp_sessions (abs s) (key_of ?y) = Some x" using look by simp
  from save_known [OF i acc this same_identity_with_turn save]
  have u: "u = Inr ()" and a1: "abs s1 = put_session ?y (abs s)" and i1: "inv s1" by auto
  show ?thesis
  proof (cases "ca_message_id a")
    case PNone
    with rec save u a1 i1 show ?thesis by (auto simp: record_turn_def turn_recorded_def)
  next
    case (PStr m)
    obtain v s2 where mark: "sop_mark_processed S (ss_id x) (PStr m) s1 = (v, s2)" by fastforce
    have "sp_sessions (put_session ?y (abs s)) (key_of x) = Some ?y" by simp
    from known_id_lookup [OF this] have "known_id (abs s1) (ss_id x)" by (simp add: a1)
    from mark_processed [OF i1 accm [OF PStr] this mark] rec save u a1 PStr mark show ?thesis
      by (auto simp: record_turn_def turn_recorded_def Let_def)
  qed (use opt in auto)
qed

lemma handle_refines:
  fixes w :: "('s, 't) conv_world"
  assumes i: "inv (cw_store w)"
    and legal: "handle_legal accepts accepts_msg T reg uuid now a (abs (cw_store w)) (cw_engine w)"
    and h: "conv_handle S T reg uuid now a w = (out, w')"
  shows "conv_handle spec_store_ops T reg uuid now a (conv_abs w) = (out, conv_abs w') \<and> inv (cw_store w')"
proof -
  let ?sp = "abs (cw_store w)" and ?x = "session_for (abs (cw_store w)) uuid a"
  from legal have opt: "is_opt_str (ca_message_id a)" and fresh: "fresh_for ?sp uuid a"
    and new: "accepts (new_session uuid (ca_key a) (ca_backend_name a) (ca_max_rounds a))"
    and accm: "\<And>m. ca_message_id a = PStr m \<Longrightarrow> accepts_msg (ss_id ?x) m"
    by (auto simp: handle_legal_def Let_def)
  obtain r1 s1 where g: "sop_get_or_create S uuid (ca_key a) (ca_backend_name a) (ca_max_rounds a) (cw_store w) = (r1, s1)"
    by fastforce
  note op = open_refines [OF i fresh new g]
  obtain r2 s2 where p: "already_processed S ?x a s1 = (r2, s2)" by fastforce
  from processed_refines [OF op(3) opt accm p]
  have r2: "r2 = Inr (is_duplicate ?sp ?x a)" and a2: "abs s2 = opened ?sp uuid a" and i2: "inv s2"
    by (auto simp: op(2) is_duplicate_opened)
  obtain rr es where t: "run_turn T reg (turn_args_of ?x a) (cw_engine w) = (rr, es)" by fastforce
  have look: "sp_sessions (abs s2) (key_of ?x) = Some ?x"
    using opened_lookup [of ?sp uuid a] session_for_key [OF spec_ok [OF i]] by (simp add: a2)
  have spec: "conv_handle spec_store_ops T reg uuid now a (conv_abs w) =
    (if is_duplicate ?sp ?x a
     then (Inl (DuplicateMessage (ss_id ?x) (ca_message_id a)), (conv_abs w)\<lparr>cw_store := opened ?sp uuid a\<rparr>)
     else if ss_round_count ?x \<ge> ss_max_rounds ?x
     then (Inl (SessionRoundsExceeded (ss_id ?x) (ss_max_rounds ?x)), (conv_abs w)\<lparr>cw_store := opened ?sp uuid a\<rparr>)
     else (case rr of
             Inl e \<Rightarrow> (Inl e, (conv_abs w)\<lparr>cw_store := opened ?sp uuid a, cw_engine := es\<rparr>)
           | Inr r \<Rightarrow> (Inr r, (conv_abs w)\<lparr>cw_store := turn_recorded now ?x a r (opened ?sp uuid a), cw_engine := es\<rparr>)))"
    using t by (simp add: conv_handle_spec [OF opt] conv_abs_sel Let_def)
  have conc: "conv_handle S T reg uuid now a w =
    (if is_duplicate ?sp ?x a
     then (Inl (DuplicateMessage (ss_id ?x) (ca_message_id a)), w\<lparr>cw_store := s2\<rparr>)
     else if ss_round_count ?x \<ge> ss_max_rounds ?x
     then (Inl (SessionRoundsExceeded (ss_id ?x) (ss_max_rounds ?x)), w\<lparr>cw_store := s2\<rparr>)
     else (case rr of
             Inl e \<Rightarrow> (Inl e, w\<lparr>cw_store := s2, cw_engine := es\<rparr>)
           | Inr r \<Rightarrow> (let (out, s3) = record_turn S now ?x a r s2
                      in (out, w\<lparr>cw_store := s3, cw_engine := es\<rparr>))))"
    by (simp add: conv_handle_def g op(1) p r2 t split: bool.split)
  show ?thesis
  proof (cases "is_duplicate ?sp ?x a \<or> ss_max_rounds ?x \<le> ss_round_count ?x")
    case True
    with h [unfolded conc] a2 i2 show ?thesis
      unfolding spec by (auto simp: conv_abs_def split: if_splits)
  next
    case False
    show ?thesis
    proof (cases rr)
      case (Inl e)
      with h [unfolded conc] a2 i2 t False show ?thesis
        unfolding spec by (auto simp: conv_abs_def split: if_splits)
    next
      case (Inr res)
      with legal t False have acc: "accepts (with_turn (res_backend_thread_id res) now ?x)"
        by (auto simp: handle_legal_def Let_def)
      obtain o3 s3 where r: "record_turn S now ?x a res s2 = (o3, s3)" by fastforce
      from record_refines [OF i2 opt acc accm look r]
      have "o3 = Inr res" "abs s3 = turn_recorded now ?x a res (abs s2)" "inv s3" by auto
      with h [unfolded conc] a2 t False Inr r show ?thesis
        unfolding spec by (auto simp: conv_abs_def split: if_splits)
    qed
  qed
qed

end

end
