(* ===== verification/Echo.thy ===== *)
theory Echo
  imports Registry
begin

section \<open>The built-in echo backend\<close>

text \<open>
  \<open>_EchoBackend\<close> of \<open>claw_engine/__main__.py\<close>: the backend that needs no command-line tool.
  The witnesses of the engine's properties run it.
\<close>

definition echo_run :: "agent_run_request \<Rightarrow> event_stream" where
  "echo_run req =
     (let text = PStr (''echo: '' @ req_prompt req) in
      ([(agent_event MESSAGE_COMPLETED)\<lparr>ev_text := text\<rparr>,
        (agent_event TURN_COMPLETED)\<lparr>ev_result := Some (agent_run_result PNone text no_usage)\<rparr>], None))"

definition echo_backend :: backend where
  "echo_backend =
     \<lparr>be_name = ''fake'',
      be_capabilities = \<lparr>supports_resume = False, supports_streaming = False, supports_tools = False,
                         supports_mcp = False, auth_modes = [''none'']\<rparr>,
      be_run = echo_run,
      be_healthcheck = \<lparr>health_ok = True, health_detail = ''''\<rparr>\<rparr>"

lemma echo_valid: "assert_valid_event_stream (fst (echo_run req)) = Inr ()" "snd (echo_run req) = None"
  by (simp_all add: echo_run_def assert_valid_event_stream_def terminal_kind_def Let_def)

lemma echo_backend_sel [simp]:
  "be_name echo_backend = ''fake''" "be_run echo_backend = echo_run"
  "supports_resume (be_capabilities echo_backend) = False"
  "supports_streaming (be_capabilities echo_backend) = False"
  by (simp_all add: echo_backend_def)

end
