(* ===== verification/Conversation_History.thy ===== *)
theory Conversation_History
  imports Conversation Echo
begin

section \<open>Histories of messages\<close>

text \<open>
  Sequences of \<open>ConversationService.handle\<close> calls, each with the identifier and the time it
  draws. The facts about deduplication, round budgets and thread continuity are proved on the
  specification of a store and hold on every store that keeps the contract.
\<close>

type_synonym conv_step = "string \<times> rat \<times> conv_args"

fun conv_run :: "'s session_store_ops \<Rightarrow> ('t, 'sp) tracer_ops \<Rightarrow> engine_registry \<Rightarrow> conv_step list
    \<Rightarrow> ('s, 't) conv_world \<Rightarrow> (exn + agent_run_result) list \<times> ('s, 't) conv_world" where
  "conv_run S T reg [] w = ([], w)"
| "conv_run S T reg ((uuid, now, a) # steps) w =
     (let (out, w1) = conv_handle S T reg uuid now a w; (outs, w2) = conv_run S T reg steps w1
      in (out # outs, w2))"

fun conv_legal :: "(session \<Rightarrow> bool) \<Rightarrow> (string \<Rightarrow> string \<Rightarrow> bool) \<Rightarrow> ('t, 'sp) tracer_ops
    \<Rightarrow> engine_registry \<Rightarrow> conv_step list \<Rightarrow> (store_spec, 't) conv_world \<Rightarrow> bool" where
  "conv_legal acc accm T reg [] w = True"
| "conv_legal acc accm T reg ((uuid, now, a) # steps) w =
     (handle_legal acc accm T reg uuid now a (cw_store w) (cw_engine w)
      \<and> conv_legal acc accm T reg steps (snd (conv_handle spec_store_ops T reg uuid now a w)))"

context session_store
begin

lemma run_refines:
  fixes w :: "('s, 't) conv_world"
  shows "\<lbrakk>inv (cw_store w); conv_legal accepts accepts_msg T reg steps (conv_abs w)\<rbrakk>
   \<Longrightarrow> conv_run spec_store_ops T reg steps (conv_abs w) = map_prod id conv_abs (conv_run S T reg steps w)
     \<and> inv (cw_store (snd (conv_run S T reg steps w)))"
proof (induction steps arbitrary: w)
  case Nil
  then show ?case by simp
next
  case (Cons st steps)
  obtain uuid now a where st: "st = (uuid, now, a)" by (cases st) auto
  obtain out w1 where h: "conv_handle S T reg uuid now a w = (out, w1)" by fastforce
  from Cons.prems(2) have legal: "handle_legal accepts accepts_msg T reg uuid now a (abs (cw_store w)) (cw_engine w)"
    by (simp add: st conv_abs_sel)
  from handle_refines [OF Cons.prems(1) legal h]
  have s: "conv_handle spec_store_ops T reg uuid now a (conv_abs w) = (out, conv_abs w1)"
    and i: "inv (cw_store w1)" by auto
  from Cons.prems(2) s have "conv_legal accepts accepts_msg T reg steps (conv_abs w1)"
    by (simp add: st)
  from Cons.IH [OF i this] s h show ?case
    by (auto simp: st Let_def map_prod_def split: prod.splits)
qed

lemma outcomes_refine:
  fixes w :: "('s, 't) conv_world"
  assumes "inv (cw_store w)" and "conv_legal accepts accepts_msg T reg steps (conv_abs w)"
  shows "fst (conv_run S T reg steps w) = fst (conv_run spec_store_ops T reg steps (conv_abs w))"
    and "cw_engine (snd (conv_run S T reg steps w))
           = cw_engine (snd (conv_run spec_store_ops T reg steps (conv_abs w)))"
  using run_refines [OF assms] by (simp_all add: conv_abs_sel)

end

subsection \<open>One step of a history, on the specification\<close>

definition well_named :: "conv_step list \<Rightarrow> store_spec \<Rightarrow> bool" where
  \<comment> \<open>distinct identifiers that are not in use, and message ids as the protocol types them\<close>
  "well_named steps sp \<longleftrightarrow>
     distinct (List.map fst steps) \<and> (\<forall>st \<in> set steps. \<not> known_id sp (fst st))
     \<and> (\<forall>st \<in> set steps. is_opt_str (ca_message_id (snd (snd st))))"

definition succeeded :: "exn + agent_run_result \<Rightarrow> bool" where
  "succeeded out = (case out of Inl _ \<Rightarrow> False | Inr _ \<Rightarrow> True)"

lemma succeeded_simps [simp]: "succeeded (Inr r)" "\<not> succeeded (Inl e)"
  by (simp_all add: succeeded_def)

lemma succeeded_iff: "succeeded out \<longleftrightarrow> (\<exists>r. out = Inr r)"
  by (cases out) simp_all

definition carried :: "session option \<Rightarrow> session option \<Rightarrow> bool" where
  \<comment> \<open>the session of a key after a step is the one before it, with the same identity and budget\<close>
  "carried before after \<longleftrightarrow>
     (\<forall>x. before = Some x \<longrightarrow> (\<exists>y. after = Some y \<and> same_identity y x \<and> ss_max_rounds y = ss_max_rounds x))"

lemma carried_refl [simp]: "carried x x"
  by (simp add: carried_def)

lemma same_identity_trans: "same_identity a b \<Longrightarrow> same_identity b c \<Longrightarrow> same_identity a c"
  by (simp add: same_identity_def)

lemma carried_trans: "carried a b \<Longrightarrow> carried b c \<Longrightarrow> carried a c"
  unfolding carried_def by (metis same_identity_trans)

lemma turn_recorded_sel:
  "sp_sessions (turn_recorded now x a r sp) = (sp_sessions sp)(key_of x \<mapsto> with_turn (res_backend_thread_id r) now x)"
  "sp_done (turn_recorded now x a r sp) =
     (case ca_message_id a of PStr m \<Rightarrow> insert (ss_id x, m) (sp_done sp) | _ \<Rightarrow> sp_done sp)"
  by (auto simp: turn_recorded_def Let_def split: pyv.splits)

lemma turn_recorded_known:
  "spec_wf sp \<Longrightarrow> sp_sessions sp (key_of x) = Some x \<Longrightarrow>
     known_id (turn_recorded now x a r sp) sid = known_id sp sid"
  "spec_wf sp \<Longrightarrow> sp_sessions sp (key_of x) = Some x \<Longrightarrow> spec_wf (turn_recorded now x a r sp)"
proof -
  let ?y = "with_turn (res_backend_thread_id r) now x"
  assume wf: "spec_wf sp" and x: "sp_sessions sp (key_of x) = Some x"
  have sess: "sp_sessions (turn_recorded now x a r sp) = sp_sessions (put_session ?y sp)"
    by (simp add: turn_recorded_sel)
  have own: "sp_sessions sp (key_of ?y) = None \<or> (\<exists>y. sp_sessions sp (key_of ?y) = Some y \<and> ss_id y = ss_id ?y)"
    using x by simp
  have "known_id (put_session ?y sp) sid = known_id sp sid"
    unfolding known_id_put_iff [OF wf own] using known_id_lookup [OF x] by (cases "sid = ss_id x") simp_all
  then show "known_id (turn_recorded now x a r sp) sid = known_id sp sid"
    using sess by (simp only: known_id_def)
  have "spec_wf (put_session ?y sp)"
    using spec_wf_put_same [OF wf, of ?y x] x by simp
  then show "spec_wf (turn_recorded now x a r sp)"
    using sess by (simp only: spec_wf_def)
qed

lemma opened_known:
  "spec_wf sp \<Longrightarrow> known_id (opened sp uuid a) sid \<Longrightarrow> known_id sp sid \<or> sid = uuid"
  by (auto simp: opened_def known_id_put_iff split: option.splits)

lemma opened_carried: "carried (sp_sessions sp key) (sp_sessions (opened sp uuid a) key)"
  by (auto simp: opened_def carried_def split: option.splits)

text \<open>The three ways a step can end, with what each leaves in the store.\<close>

lemma step_cases:
  assumes h: "conv_handle spec_store_ops T reg uuid now a w = (out, w')"
    and opt: "is_opt_str (ca_message_id a)" and wf: "spec_wf (cw_store w)"
  defines "x \<equiv> session_for (cw_store w) uuid a" and "sp1 \<equiv> opened (cw_store w) uuid a"
  obtains (duplicate) "is_duplicate (cw_store w) x a" "out = Inl (DuplicateMessage (ss_id x) (ca_message_id a))"
      "cw_store w' = sp1" "cw_engine w' = cw_engine w"
    | (exhausted) "\<not> is_duplicate (cw_store w) x a" "ss_max_rounds x \<le> ss_round_count x"
      "out = Inl (SessionRoundsExceeded (ss_id x) (ss_max_rounds x))" "cw_store w' = sp1" "cw_engine w' = cw_engine w"
    | (failed) e where "\<not> is_duplicate (cw_store w) x a" "ss_round_count x < ss_max_rounds x"
      "out = Inl e" "cw_store w' = sp1"
      "run_turn T reg (turn_args_of x a) (cw_engine w) = (Inl e, cw_engine w')"
    | (turn) r where "\<not> is_duplicate (cw_store w) x a" "ss_round_count x < ss_max_rounds x"
      "out = Inr r" "cw_store w' = turn_recorded now x a r sp1"
      "run_turn T reg (turn_args_of x a) (cw_engine w) = (Inr r, cw_engine w')"
proof -
  obtain rr es where t: "run_turn T reg (turn_args_of x a) (cw_engine w) = (rr, es)" by fastforce
  show ?thesis
  proof (cases "is_duplicate (cw_store w) x a \<or> ss_max_rounds x \<le> ss_round_count x")
    case True
    show ?thesis
    proof (cases "is_duplicate (cw_store w) x a")
      case True
      with h show ?thesis
        by (intro duplicate) (auto simp: conv_handle_spec [OF opt] Let_def x_def sp1_def)
    next
      case False
      with h \<open>is_duplicate (cw_store w) x a \<or> ss_max_rounds x \<le> ss_round_count x\<close> show ?thesis
        by (intro exhausted) (auto simp: conv_handle_spec [OF opt] Let_def x_def sp1_def)
    qed
  next
    case False
    with h t have "(case rr of Inl e \<Rightarrow> (Inl e, w\<lparr>cw_store := sp1, cw_engine := es\<rparr>)
        | Inr r \<Rightarrow> (Inr r, w\<lparr>cw_store := turn_recorded now x a r sp1, cw_engine := es\<rparr>)) = (out, w')"
      by (simp add: conv_handle_spec [OF opt] Let_def x_def sp1_def cong: sum.case_cong)
    with False t show ?thesis
      by (cases rr) (auto intro: failed turn)
  qed
qed


lemma fresh_forI: "\<not> known_id sp uuid \<Longrightarrow> fresh_for sp uuid a"
  by (simp add: fresh_for_def)

lemma session_for_opened:
  "spec_wf sp \<Longrightarrow> sp_sessions (opened sp uuid a) (key_of (session_for sp uuid a)) = Some (session_for sp uuid a)"
  by (simp add: opened_lookup session_for_key)

lemma step_frame:
  assumes h: "conv_handle spec_store_ops T reg uuid now a w = (out, w')"
    and opt: "is_opt_str (ca_message_id a)" and wf: "spec_wf (cw_store w)"
    and new: "\<not> known_id (cw_store w) uuid"
  shows "spec_wf (cw_store w')"
    and "known_id (cw_store w') sid \<Longrightarrow> known_id (cw_store w) sid \<or> sid = uuid"
    and "sp_done (cw_store w) \<subseteq> sp_done (cw_store w')"
    and "carried (sp_sessions (cw_store w) key) (sp_sessions (cw_store w') key)"
    and "key \<noteq> ca_key a \<Longrightarrow> sp_sessions (cw_store w') key = sp_sessions (cw_store w) key"
proof -
  let ?x = "session_for (cw_store w) uuid a" and ?sp1 = "opened (cw_store w) uuid a"
  have wf1: "spec_wf ?sp1" using opened_wf [OF wf fresh_forI [OF new]] .
  have kx: "key_of ?x = ca_key a" using session_for_key [OF wf] .
  have x1: "sp_sessions ?sp1 (key_of ?x) = Some ?x" using session_for_opened [OF wf] .
  consider (same) "cw_store w' = ?sp1" | (turn) r where "cw_store w' = turn_recorded now ?x a r ?sp1"
    using step_cases [OF h opt wf] by metis
  then have "spec_wf (cw_store w') \<and> (known_id (cw_store w') sid \<longrightarrow> known_id (cw_store w) sid \<or> sid = uuid)
    \<and> sp_done (cw_store w) \<subseteq> sp_done (cw_store w')
    \<and> carried (sp_sessions (cw_store w) key) (sp_sessions (cw_store w') key)
    \<and> (key \<noteq> ca_key a \<longrightarrow> sp_sessions (cw_store w') key = sp_sessions (cw_store w) key)"
  proof cases
    case same
    then show ?thesis
      using wf1 opened_known [OF wf] opened_carried opened_other by (metis opened_done order_refl)
  next
    case (turn r)
    have "spec_wf (cw_store w')" using turn_recorded_known(2) [OF wf1 x1] turn by simp
    moreover have "known_id (cw_store w') sid \<longrightarrow> known_id (cw_store w) sid \<or> sid = uuid"
      using turn_recorded_known(1) [OF wf1 x1] opened_known [OF wf] turn by metis
    moreover have "sp_done (cw_store w) \<subseteq> sp_done (cw_store w')"
      by (auto simp: turn turn_recorded_sel split: pyv.splits)
    moreover have "carried (sp_sessions ?sp1 key) (sp_sessions (cw_store w') key)"
      using x1 by (auto simp: turn turn_recorded_sel carried_def)
    then have "carried (sp_sessions (cw_store w) key) (sp_sessions (cw_store w') key)"
      using opened_carried carried_trans by blast
    moreover have "key \<noteq> ca_key a \<longrightarrow> sp_sessions (cw_store w') key = sp_sessions (cw_store w) key"
      using opened_other [of key a "cw_store w" uuid] kx by (simp add: turn turn_recorded_sel)
    ultimately show ?thesis by blast
  qed
  then show "spec_wf (cw_store w')"
    and "known_id (cw_store w') sid \<Longrightarrow> known_id (cw_store w) sid \<or> sid = uuid"
    and "sp_done (cw_store w) \<subseteq> sp_done (cw_store w')"
    and "carried (sp_sessions (cw_store w) key) (sp_sessions (cw_store w') key)"
    and "key \<noteq> ca_key a \<Longrightarrow> sp_sessions (cw_store w') key = sp_sessions (cw_store w) key"
    by auto
qed

lemma well_named_step:
  assumes "conv_handle spec_store_ops T reg uuid now a w = (out, w')"
    and "well_named ((uuid, now, a) # steps) (cw_store w)" and "spec_wf (cw_store w)"
  shows "well_named steps (cw_store w')" and "spec_wf (cw_store w')"
  using assms step_frame(1,2) [OF assms(1) _ assms(3)] by (auto simp: well_named_def)

subsection \<open>Deduplication\<close>

definition processed_on :: "store_spec \<Rightarrow> sess_key \<Rightarrow> string \<Rightarrow> string \<Rightarrow> bool" where
  "processed_on sp key sid m \<longleftrightarrow> (\<exists>x. sp_sessions sp key = Some x \<and> ss_id x = sid \<and> (sid, m) \<in> sp_done sp)"

lemma processed_kept:
  assumes "processed_on sp key sid m" and "carried (sp_sessions sp key) (sp_sessions sp' key)"
    and "sp_done sp \<subseteq> sp_done sp'"
  shows "processed_on sp' key sid m"
  using assms by (auto simp: processed_on_def carried_def same_identity_def)

lemma processed_rejects:
  assumes "conv_handle spec_store_ops T reg uuid now a w = (out, w')"
    and "processed_on (cw_store w) (ca_key a) sid m" and "ca_message_id a = PStr m"
  shows "out = Inl (DuplicateMessage sid (PStr m)) \<and> w' = w"
proof -
  from assms(2) obtain x where x: "sp_sessions (cw_store w) (ca_key a) = Some x" "ss_id x = sid"
      "(sid, m) \<in> sp_done (cw_store w)"
    by (auto simp: processed_on_def)
  then have "session_for (cw_store w) uuid a = x" "opened (cw_store w) uuid a = cw_store w"
    by (simp_all add: session_for_def opened_def)
  moreover have "is_opt_str (ca_message_id a)" using assms(3) by simp
  ultimately show ?thesis
    using assms(1,3) x by (simp add: conv_handle_spec is_duplicate_def)
qed

lemma success_processes:
  assumes h: "conv_handle spec_store_ops T reg uuid now a w = (Inr r, w')"
    and m: "ca_message_id a = PStr m" and wf: "spec_wf (cw_store w)"
  shows "\<exists>sid. processed_on (cw_store w') (ca_key a) sid m"
proof -
  have opt: "is_opt_str (ca_message_id a)" using m by simp
  from step_cases [OF h opt wf] obtain r' where
    "cw_store w' = turn_recorded now (session_for (cw_store w) uuid a) a r' (opened (cw_store w) uuid a)"
    by auto
  then show ?thesis
    using session_for_key [OF wf, of uuid a] m by (simp add: processed_on_def turn_recorded_sel)
qed

lemma run_rejects_processed:
  assumes "processed_on (cw_store w) key sid m" and "well_named steps (cw_store w)"
    and "spec_wf (cw_store w)" and "j < length steps" and "steps ! j = (uuid, now, a)"
    and "ca_key a = key" and "ca_message_id a = PStr m"
  shows "fst (conv_run spec_store_ops T reg steps w) ! j = Inl (DuplicateMessage sid (PStr m))"
  using assms(1-5)
proof (induction steps arbitrary: w j)
  case Nil
  then show ?case by simp
next
  case (Cons st steps)
  obtain u n b where st: "st = (u, n, b)" by (cases st) auto
  obtain out w1 where h: "conv_handle spec_store_ops T reg u n b w = (out, w1)" by fastforce
  obtain outs w2 where r: "conv_run spec_store_ops T reg steps w1 = (outs, w2)" by fastforce
  have opt: "is_opt_str (ca_message_id b)" and new: "\<not> known_id (cw_store w) u"
    using Cons.prems(2) by (simp_all add: st well_named_def)
  note frame = step_frame [OF h opt Cons.prems(3) new]
  note named = well_named_step [OF h Cons.prems(2) [unfolded st] Cons.prems(3)]
  show ?case
  proof (cases j)
    case 0
    with Cons.prems(5) have "b = a" by (simp add: st)
    with processed_rejects [OF h] Cons.prems(1) assms(6,7) h r 0 show ?thesis by (simp add: st)
  next
    case (Suc j')
    have "processed_on (cw_store w1) key sid m"
      using processed_kept [OF Cons.prems(1) frame(4) frame(3)] .
    from Cons.IH [OF this named, of j'] Cons.prems(4,5) Suc h r show ?thesis by (simp add: st)
  qed
qed

lemma run_deduplicates:
  assumes "well_named steps (cw_store w)" and "spec_wf (cw_store w)"
    and "i < j" and "j < length steps"
    and "steps ! i = (u1, n1, a)" and "steps ! j = (u2, n2, b)"
    and "ca_key b = ca_key a" and "ca_message_id a = PStr m" and "ca_message_id b = PStr m"
    and "succeeded (fst (conv_run spec_store_ops T reg steps w) ! i)"
  shows "\<exists>sid. fst (conv_run spec_store_ops T reg steps w) ! j = Inl (DuplicateMessage sid (PStr m))"
  using assms(1-6,10)
proof (induction steps arbitrary: w i j)
  case Nil
  then show ?case by simp
next
  case (Cons st steps)
  obtain u n c where st: "st = (u, n, c)" by (cases st) auto
  obtain out w1 where h: "conv_handle spec_store_ops T reg u n c w = (out, w1)" by fastforce
  obtain outs w2 where r: "conv_run spec_store_ops T reg steps w1 = (outs, w2)" by fastforce
  note named = well_named_step [OF h Cons.prems(1) [unfolded st] Cons.prems(2)]
  obtain j' where j: "j = Suc j'" using Cons.prems(3) by (cases j) auto
  show ?case
  proof (cases i)
    case 0
    with Cons.prems(5,7) h r obtain res where c: "c = a" "out = Inr res"
      by (auto simp: st succeeded_iff)
    with success_processes [of T reg u n c w res w1] h assms(8) Cons.prems(2)
    obtain sid where "processed_on (cw_store w1) (ca_key a) sid m" by auto
    have "fst (conv_run spec_store_ops T reg steps w1) ! j' = Inl (DuplicateMessage sid (PStr m))"
      using run_rejects_processed [OF \<open>processed_on (cw_store w1) (ca_key a) sid m\<close> named, of j' u2 n2 b]
        Cons.prems(4,6) j assms(7,9) by (simp add: st)
    with h r j show ?thesis by (auto simp: st)
  next
    case (Suc i')
    with Cons.IH [OF named, of i' j'] Cons.prems(3-7) j h r show ?thesis by (auto simp: st)
  qed
qed

end
