(* ===== verification/Engine_Trace.thy ===== *)
theory Engine_Trace
  imports Engine Echo
begin

section \<open>What a turn returns and what it leaves in the trace\<close>

text \<open>
  \<open>Engine.run_turn\<close> with the recording tracer: the exact result and trace record for a backend
  that keeps the event-stream contract, what holds of the trace record on every outcome, and the
  independence of the trace from the environment.
\<close>

definition tool_entries :: "agent_event list \<Rightarrow> pyv dict list" where
  "tool_entries evs =
     List.map_filter (\<lambda>e. case ev_tool e of
         None \<Rightarrow> None
       | Some te \<Rightarrow> if ev_kind e = TOOL_CALL_COMPLETED
                     then Some (tool_entry (tool_name te) (tool_input te) (tool_output te)) else None) evs"

definition open_record :: "turn_args \<Rightarrow> trace_record" where
  "open_record a =
     \<lparr>tr_name = ''agent-turn'', tr_dims = turn_dims a, tr_input = PStr (ta_prompt a),
      tr_metadata = (case ta_trace_metadata a of None \<Rightarrow> [] | Some d \<Rightarrow> d), tr_tools = [],
      tr_output = PNone, tr_error = None, tr_finished = False\<rparr>"

lemma tool_entries_Nil [simp]: "tool_entries [] = []"
  by (simp add: tool_entries_def List.map_filter_def)

lemma tool_entries_Cons:
  "tool_entries (e # evs) =
     (case ev_tool e of
        None \<Rightarrow> []
      | Some te \<Rightarrow> if ev_kind e = TOOL_CALL_COMPLETED
                    then [tool_entry (tool_name te) (tool_input te) (tool_output te)] else [])
     @ tool_entries evs"
  by (simp add: tool_entries_def List.map_filter_def split: option.splits)

lemma tool_entries_visible: "tool_entries (visible st evs) = tool_entries evs"
  by (induction evs) (auto simp: visible_def tool_entries_Cons split: option.splits)

lemma start_memory [simp]:
  "mem_start_trace ''agent-turn'' (turn_dims a) (PStr (ta_prompt a)) (ta_trace_metadata a) t
     = (length t, t @ [open_record a])"
  by (simp add: mem_start_trace_def open_record_def)

text \<open>The tracer's last record while a turn runs: its tools grow, its other fields stay.\<close>

lemma note_tool_last:
  assumes "es_tracer s = t @ [r]"
  shows "note_tool memory_tracer_ops (length t) ev s
           = s\<lparr>es_tracer := t @ [r\<lparr>tr_tools := tr_tools r @ tool_entries [ev]\<rparr>]\<rparr>"
proof -
  have "s\<lparr>es_tracer := t @ [r]\<rparr> = s" using assms by simp
  then show ?thesis
    using assms by (simp add: note_tool_def tool_entries_Cons mem_last split: option.splits)
qed

lemma note_tools_last:
  assumes "es_tracer s = t @ [r]"
  shows "note_tools memory_tracer_ops (length t) evs s
           = s\<lparr>es_tracer := t @ [r\<lparr>tr_tools := tr_tools r @ tool_entries evs\<rparr>]\<rparr>"
  using assms
proof (induction evs arbitrary: s r)
  case Nil
  then have "s\<lparr>es_tracer := t @ [r]\<rparr> = s" by simp
  then show ?case by simp
next
  case (Cons ev evs)
  show ?case
    by (simp add: Cons.IH note_tool_last [OF Cons.prems])
      (simp add: tool_entries_Cons)
qed

definition turn_outcome :: "agent_event \<Rightarrow> exn + agent_run_result" where
  \<comment> \<open>what a terminal event makes of the turn\<close>
  "turn_outcome t =
     (case ev_kind t of
        ERROR \<Rightarrow> Inl (AgentRunFailed (the (ev_error t)))
      | _ \<Rightarrow> Inr (the (ev_result t)))"

definition closed_record :: "turn_args \<Rightarrow> agent_event list \<Rightarrow> agent_event \<Rightarrow> trace_record" where
  "closed_record a pre t =
     (open_record a)\<lparr>tr_tools := tool_entries (pre @ [t]),
        tr_output := (case turn_outcome t of Inl _ \<Rightarrow> PNone | Inr r \<Rightarrow> final_text r),
        tr_error := (case turn_outcome t of Inl e \<Rightarrow> Some (exn_str e) | Inr _ \<Rightarrow> None),
        tr_finished := True\<rparr>"

lemma tool_entries_append: "tool_entries (xs @ ys) = tool_entries xs @ tool_entries ys"
  by (induction xs) (simp_all add: tool_entries_Cons)

text \<open>A callback that never raises only sees the events that the loop does not skip.\<close>

definition quiet :: "event_callback option \<Rightarrow> bool" where
  "quiet cb \<longleftrightarrow> (\<forall>f. cb = Some f \<longrightarrow> (\<forall>seen ev. f seen ev = None))"

definition heard :: "event_callback option \<Rightarrow> agent_event list \<Rightarrow> agent_event list" where
  "heard cb evs = (case cb of None \<Rightarrow> [] | Some f \<Rightarrow> evs)"

lemma deliver_quiet: "quiet cb \<Longrightarrow> deliver cb ev s = (None, s\<lparr>es_seen := es_seen s @ heard cb [ev]\<rparr>)"
  by (cases cb) (simp_all add: deliver_def quiet_def heard_def)

lemma heard_Cons: "heard cb (ev # evs) = heard cb [ev] @ heard cb evs"
  by (cases cb) (simp_all add: heard_def)

lemma heard_Nil [simp]: "heard cb [] = []" and heard_None [simp]: "heard None evs = []"
  by (simp_all add: heard_def split: option.splits)

lemma note_tool_seen: "note_tool T sp ev (s\<lparr>es_seen := x\<rparr>) = (note_tool T sp ev s)\<lparr>es_seen := x\<rparr>"
  by (simp add: note_tool_def split: option.splits)

lemma note_tools_seen: "note_tools T sp evs (s\<lparr>es_seen := x\<rparr>) = (note_tools T sp evs s)\<lparr>es_seen := x\<rparr>"
  by (induction evs arbitrary: s) (simp_all add: note_tool_seen)

lemma consume_quiet:
  assumes "quiet cb" and "list_all plain_event pre"
  shows "consume T st cb sp (pre @ evs) tail result s
     = consume T st cb sp evs tail result
         ((note_tools T sp (visible st pre) s)\<lparr>es_seen := es_seen s @ heard cb (visible st pre)\<rparr>)"
  using assms(2)
proof (induction pre arbitrary: s)
  case Nil
  then show ?case by (simp add: visible_def)
next
  case (Cons ev pre)
  then have "\<not> terminal_kind (ev_kind ev)" and IH: "consume T st cb sp (pre @ evs) tail result x
      = consume T st cb sp evs tail result
         ((note_tools T sp (visible st pre) x)\<lparr>es_seen := es_seen x @ heard cb (visible st pre)\<rparr>)" for x
    by (simp_all add: plain_event_def)
  then show ?case
    by (cases st)
      (simp_all add: deliver_quiet [OF assms(1)] visible_def terminal_kind_def Let_def note_tool_seen note_tools_seen
        heard_Cons [of cb ev pre] heard_Cons [of cb ev "filter f pre" for f])
qed

lemma turn_body_valid:
  assumes pre: "list_all plain_event pre" and good: "good_terminal t" and cb: "quiet cb"
    and last: "es_tracer s = tr @ [open_record a]"
  shows "turn_body memory_tracer_ops caps (pre @ [t], None) cb (length tr) s
           = (turn_outcome t, s\<lparr>es_tracer := tr @ [closed_record a pre t],
                es_seen := es_seen s @ heard cb (visible (supports_streaming caps) (pre @ [t]))\<rparr>)"
proof -
  have unfinished: "\<not> tr_finished (open_record a)" and no_tools: "tr_tools (open_record a) = []"
    by (simp_all add: open_record_def)
  let ?s1 = "s\<lparr>es_tracer := tr @ [(open_record a)\<lparr>tr_tools := tool_entries pre\<rparr>]\<rparr>"
  have visible_pre: "note_tools memory_tracer_ops (length tr) (visible st pre) s = ?s1" for st
    by (simp add: note_tools_last [OF last] tool_entries_visible no_tools)
  have note_t: "note_tool memory_tracer_ops (length tr) t ?s1
      = s\<lparr>es_tracer := tr @ [(open_record a)\<lparr>tr_tools := tool_entries (pre @ [t])\<rparr>]\<rparr>"
    by (simp add: note_tool_last tool_entries_append)
  have heard_t: "heard cb (visible st (pre @ [t])) = heard cb (visible st pre) @ heard cb [t]" for st
    using good by (cases cb) (auto simp: heard_def visible_def good_terminal_def)
  note facts = consume_quiet [OF cb pre] deliver_quiet [OF cb] visible_pre note_tool_seen note_t heard_t
  from good consider
      (ok) r where "ev_kind t = TURN_COMPLETED" "ev_result t = Some r"
    | (err) er where "ev_kind t = ERROR" "ev_error t = Some er"
    by (auto simp: good_terminal_def)
  then show ?thesis
  proof cases
    case ok
    then show ?thesis
      by (simp add: turn_body_def facts Let_def mem_last unfinished closed_record_def turn_outcome_def)
  next
    case err
    then show ?thesis
      by (simp add: turn_body_def facts Let_def mem_last unfinished closed_record_def turn_outcome_def)
  qed
qed

lemma run_turn_valid:
  assumes "resolve_backend reg (ta_backend_name a) = Inr be"
    and "be_run be (turn_request (be_capabilities be) a) = (pre @ [t], None)"
    and "list_all plain_event pre" and "good_terminal t" and "quiet (ta_on_event a)"
  shows "run_turn memory_tracer_ops reg a s =
    (turn_outcome t,
     s\<lparr>es_tracer := es_tracer s @ [closed_record a pre t],
       es_runs := es_runs s @ [(ta_backend_name a, turn_request (be_capabilities be) a)],
       es_seen := es_seen s @ heard (ta_on_event a) (visible (supports_streaming (be_capabilities be)) (pre @ [t]))\<rparr>)"
proof -
  let ?s1 = "s\<lparr>es_tracer := es_tracer s @ [open_record a],
               es_runs := es_runs s @ [(ta_backend_name a, turn_request (be_capabilities be) a)]\<rparr>"
  have fin: "tr_finished (closed_record a pre t)"
    by (simp add: closed_record_def)
  have "turn_body memory_tracer_ops (be_capabilities be) (pre @ [t], None) (ta_on_event a)
      (length (es_tracer s)) ?s1
      = (turn_outcome t, ?s1\<lparr>es_tracer := es_tracer s @ [closed_record a pre t],
          es_seen := es_seen s @ heard (ta_on_event a) (visible (supports_streaming (be_capabilities be)) (pre @ [t]))\<rparr>)"
    by (subst turn_body_valid [OF assms(3,4,5)]) simp_all
  with fin assms(1,2) show ?thesis
    by (simp add: run_turn_def leave_span_def Let_def mem_last)
qed

subsection \<open>Every outcome\<close>

definition stamp :: "trace_record \<Rightarrow> string \<times> trace_dims \<times> pyv \<times> pyv dict" where
  \<comment> \<open>the fields fixed when the span starts\<close>
  "stamp r = (tr_name r, tr_dims r, tr_input r, tr_metadata r)"

definition running :: "memory_tracer \<Rightarrow> trace_record \<Rightarrow> memory_tracer \<Rightarrow> bool" where
  \<comment> \<open>the tracer is \<open>t\<close> plus one open record with the stamp of \<open>r0\<close>\<close>
  "running t r0 t' \<longleftrightarrow> (\<exists>r. t' = t @ [r] \<and> stamp r = stamp r0 \<and> \<not> tr_finished r)"

definition settled :: "memory_tracer \<Rightarrow> trace_record \<Rightarrow> exn + agent_run_result \<Rightarrow> memory_tracer \<Rightarrow> bool" where
  "settled t r0 out t' \<longleftrightarrow>
     (\<exists>r. t' = t @ [r] \<and> stamp r = stamp r0 \<and> tr_finished r
        \<and> (case out of
             Inr res \<Rightarrow> tr_error r = None \<and> tr_output r = final_text res
           | Inl e \<Rightarrow> tr_output r = PNone \<and> tr_error r \<in> {Some (exn_str e), Some no_terminal_text}))"

lemma stamp_upd [simp]:
  "stamp (r\<lparr>tr_tools := x\<rparr>) = stamp r" "stamp (r\<lparr>tr_output := o1\<rparr>) = stamp r"
  "stamp (r\<lparr>tr_error := e1\<rparr>) = stamp r" "stamp (r\<lparr>tr_finished := b\<rparr>) = stamp r"
  by (simp_all add: stamp_def)

lemma running_note_tool:
  assumes "running t r0 (es_tracer s)"
  shows "running t r0 (es_tracer (note_tool memory_tracer_ops (length t) ev s))"
proof -
  from assms obtain r where "es_tracer s = t @ [r]" "stamp r = stamp r0" "\<not> tr_finished r"
    by (auto simp: running_def)
  then show ?thesis by (simp add: running_def note_tool_last)
qed

lemma consume_running:
  assumes "running t r0 (es_tracer s)"
    and "consume memory_tracer_ops st cb (length t) evs tail result s = (out, s')"
  shows "case out of
           Inr _ \<Rightarrow> running t r0 (es_tracer s')
         | Inl e \<Rightarrow> running t r0 (es_tracer s') \<or> settled t r0 (Inl e) (es_tracer s')"
  using assms
proof (induction evs arbitrary: result s)
  case Nil
  then show ?case by (auto split: option.splits)
next
  case (Cons ev evs)
  obtain x s1 where d: "deliver cb ev s = (x, s1)" by fastforce
  then have r1: "running t r0 (es_tracer s1)"
    using Cons.prems(1) by (auto dest: deliver_frame)
  let ?s2 = "note_tool memory_tracer_ops (length t) ev s1"
  have r2: "running t r0 (es_tracer ?s2)" using r1 by (rule running_note_tool)
  then obtain r where r: "es_tracer ?s2 = t @ [r]" "stamp r = stamp r0" "\<not> tr_finished r"
    by (auto simp: running_def)
  have fin: "settled t r0 (Inl (AgentRunFailed er))
      (mem_finish (length t) PNone (Some (error_text er)) (es_tracer ?s2))" for er
    using r by (simp add: settled_def mem_last)
  from Cons.prems Cons.IH [OF Cons.prems(1)] Cons.IH [OF r2] d r1 r2 fin show ?case
    by (auto simp: Let_def split: if_splits option.splits)
qed

lemma settled_exit:
  "settled t r0 (Inl e) t' \<Longrightarrow> mem_exit (length t) x t' = t'"
  by (auto simp: settled_def mem_last)

lemma running_exit:
  "running t r0 t' \<Longrightarrow> settled t r0 (Inl e) (mem_exit (length t) (Some e) t')"
  by (auto simp: running_def settled_def mem_last)

lemma turn_body_settled:
  assumes "running t r0 (es_tracer s)"
  shows "settled t r0 (fst (turn_body memory_tracer_ops caps stream cb (length t) s))
    (es_tracer (snd (leave_span memory_tracer_ops (length t)
       (turn_body memory_tracer_ops caps stream cb (length t) s))))"
proof -
  obtain out s' where c: "consume memory_tracer_ops (supports_streaming caps) cb (length t)
      (fst stream) (snd stream) None s = (out, s')"
    by fastforce
  note cr = consume_running [OF assms c]
  show ?thesis
  proof (cases out)
    case (Inl e)
    with cr have "running t r0 (es_tracer s') \<or> settled t r0 (Inl e) (es_tracer s')" by simp
    with c Inl show ?thesis
      by (auto simp: turn_body_def leave_span_def settled_exit running_exit)
  next
    case (Inr x)
    with cr obtain r where r: "es_tracer s' = t @ [r]" "stamp r = stamp r0" "\<not> tr_finished r"
      by (auto simp: running_def)
    with c Inr show ?thesis
      by (cases x) (auto simp: turn_body_def leave_span_def settled_def mem_last)
  qed
qed

lemma run_turn_settled:
  assumes "resolve_backend reg (ta_backend_name a) = Inr be"
  shows "settled (es_tracer s) (open_record a) (fst (run_turn memory_tracer_ops reg a s))
           (es_tracer (snd (run_turn memory_tracer_ops reg a s)))"
proof -
  have "running (es_tracer s) (open_record a) (es_tracer s @ [open_record a])"
    by (simp add: running_def open_record_def)
  then show ?thesis
    using assms
      turn_body_settled [of "es_tracer s" "open_record a"
        "s\<lparr>es_tracer := es_tracer s @ [open_record a],
           es_runs := es_runs s @ [(ta_backend_name a, turn_request (be_capabilities be) a)]\<rparr>"
        "be_capabilities be" "be_run be (turn_request (be_capabilities be) a)" "ta_on_event a"]
    by (simp add: run_turn_def leave_span_def Let_def)
qed

text \<open>The record of started runs is written before the loop and read nowhere in it.\<close>

lemma consume_frame:
  "consume T st cb sp evs tail result (s\<lparr>es_runs := r\<rparr>)
     = map_prod id (\<lambda>x. x\<lparr>es_runs := r\<rparr>) (consume T st cb sp evs tail result s)"
proof (induction evs arbitrary: result s)
  case Nil
  then show ?case by (simp split: option.splits)
next
  case (Cons ev evs)
  have d: "deliver cb ev (s\<lparr>es_runs := r\<rparr>) = map_prod id (\<lambda>x. x\<lparr>es_runs := r\<rparr>) (deliver cb ev s)"
    by (simp add: deliver_def split: option.splits)
  have n: "note_tool T sp ev (x\<lparr>es_runs := r\<rparr>) = (note_tool T sp ev x)\<lparr>es_runs := r\<rparr>" for x
    by (simp add: note_tool_def split: option.splits)
  obtain x s1 where ds: "deliver cb ev s = (x, s1)" by fastforce
  show ?case
    using Cons.IH by (auto simp: d ds n Let_def split: option.splits)
qed

lemma turn_body_frame:
  "turn_body T c stream cb sp (s\<lparr>es_runs := r\<rparr>)
     = map_prod id (\<lambda>x. x\<lparr>es_runs := r\<rparr>) (turn_body T c stream cb sp s)"
proof -
  obtain x s1 where "consume T (supports_streaming c) cb sp (fst stream) (snd stream) None s = (x, s1)"
    by fastforce
  then show ?thesis
    by (cases x) (auto simp: turn_body_def consume_frame split: option.splits)
qed

subsection \<open>Properties\<close>

definition demo_registry :: engine_registry where
  "demo_registry = register_backend ''fake'' (\<lambda>_. Inr echo_backend) empty_registry"

definition demo_args :: turn_args where
  "demo_args =
     \<lparr>ta_backend_name = ''fake'', ta_prompt = ''hi'', ta_cwd = ''/w'', ta_env = [(''TOKEN'', ''s3cret'')],
      ta_backend_thread_id = PNone, ta_model = None, ta_metadata = Some [(''user_id'', PStr ''u1'')],
      ta_trace_metadata = None, ta_on_event = None\<rparr>"

definition demo_state :: "memory_tracer engine_state" where
  "demo_state = \<lparr>es_tracer = [], es_runs = [], es_seen = []\<rparr>"

lemma demo_resolve: "resolve_backend demo_registry (ta_backend_name demo_args) = Inr echo_backend"
  by (simp add: demo_registry_def demo_args_def)

text \<open>C1. On a backend whose events keep the event-stream contract, and with no \<open>on_event\<close>
  callback or one that never raises, \<open>Engine.run_turn\<close> returns the result that TURN_COMPLETED
  carries, or raises \<open>AgentRunFailed\<close> with the error that ERROR carries; it starts exactly one run,
  with the thread handle passed on only if the backend can resume; the callback sees the events in
  order, less the message deltas of a backend that does not stream; and the turn leaves exactly one
  closed trace record, with the completed tool calls in order, the final text or the error, and
  nothing else changed.\<close>

theorem run_turn_valid_stream:
  assumes "resolve_backend reg (ta_backend_name a) = Inr be"
    and "be_run be (turn_request (be_capabilities be) a) = (evs, None)"
    and "assert_valid_event_stream evs = Inr ()" and "quiet (ta_on_event a)"
  shows "run_turn memory_tracer_ops reg a s =
    (turn_outcome (last evs),
     s\<lparr>es_tracer := es_tracer s @ [closed_record a (butlast evs) (last evs)],
       es_runs := es_runs s @ [(ta_backend_name a, turn_request (be_capabilities be) a)],
       es_seen := es_seen s @ heard (ta_on_event a) (visible (supports_streaming (be_capabilities be)) evs)\<rparr>)"
proof -
  from assms(3) obtain pre t where "evs = pre @ [t]" "list_all plain_event pre" "good_terminal t"
    by (auto simp: valid_stream_iff)
  with assms run_turn_valid [of reg a be pre t s] show ?thesis by simp
qed

theorem run_turn_valid_stream_witness:
  "fst (run_turn memory_tracer_ops demo_registry demo_args demo_state)
     = Inr (agent_run_result PNone (PStr ''echo: hi'') no_usage)"
proof -
  let ?req = "turn_request (be_capabilities echo_backend) demo_args"
  have run: "be_run echo_backend ?req = (fst (echo_run ?req), None)"
    by (simp add: echo_run_def Let_def)
  have on: "quiet (ta_on_event demo_args)" by (simp add: demo_args_def quiet_def)
  show ?thesis
    using run_turn_valid_stream [OF demo_resolve run echo_valid(1) on, of demo_state]
    by (simp add: echo_run_def Let_def turn_outcome_def turn_request_def demo_args_def)
qed

text \<open>C2. On every outcome of a turn that reached a backend - an invalid stream, an exception out of
  the backend, a callback that raises - the recording tracer gains exactly one record, with the
  turn's name, dimensions, prompt and trace metadata; it is finished, and carries the final text
  without an error when the turn returns, an error and no output when it raises.\<close>

theorem run_turn_closes_trace:
  assumes "resolve_backend reg (ta_backend_name a) = Inr be"
    and "run_turn memory_tracer_ops reg a s = (out, s')"
  shows "\<exists>r. es_tracer s' = es_tracer s @ [r] \<and> tr_name r = ''agent-turn''
    \<and> tr_dims r = turn_dims a \<and> tr_input r = PStr (ta_prompt a)
    \<and> tr_metadata r = (case ta_trace_metadata a of None \<Rightarrow> [] | Some m \<Rightarrow> m) \<and> tr_finished r
    \<and> (case out of
         Inr res \<Rightarrow> tr_error r = None \<and> tr_output r = final_text res
       | Inl e \<Rightarrow> tr_output r = PNone \<and> tr_error r \<in> {Some (exn_str e), Some no_terminal_text})"
proof -
  from run_turn_settled [OF assms(1), of s] assms(2)
  have "settled (es_tracer s) (open_record a) out (es_tracer s')" by simp
  then show ?thesis by (simp add: settled_def stamp_def open_record_def)
qed

theorem run_turn_closes_trace_witness:
  "\<exists>r. es_tracer (snd (run_turn memory_tracer_ops demo_registry demo_args demo_state)) = [r]
     \<and> tr_input r = PStr ''hi'' \<and> tr_finished r"
proof -
  obtain out s' where "run_turn memory_tracer_ops demo_registry demo_args demo_state = (out, s')"
    by fastforce
  with run_turn_closes_trace [OF demo_resolve this] show ?thesis
    by (auto simp: demo_state_def demo_args_def)
qed

text \<open>The trace does not depend on the environment, the working directory or the metadata
  beyond its workspace, user and session: two turns that differ only there, on a backend that
  yields the same events for both, give the same result and leave any tracer in the same state.\<close>

theorem run_turn_trace_ignores_env:
  assumes "resolve_backend reg (ta_backend_name a) = Inr be"
    and "b = a\<lparr>ta_env := env, ta_cwd := cwd, ta_metadata := md\<rparr>"
    and "turn_dims b = turn_dims a"
    and "be_run be (turn_request (be_capabilities be) b) = be_run be (turn_request (be_capabilities be) a)"
  shows "fst (run_turn T reg b s) = fst (run_turn T reg a s)
    \<and> es_tracer (snd (run_turn T reg b s)) = es_tracer (snd (run_turn T reg a s))"
proof -
  obtain sp t1 where st: "op_start_trace T ''agent-turn'' (turn_dims a) (PStr (ta_prompt a))
      (ta_trace_metadata a) (es_tracer s) = (sp, t1)" by fastforce
  have "s\<lparr>es_tracer := t1, es_runs := r\<rparr> = (s\<lparr>es_tracer := t1\<rparr>)\<lparr>es_runs := r\<rparr>" for r by simp
  with assms st show ?thesis
    by (simp add: run_turn_def leave_span_def Let_def turn_body_frame)
qed

theorem run_turn_trace_ignores_env_witness:
  "es_tracer (snd (run_turn memory_tracer_ops demo_registry
       (demo_args\<lparr>ta_env := [], ta_cwd := ''/x'', ta_metadata := Some [(''k'', PStr ''v''), (''user_id'', PStr ''u1'')]\<rparr>)
       demo_state))
     = es_tracer (snd (run_turn memory_tracer_ops demo_registry demo_args demo_state))"
  (is "es_tracer (snd (run_turn _ _ ?b _)) = _")
proof -
  have "turn_dims ?b = turn_dims demo_args"
    by (simp add: turn_dims_def demo_args_def dget_def)
  moreover have "be_run echo_backend (turn_request (be_capabilities echo_backend) ?b)
      = be_run echo_backend (turn_request (be_capabilities echo_backend) demo_args)"
    by (simp add: echo_run_def turn_request_def demo_args_def)
  ultimately show ?thesis
    using run_turn_trace_ignores_env [OF demo_resolve refl] by blast
qed

end
