(* ===== verification/Conversation_Properties.thy ===== *)
theory Conversation_Properties
  imports Conversation_History Engine_Trace
begin

section \<open>Properties of conversations\<close>

text \<open>
  The facts of the specification, carried over to \<open>MemorySessionStore\<close> and
  \<open>SqliteSessionStore\<close> through their interpretations. Every history here uses identifiers that
  are drawn fresh, as \<open>uuid4\<close> draws them, and message ids that are strings or absent.
\<close>

subsection \<open>Round counting on the specification\<close>

definition turns_on :: "sess_key \<Rightarrow> conv_step list \<Rightarrow> (exn + agent_run_result) list \<Rightarrow> nat" where
  "turns_on key steps outs =
     length (filter (\<lambda>(st, out). ca_key (snd (snd st)) = key \<and> succeeded out) (zip steps outs))"

lemma turns_on_simps [simp]:
  "turns_on key [] outs = 0"
  "turns_on key ((u, n, a) # steps) (out # outs)
     = (if ca_key a = key \<and> succeeded out then 1 else 0) + turns_on key steps outs"
  by (simp_all add: turns_on_def)

definition first_rounds :: "sess_key \<Rightarrow> conv_step list \<Rightarrow> int option" where
  \<comment> \<open>the budget given with the first message of a key\<close>
  "first_rounds key steps = map_option (\<lambda>st. ca_max_rounds (snd (snd st)))
     (List.find (\<lambda>st. ca_key (snd (snd st)) = key) steps)"

lemma first_rounds_simps [simp]:
  "first_rounds key [] = None"
  "first_rounds key ((u, n, a) # steps) = (if ca_key a = key then Some (ca_max_rounds a) else first_rounds key steps)"
  by (simp_all add: first_rounds_def)

definition budget_kept :: "session \<Rightarrow> bool" where
  "budget_kept x \<longleftrightarrow> 0 \<le> ss_round_count x \<and> (ss_round_count x \<le> ss_max_rounds x \<or> ss_round_count x = 0)"

lemma step_counts:
  assumes h: "conv_handle spec_store_ops T reg uuid now a w = (out, w')"
    and opt: "is_opt_str (ca_message_id a)" and wf: "spec_wf (cw_store w)"
  obtains y where "sp_sessions (cw_store w') (ca_key a) = Some y"
    and "ss_round_count y = ss_round_count (session_for (cw_store w) uuid a) + (if succeeded out then 1 else 0)"
    and "ss_max_rounds y = ss_max_rounds (session_for (cw_store w) uuid a)"
    and "budget_kept (session_for (cw_store w) uuid a) \<Longrightarrow> budget_kept y"
proof -
  let ?x = "session_for (cw_store w) uuid a"
  have k: "key_of ?x = ca_key a" by (rule session_for_key [OF wf])
  note l = opened_lookup [of "cw_store w" uuid a]
  show ?thesis
  proof (rule step_cases [OF h opt wf])
    fix r
    assume lt: "ss_round_count ?x < ss_max_rounds ?x" and o: "out = Inr r"
      and s: "cw_store w' = turn_recorded now ?x a r (opened (cw_store w) uuid a)"
    let ?y = "with_turn (res_backend_thread_id r) now ?x"
    have "sp_sessions (cw_store w') (ca_key a) = Some ?y"
      using k by (simp add: s turn_recorded_sel)
    then show ?thesis by (rule that) (use lt o in \<open>auto simp: budget_kept_def\<close>)
  qed (use l in \<open>auto intro!: that [of ?x]\<close>)
qed

lemma rounds_counted:
  assumes "well_named steps (cw_store w)" and "spec_wf (cw_store w)"
    and "conv_run spec_store_ops T reg steps w = (outs, w')"
    and "\<And>x. sp_sessions (cw_store w) key = Some x \<Longrightarrow> budget_kept x"
  shows "case sp_sessions (cw_store w') key of
      None \<Rightarrow> sp_sessions (cw_store w) key = None \<and> first_rounds key steps = None
    | Some y \<Rightarrow> budget_kept y
        \<and> ss_round_count y = int (turns_on key steps outs)
            + (case sp_sessions (cw_store w) key of None \<Rightarrow> 0 | Some x \<Rightarrow> ss_round_count x)
        \<and> Some (ss_max_rounds y) = (case sp_sessions (cw_store w) key of
              None \<Rightarrow> first_rounds key steps | Some x \<Rightarrow> Some (ss_max_rounds x))"
  using assms
proof (induction steps arbitrary: w outs)
  case Nil
  then show ?case by (auto split: option.splits)
next
  case (Cons st steps)
  obtain u n a where st: "st = (u, n, a)" by (cases st) auto
  obtain out w1 where h: "conv_handle spec_store_ops T reg u n a w = (out, w1)" by fastforce
  obtain outs1 where r: "conv_run spec_store_ops T reg steps w1 = (outs1, w')" and outs: "outs = out # outs1"
    using Cons.prems(3) h by (auto simp: st split: prod.splits)
  have opt: "is_opt_str (ca_message_id a)" and new: "\<not> known_id (cw_store w) u"
    using Cons.prems(1) by (simp_all add: st well_named_def)
  note named = well_named_step [OF h Cons.prems(1) [unfolded st] Cons.prems(2)]
  show ?case
  proof (cases "ca_key a = key")
    case False
    then have same: "sp_sessions (cw_store w1) key = sp_sessions (cw_store w) key"
      using step_frame(5) [OF h opt Cons.prems(2) new] by metis
    from False have eqs: "turns_on key (st # steps) outs = turns_on key steps outs1"
      "first_rounds key (st # steps) = first_rounds key steps"
      by (simp_all add: st outs)
    show ?thesis
      unfolding eqs by (rule Cons.IH [OF named r, unfolded same]) (rule Cons.prems(4))
  next
    case True
    obtain y where y: "sp_sessions (cw_store w1) key = Some y"
      and c: "ss_round_count y = ss_round_count (session_for (cw_store w) u a) + (if succeeded out then 1 else 0)"
      and m: "ss_max_rounds y = ss_max_rounds (session_for (cw_store w) u a)"
      and b: "budget_kept (session_for (cw_store w) u a) \<Longrightarrow> budget_kept y"
      using step_counts [OF h opt Cons.prems(2)] True by metis
    have "budget_kept (session_for (cw_store w) u a)"
      using Cons.prems(4) True by (auto simp: session_for_def budget_kept_def split: option.splits)
    with b y have "\<And>x. sp_sessions (cw_store w1) key = Some x \<Longrightarrow> budget_kept x" by simp
    from Cons.IH [OF named r this] y c m True show ?thesis
      by (auto simp: st outs session_for_def split: option.splits)
  qed
qed

lemma well_named_legal:
  "well_named steps (cw_store w) \<Longrightarrow> spec_wf (cw_store w)
     \<Longrightarrow> conv_legal (\<lambda>_. True) (\<lambda>_ _. True) T reg steps w"
proof (induction steps arbitrary: w)
  case Nil
  then show ?case by simp
next
  case (Cons st steps)
  obtain u n a where st: "st = (u, n, a)" by (cases st) auto
  obtain out w1 where h: "conv_handle spec_store_ops T reg u n a w = (out, w1)" by fastforce
  note named = well_named_step [OF h Cons.prems(1) [unfolded st] Cons.prems(2)]
  have "handle_legal (\<lambda>_. True) (\<lambda>_ _. True) T reg u n a (cw_store w) (cw_engine w)"
    using Cons.prems(1) fresh_forI
    by (auto simp: st well_named_def handle_legal_def Let_def split: sum.splits)
  with Cons.IH [OF named] h show ?case by (simp add: st)
qed

lemma spec_wf_empty [simp]: "spec_wf empty_spec"
  by (simp add: spec_wf_def empty_spec_def)

lemma mem_run:
  assumes "cw_store w = mem_init" and "well_named steps empty_spec"
  shows "conv_run spec_store_ops T reg steps (mem.conv_abs w)
           = map_prod id mem.conv_abs (conv_run memory_store_ops T reg steps w)"
    and "mem_inv (cw_store (snd (conv_run memory_store_ops T reg steps w)))"
proof -
  have "conv_legal (\<lambda>_. True) (\<lambda>_ _. True) T reg steps (mem.conv_abs w)"
    using assms by (intro well_named_legal) (simp_all add: mem.conv_abs_sel mem_abs_init)
  from mem.run_refines [OF _ this] assms(1) mem_inv_init
  show "conv_run spec_store_ops T reg steps (mem.conv_abs w)
           = map_prod id mem.conv_abs (conv_run memory_store_ops T reg steps w)"
    and "mem_inv (cw_store (snd (conv_run memory_store_ops T reg steps w)))" by simp_all
qed

lemma run_other_key:
  assumes "well_named steps (cw_store w)" and "spec_wf (cw_store w)"
    and "\<forall>st \<in> set steps. ca_key (snd (snd st)) \<noteq> key"
  shows "sp_sessions (cw_store (snd (conv_run spec_store_ops T reg steps w))) key = sp_sessions (cw_store w) key
    \<and> spec_wf (cw_store (snd (conv_run spec_store_ops T reg steps w)))"
  using assms
proof (induction steps arbitrary: w)
  case Nil
  then show ?case by simp
next
  case (Cons st steps)
  obtain u n a where st: "st = (u, n, a)" by (cases st) auto
  obtain out w1 where h: "conv_handle spec_store_ops T reg u n a w = (out, w1)" by fastforce
  have opt: "is_opt_str (ca_message_id a)" and new: "\<not> known_id (cw_store w) u" and k: "key \<noteq> ca_key a"
    using Cons.prems(1,3) by (auto simp: st well_named_def)
  from Cons.IH [OF well_named_step [OF h Cons.prems(1) [unfolded st] Cons.prems(2)]] Cons.prems(3) h
    step_frame(5) [OF h opt Cons.prems(2) new k]
  show ?case by (auto simp: st Let_def split: prod.splits)
qed

lemma started_turn:
  assumes h: "conv_handle spec_store_ops T reg u n b w = (out, w')"
    and opt: "is_opt_str (ca_message_id b)" and wf: "spec_wf (cw_store w)"
    and y: "sp_sessions (cw_store w) (ca_key b) = Some y"
    and started: "es_runs (cw_engine w') \<noteq> es_runs (cw_engine w)"
  shows "\<exists>be. resolve_backend reg (ss_backend_name y) = Inr be
    \<and> es_runs (cw_engine w') = es_runs (cw_engine w)
        @ [(ss_backend_name y, turn_request (be_capabilities be) (turn_args_of y b))]"
proof -
  have x: "session_for (cw_store w) u b = y" using y by (simp add: session_for_def)
  have "\<exists>rr. run_turn T reg (turn_args_of y b) (cw_engine w) = (rr, cw_engine w')"
    by (rule step_cases [OF h opt wf]) (use started x in auto)
  then obtain rr where "run_turn T reg (turn_args_of y b) (cw_engine w) = (rr, cw_engine w')" ..
  with run_turn_runs [of T reg "turn_args_of y b" "cw_engine w"] started show ?thesis
    by (auto simp: turn_args_of_def split: sum.splits)
qed

lemma mem_handle:
  assumes "mem_inv (cw_store w)" and "fresh_for (mem_abs (cw_store w)) u a"
    and "is_opt_str (ca_message_id a)" and "conv_handle memory_store_ops T reg u n a w = (out, w')"
  shows "conv_handle spec_store_ops T reg u n a (mem.conv_abs w) = (out, mem.conv_abs w')"
    and "mem_inv (cw_store w')"
proof -
  have "handle_legal (\<lambda>_. True) (\<lambda>_ _. True) T reg u n a (mem_abs (cw_store w)) (cw_engine w)"
    using assms(2,3) by (auto simp: handle_legal_def Let_def split: sum.splits)
  from mem.handle_refines [OF assms(1) this assms(4)]
  show "conv_handle spec_store_ops T reg u n a (mem.conv_abs w) = (out, mem.conv_abs w')"
    and "mem_inv (cw_store w')" by auto
qed

subsection \<open>Properties\<close>

definition demo_msg :: "string \<Rightarrow> pyv \<Rightarrow> conv_args" where
  "demo_msg thread mid =
     \<lparr>ca_workspace_id = ''ws1'', ca_channel = ''web'', ca_thread_key = thread, ca_text = ''hi'',
      ca_cwd = ''/w'', ca_env = [], ca_backend_name = ''fake'', ca_max_rounds = 1, ca_message_id = mid,
      ca_model = None, ca_user_id = None, ca_trace_metadata = None\<rparr>"

definition demo_steps :: "conv_step list" where
  "demo_steps =
     [(''s1'', 1, demo_msg ''t1'' (PStr ''m1'')), (''s2'', 2, demo_msg ''t2'' (PStr ''m1'')),
      (''s3'', 3, demo_msg ''t1'' (PStr ''m1'')), (''s4'', 4, demo_msg ''t1'' (PStr ''m2''))]"

definition demo_world :: "'s \<Rightarrow> ('s, memory_tracer) conv_world" where
  "demo_world s = \<lparr>cw_store = s, cw_engine = demo_state\<rparr>"

lemma demo_world_sel [simp]: "cw_store (demo_world s) = s" "cw_engine (demo_world s) = demo_state"
  by (simp_all add: demo_world_def)

lemma demo_named: "well_named demo_steps empty_spec"
  by (simp add: well_named_def demo_steps_def demo_msg_def known_id_def empty_spec_def)

lemma demo_steps_nth:
  "length demo_steps = 4" "demo_steps ! 0 = (''s1'', 1, demo_msg ''t1'' (PStr ''m1''))"
  "demo_steps ! 2 = (''s3'', 3, demo_msg ''t1'' (PStr ''m1''))"
  by (simp_all add: demo_steps_def)

lemma demo_msg_sel [simp]:
  "ca_key (demo_msg t m) = (''ws1'', ''web'', t)" "ca_message_id (demo_msg t m) = m"
  by (simp_all add: demo_msg_def ca_key_def)

text \<open>C3. In any history of \<open>handle\<close> calls on a fresh \<open>MemorySessionStore\<close>, a message whose id
  was already handled with success on the same conversation is answered with
  \<open>DuplicateMessage\<close>, whatever happened in between.\<close>

theorem handle_deduplicates:
  assumes "cw_store w = mem_init" and "well_named steps empty_spec"
    and "i < j" and "j < length steps"
    and "steps ! i = (u1, n1, a)" and "steps ! j = (u2, n2, b)"
    and "ca_key b = ca_key a" and "ca_message_id a = PStr m" and "ca_message_id b = PStr m"
    and "succeeded (fst (conv_run memory_store_ops T reg steps w) ! i)"
  shows "\<exists>sid. fst (conv_run memory_store_ops T reg steps w) ! j = Inl (DuplicateMessage sid (PStr m))"
proof -
  have w: "cw_store (mem.conv_abs w) = empty_spec"
    using assms(1) by (simp add: mem.conv_abs_sel mem_abs_init)
  show ?thesis
    using run_deduplicates [of steps "mem.conv_abs w" i j u1 n1 a u2 n2 b m T reg]
      mem_run(1) [OF assms(1,2), of T reg] assms(2-10) w by simp
qed

theorem handle_deduplicates_witness:
  "\<exists>sid. fst (conv_run memory_store_ops memory_tracer_ops demo_registry demo_steps (demo_world mem_init)) ! 2
     = Inl (DuplicateMessage sid (PStr ''m1''))"
proof (rule handle_deduplicates [OF _ demo_named _ _ demo_steps_nth(2,3)])
  show "succeeded (fst (conv_run memory_store_ops memory_tracer_ops demo_registry demo_steps (demo_world mem_init)) ! 0)"
    by code_simp
qed (simp_all add: demo_steps_nth)

text \<open>C4. In any such history the number of turns that succeeded on a conversation is the round
  count stored for it, and never exceeds the budget given with its first message.\<close>

theorem handle_round_budget:
  assumes "cw_store w = mem_init" and "well_named steps empty_spec"
    and "conv_run memory_store_ops T reg steps w = (outs, w')"
  shows "case sp_sessions (mem_abs (cw_store w')) key of
      None \<Rightarrow> first_rounds key steps = None
    | Some x \<Rightarrow> first_rounds key steps = Some (ss_max_rounds x)
        \<and> ss_round_count x = int (turns_on key steps outs)
        \<and> int (turns_on key steps outs) \<le> max 0 (ss_max_rounds x)"
proof -
  have e: "cw_store (mem.conv_abs w) = empty_spec"
    using assms(1) by (simp add: mem.conv_abs_sel mem_abs_init)
  have n: "sp_sessions (mem_abs (cw_store w)) key = None"
    by (simp add: assms(1) mem_abs_init) (simp add: empty_spec_def)
  have named: "well_named steps (cw_store (mem.conv_abs w))" and wf: "spec_wf (cw_store (mem.conv_abs w))"
    using assms(2) by (simp_all add: e)
  have r: "conv_run spec_store_ops T reg steps (mem.conv_abs w) = (outs, mem.conv_abs w')"
    using mem_run(1) [OF assms(1,2), of T reg] assms(3) by simp
  show ?thesis
    using rounds_counted [OF named wf r, of key] n
    by (auto simp: mem.conv_abs_sel budget_kept_def max_def split: option.splits)
qed

theorem handle_round_budget_witness:
  "(case sp_sessions (mem_abs (cw_store (snd (conv_run memory_store_ops memory_tracer_ops demo_registry
        demo_steps (demo_world mem_init))))) (''ws1'', ''web'', ''t1'') of
      None \<Rightarrow> False | Some x \<Rightarrow> ss_round_count x = 1 \<and> ss_max_rounds x = 1)"
proof -
  let ?key = "(''ws1'', ''web'', ''t1'') :: sess_key"
  let ?run = "conv_run memory_store_ops memory_tracer_ops demo_registry demo_steps (demo_world mem_init)"
  have f: "first_rounds ?key demo_steps = Some 1" and n: "turns_on ?key demo_steps (fst ?run) = 1"
    by code_simp+
  have r: "?run = (fst ?run, snd ?run)" by simp
  show ?thesis
    using handle_round_budget [OF demo_world_sel(1) demo_named r, of ?key]
    unfolding f n by (simp split: option.splits)
qed

text \<open>C7. A turn that the backend failed leaves in the store only the session it opened: the round is
  not counted and the message is not marked, so the same message sent again runs the same turn,
  and succeeds if the backend now does.\<close>

theorem failed_turn_retries:
  assumes "mem_inv (cw_store w)" and "\<not> known_id (mem_abs (cw_store w)) uuid"
    and "is_opt_str (ca_message_id a)"
    and "conv_handle memory_store_ops T reg uuid now a w = (Inl (AgentRunFailed er), w')"
    and "run_turn T reg' (turn_args_of (session_for (mem_abs (cw_store w)) uuid a) a) (cw_engine w') = (Inr r, es)"
  shows "mem_abs (cw_store w') = opened (mem_abs (cw_store w)) uuid a
    \<and> fst (conv_handle memory_store_ops T reg' uuid' now' a w') = Inr r"
proof -
  let ?sp = "mem_abs (cw_store w)" and ?x = "session_for (mem_abs (cw_store w)) uuid a"
  note h = mem_handle(1) [OF assms(1) fresh_forI [OF assms(2)] assms(3,4)]
    and i = mem_handle(2) [OF assms(1) fresh_forI [OF assms(2)] assms(3,4)]
  have wf: "spec_wf (cw_store (mem.conv_abs w))" using mem.spec_ok [OF assms(1)] by (simp add: mem.conv_abs_sel)
  from step_cases [OF h assms(3) wf] have st: "mem_abs (cw_store w') = opened ?sp uuid a"
    and d: "\<not> is_duplicate ?sp ?x a" and n: "ss_round_count ?x < ss_max_rounds ?x"
    by (auto simp: mem.conv_abs_sel)
  have look: "sp_sessions (mem_abs (cw_store w')) (ca_key a) = Some ?x" by (simp add: st opened_lookup)
  then have x: "session_for (mem_abs (cw_store w')) uuid' a = ?x" by (simp add: session_for_def)
  have dup: "is_duplicate (mem_abs (cw_store w')) ?x a = is_duplicate ?sp ?x a"
    by (simp add: st is_duplicate_opened)
  have fresh: "fresh_for (mem_abs (cw_store w')) uuid' a" using look by (simp add: fresh_for_def)
  obtain out w2 where h2: "conv_handle memory_store_ops T reg' uuid' now' a w' = (out, w2)" by fastforce
  from mem_handle(1) [OF i fresh assms(3) h2]
  have "out = fst (conv_handle spec_store_ops T reg' uuid' now' a (mem.conv_abs w'))" by auto
  also have "\<dots> = Inr r"
    using d n assms(5) by (simp add: conv_handle_spec [OF assms(3)] Let_def mem.conv_abs_sel x dup)
  finally show ?thesis using st h2 by simp
qed

definition failing_backend :: backend where
  "failing_backend = echo_backend\<lparr>be_run := (\<lambda>_.
     ([(agent_event ERROR)\<lparr>ev_error := Some \<lparr>err_kind = RATE_LIMIT, err_message = ''busy'', err_retriable = True, err_raw = None\<rparr>\<rparr>],
      None))\<rparr>"

theorem failed_turn_retries_witness:
  "let reg = register_backend ''fake'' (\<lambda>_. Inr failing_backend) empty_registry;
       a = demo_msg ''t1'' (PStr ''m1'');
       w' = snd (conv_handle memory_store_ops memory_tracer_ops reg ''s1'' 1 a (demo_world mem_init))
   in fst (conv_handle memory_store_ops memory_tracer_ops demo_registry ''s2'' 2 a w')
        = Inr (agent_run_result PNone (PStr ''echo: hi'') no_usage)"
proof -
  let ?reg = "register_backend ''fake'' (\<lambda>_. Inr failing_backend) empty_registry"
  let ?a = "demo_msg ''t1'' (PStr ''m1'')" and ?w = "demo_world mem_init"
  let ?er = "\<lparr>err_kind = RATE_LIMIT, err_message = ''busy'', err_retriable = True, err_raw = None\<rparr>"
  let ?h = "conv_handle memory_store_ops memory_tracer_ops ?reg ''s1'' 1 ?a ?w"
  let ?t = "run_turn memory_tracer_ops demo_registry (turn_args_of (session_for empty_spec ''s1'' ?a) ?a) (cw_engine (snd ?h))"
  have "fst ?h = Inl (AgentRunFailed ?er)" by code_simp
  then have h: "?h = (Inl (AgentRunFailed ?er), snd ?h)" by (metis prod.collapse)
  have "fst ?t = Inr (agent_run_result PNone (PStr ''echo: hi'') no_usage)" by code_simp
  then have t: "?t = (Inr (agent_run_result PNone (PStr ''echo: hi'') no_usage), snd ?t)" by (metis prod.collapse)
  have "\<not> known_id (mem_abs (cw_store ?w)) ''s1''"
    by (simp add: mem_abs_init known_id_def) (simp add: empty_spec_def)
  from failed_turn_retries [OF _ this _ h, of demo_registry _ _ "''s2''" 2] t
  show ?thesis by (simp add: Let_def mem_inv_init mem_abs_init)
qed

text \<open>The backend of a conversation: the one its session was opened with, or, before there is a
  session, the one that the message names.\<close>

definition backend_of :: "store_spec \<Rightarrow> conv_args \<Rightarrow> string" where
  "backend_of sp a = (case sp_sessions sp (ca_key a) of Some x \<Rightarrow> ss_backend_name x | None \<Rightarrow> ca_backend_name a)"

text \<open>C6. After a turn that succeeded, whatever happens on other conversations, the next run started
  on this one goes to the backend that the session was opened with (before that turn, or by it),
  whichever backend the new message names, with the thread handle that turn returned if the
  backend can resume, and without a handle if it cannot.\<close>

theorem turn_resumes_thread:
  assumes "mem_inv (cw_store w)" and "\<not> known_id (mem_abs (cw_store w)) u1" and "is_opt_str (ca_message_id a)"
    and "conv_handle memory_store_ops T reg u1 n1 a w = (Inr r, w1)"
    and "well_named steps (mem_abs (cw_store w1))"
    and "\<forall>st \<in> set steps. ca_key (snd (snd st)) \<noteq> ca_key a"
    and "conv_run memory_store_ops T reg steps w1 = (outs, w2)"
    and "ca_key b = ca_key a" and "is_opt_str (ca_message_id b)"
    and "conv_handle memory_store_ops T reg u2 n2 b w2 = (out, w3)"
    and "es_runs (cw_engine w3) \<noteq> es_runs (cw_engine w2)"
  shows "\<exists>be req. resolve_backend reg (backend_of (mem_abs (cw_store w)) a) = Inr be
    \<and> es_runs (cw_engine w3) = es_runs (cw_engine w2) @ [(backend_of (mem_abs (cw_store w)) a, req)]
    \<and> req_prompt req = ca_text b
    \<and> req_backend_thread_id req = (if supports_resume (be_capabilities be) then res_backend_thread_id r else PNone)"
proof -
  let ?x = "session_for (mem_abs (cw_store w)) u1 a"
  let ?y = "with_turn (res_backend_thread_id r) n1 ?x"
  note h1 = mem_handle(1) [OF assms(1) fresh_forI [OF assms(2)] assms(3,4)]
    and i1 = mem_handle(2) [OF assms(1) fresh_forI [OF assms(2)] assms(3,4)]
  have wf0: "spec_wf (cw_store (mem.conv_abs w))" and wf1: "spec_wf (cw_store (mem.conv_abs w1))"
    using mem.spec_ok assms(1) i1 by (simp_all add: mem.conv_abs_sel)
  have k: "key_of ?x = ca_key a" using session_for_key [OF wf0] by (simp add: mem.conv_abs_sel)
  have y1: "sp_sessions (cw_store (mem.conv_abs w1)) (ca_key a) = Some ?y"
    by (rule step_cases [OF h1 assms(3) wf0]) (use k in \<open>auto simp: mem.conv_abs_sel turn_recorded_sel\<close>)
  have named: "well_named steps (cw_store (mem.conv_abs w1))" using assms(5) by (simp add: mem.conv_abs_sel)
  from mem.run_refines [OF i1 well_named_legal [OF named wf1, of T reg]] assms(7)
  have r2: "conv_run spec_store_ops T reg steps (mem.conv_abs w1) = (outs, mem.conv_abs w2)"
    and i2: "mem_inv (cw_store w2)" by auto
  from run_other_key [OF named wf1 assms(6), of T reg] r2 y1
  have y2: "sp_sessions (cw_store (mem.conv_abs w2)) (ca_key b) = Some ?y"
    and wf2: "spec_wf (cw_store (mem.conv_abs w2))" by (simp_all add: assms(8))
  have "fresh_for (mem_abs (cw_store w2)) u2 b" using y2 by (simp add: fresh_for_def mem.conv_abs_sel)
  from started_turn [OF mem_handle(1) [OF i2 this assms(9,10)] assms(9) wf2 y2] assms(11)
  obtain be where "resolve_backend reg (ss_backend_name ?y) = Inr be"
    and "es_runs (cw_engine w3) = es_runs (cw_engine w2)
      @ [(ss_backend_name ?y, turn_request (be_capabilities be) (turn_args_of ?y b))]"
    by (auto simp: mem.conv_abs_sel)
  moreover have "ss_backend_name ?y = backend_of (mem_abs (cw_store w)) a"
    by (simp add: backend_of_def session_for_def with_turn_def new_session_def split: option.splits)
  ultimately show ?thesis
    by (intro exI [of _ be] exI [of _ "turn_request (be_capabilities be) (turn_args_of ?y b)"])
      (simp add: turn_request_def turn_args_of_def)
qed

definition resuming_registry :: engine_registry where
  "resuming_registry = register_backend ''fake'' (\<lambda>_. Inr (echo_backend
     \<lparr>be_capabilities := (be_capabilities echo_backend)\<lparr>supports_resume := True\<rparr>,
      be_run := (\<lambda>req. ([(agent_event TURN_COMPLETED)
        \<lparr>ev_result := Some (agent_run_result (PStr ''th1'') (PStr ''ok'') no_usage)\<rparr>], None))\<rparr>)) empty_registry"

theorem turn_resumes_thread_witness:
  "let a = (demo_msg ''t1'' PNone)\<lparr>ca_max_rounds := 2\<rparr>;
       w1 = snd (conv_handle memory_store_ops memory_tracer_ops resuming_registry ''s1'' 1 a (demo_world mem_init));
       w3 = snd (conv_handle memory_store_ops memory_tracer_ops resuming_registry ''s2'' 2 (a\<lparr>ca_backend_name := ''other''\<rparr>) w1)
   in \<exists>req. es_runs (cw_engine w3) = es_runs (cw_engine w1) @ [(''fake'', req)]
        \<and> req_backend_thread_id req = PStr ''th1''"
proof -
  let ?a = "(demo_msg ''t1'' PNone)\<lparr>ca_max_rounds := 2\<rparr>" and ?w = "demo_world mem_init"
  let ?r = "agent_run_result (PStr ''th1'') (PStr ''ok'') no_usage"
  let ?h1 = "conv_handle memory_store_ops memory_tracer_ops resuming_registry ''s1'' 1 ?a ?w"
  let ?h2 = "conv_handle memory_store_ops memory_tracer_ops resuming_registry ''s2'' 2 (?a\<lparr>ca_backend_name := ''other''\<rparr>) (snd ?h1)"
  have "fst ?h1 = Inr ?r" by code_simp
  then have h1: "?h1 = (Inr ?r, snd ?h1)" by (metis prod.collapse)
  have h2: "?h2 = (fst ?h2, snd ?h2)" by simp
  have run: "length (es_runs (cw_engine (snd ?h2))) = 2" "length (es_runs (cw_engine (snd ?h1))) = 1" by code_simp+
  have "\<not> known_id (mem_abs (cw_store ?w)) ''s1''"
    by (simp add: mem_abs_init known_id_def) (simp add: empty_spec_def)
  moreover have "is_opt_str (ca_message_id ?a)" by (simp add: demo_msg_def)
  moreover have "es_runs (cw_engine (snd ?h2)) \<noteq> es_runs (cw_engine (snd ?h1))" using run by auto
  moreover have "backend_of (mem_abs (cw_store ?w)) ?a = ''fake''"
    by (simp add: backend_of_def mem_abs_init demo_msg_def) (simp add: empty_spec_def)
  ultimately obtain be req where "resolve_backend resuming_registry ''fake'' = Inr be"
    and "es_runs (cw_engine (snd ?h2)) = es_runs (cw_engine (snd ?h1)) @ [(''fake'', req)]"
    and "req_backend_thread_id req = (if supports_resume (be_capabilities be) then PStr ''th1'' else PNone)"
    using turn_resumes_thread [OF _ _ _ h1 _ _ _ _ _ h2, of "[]" "[]"]
    by (auto simp: mem_inv_init well_named_def ca_key_def)
  moreover from this(1) have "supports_resume (be_capabilities be)"
    by (auto simp: resuming_registry_def split: if_splits)
  ultimately show ?thesis by (auto simp: Let_def)
qed

end
