(* ===== verification/Store_Agreement.thy ===== *)
theory Store_Agreement
  imports Conversation_Properties
begin

section \<open>The two stores agree\<close>

text \<open>
  \<open>MemorySessionStore\<close> and \<open>SqliteSessionStore\<close> give the same answers: on every legal
  sequence of store calls, and under \<open>ConversationService\<close> on every history whose values the
  database can hold. What SQLite cannot hold is a number outside 64 bits and a thread handle that
  is not text.
\<close>

definition fits_64 :: "int \<Rightarrow> bool" where
  "fits_64 i \<longleftrightarrow> - (2 ^ 63) \<le> i \<and> i < 2 ^ 63"

definition text_handles :: "engine_registry \<Rightarrow> bool" where
  \<comment> \<open>the results of the registered backends carry thread handles that are strings or absent\<close>
  "text_handles reg \<longleftrightarrow>
     (\<forall>name be req ev r. resolve_backend reg name = Inr be \<longrightarrow> ev \<in> set (fst (be_run be req))
        \<longrightarrow> ev_result ev = Some r \<longrightarrow> is_opt_str (res_backend_thread_id r))"

text \<open>
  What a database can hold, as an interface: the sessions it accepts stay accepted along a conversation whose
  messages and whose backends respect its limits.
\<close>

definition result_handles :: "(pyv \<Rightarrow> bool) \<Rightarrow> engine_registry \<Rightarrow> bool" where
  "result_handles ok reg \<longleftrightarrow>
     (\<forall>name be req ev r. resolve_backend reg name = Inr be \<longrightarrow> ev \<in> set (fst (be_run be req))
        \<longrightarrow> ev_result ev = Some r \<longrightarrow> ok (res_backend_thread_id r))"

lemma text_handles_result: "text_handles reg \<longleftrightarrow> result_handles is_opt_str reg"
  by (simp add: text_handles_def result_handles_def)

lemma result_handles_turn:
  "result_handles ok reg \<Longrightarrow> fst (run_turn T reg a s) = Inr r \<Longrightarrow> ok (res_backend_thread_id r)"
  using run_turn_result_event [of T reg a s r "snd (run_turn T reg a s)"]
  unfolding result_handles_def by (metis fst_conv prod.collapse)

locale row_limits =
  fixes accepts :: "session \<Rightarrow> bool"
    and accepts_msg :: "string \<Rightarrow> string \<Rightarrow> bool"
    and fits_step :: "conv_step \<Rightarrow> bool"
    and fits_handle :: "pyv \<Rightarrow> bool"
  assumes new_ok: "fits_step (u, n, a) \<Longrightarrow> accepts (new_session u (ca_key a) (ca_backend_name a) (ca_max_rounds a))"
    and turn_ok: "\<lbrakk>accepts x; 0 \<le> ss_round_count x; ss_round_count x < ss_max_rounds x; fits_handle tid\<rbrakk>
         \<Longrightarrow> accepts (with_turn tid now x)"
    and msg_ok: "\<lbrakk>fits_step (u, n, a); ca_message_id a = PStr m; accepts x\<rbrakk> \<Longrightarrow> accepts_msg (ss_id x) m"
begin

definition held :: "store_spec \<Rightarrow> bool" where
  "held sp \<longleftrightarrow> (\<forall>key x. sp_sessions sp key = Some x \<longrightarrow> accepts x \<and> 0 \<le> ss_round_count x)"

lemma heldD: "held sp \<Longrightarrow> sp_sessions sp key = Some x \<Longrightarrow> accepts x \<and> 0 \<le> ss_round_count x"
  unfolding held_def by blast

lemma held_empty: "held empty_spec"
  by (simp add: held_def empty_spec_def)

lemma held_upd:
  "held sp \<Longrightarrow> accepts x \<Longrightarrow> 0 \<le> ss_round_count x \<Longrightarrow> sp_sessions sp' = (sp_sessions sp)(key \<mapsto> x) \<Longrightarrow> held sp'"
  unfolding held_def by (simp only: fun_upd_apply) (metis option.inject)

lemma session_for_held:
  "held sp \<Longrightarrow> fits_step (u, n, a) \<Longrightarrow> accepts (session_for sp u a) \<and> 0 \<le> ss_round_count (session_for sp u a)"
  by (auto simp: session_for_def heldD dest: new_ok split: option.splits)

lemma opened_held: "held sp \<Longrightarrow> fits_step (u, n, a) \<Longrightarrow> held (opened sp u a)"
  by (auto simp: opened_def split: option.splits dest: new_ok
      intro!: held_upd [of sp "new_session u (ca_key a) (ca_backend_name a) (ca_max_rounds a)" _ "ca_key a"])

lemma held_step:
  assumes h: "conv_handle spec_store_ops T reg u n a w = (out, w')"
    and "is_opt_str (ca_message_id a)" and "spec_wf (cw_store w)"
    and held: "held (cw_store w)" and fits: "fits_step (u, n, a)" and handles: "result_handles fits_handle reg"
  shows "held (cw_store w')"
proof (rule step_cases [OF assms(1-3)])
  note x = session_for_held [OF held fits] and op = opened_held [OF held fits]
  fix r
  assume lt: "ss_round_count (session_for (cw_store w) u a) < ss_max_rounds (session_for (cw_store w) u a)"
    and t: "run_turn T reg (turn_args_of (session_for (cw_store w) u a) a) (cw_engine w) = (Inr r, cw_engine w')"
    and s: "cw_store w' = turn_recorded n (session_for (cw_store w) u a) a r (opened (cw_store w) u a)"
  have "accepts (with_turn (res_backend_thread_id r) n (session_for (cw_store w) u a))"
    using x lt result_handles_turn [OF handles, of _ _ _ r] t by (metis fst_conv turn_ok)
  with op x show ?thesis by (auto simp: s turn_recorded_sel intro: held_upd)
qed (simp_all add: opened_held [OF held fits] held)

lemma named_legal:
  assumes "result_handles fits_handle reg"
  shows "\<lbrakk>well_named steps (cw_store w); spec_wf (cw_store w); held (cw_store w); \<forall>st \<in> set steps. fits_step st\<rbrakk>
     \<Longrightarrow> conv_legal accepts accepts_msg T reg steps w"
proof (induction steps arbitrary: w)
  case Nil
  then show ?case by simp
next
  case (Cons st steps)
  obtain u n a where st: "st = (u, n, a)" by (cases st) auto
  obtain out w1 where h: "conv_handle spec_store_ops T reg u n a w = (out, w1)" by fastforce
  have opt: "is_opt_str (ca_message_id a)" and new: "\<not> known_id (cw_store w) u" and fits: "fits_step (u, n, a)"
    using Cons.prems(1,4) by (auto simp: st well_named_def)
  note x = session_for_held [OF Cons.prems(3) fits]
  have "handle_legal accepts accepts_msg T reg u n a (cw_store w) (cw_engine w)"
    using opt fresh_forI [OF new] new_ok [OF fits] x msg_ok [OF fits] result_handles_turn [OF assms]
    by (auto simp: handle_legal_def Let_def split: sum.splits intro!: turn_ok)
  with Cons.IH [OF well_named_step [OF h Cons.prems(1) [unfolded st] Cons.prems(2)]
      held_step [OF h opt Cons.prems(2,3) fits assms]] Cons.prems(4) h
  show ?case by (simp add: st)
qed

end

interpretation sqlite_rows: row_limits sqlite_accepts "\<lambda>_ _. True" "\<lambda>st. fits_64 (ca_max_rounds (snd (snd st)))" is_opt_str
  by unfold_locales (simp_all add: sqlite_accepts_def fits_64_def)

subsection \<open>Properties\<close>

text \<open>C8. On every legal sequence of calls - a session saved is one the store handed out, a message
  is marked on a known session, identifiers are fresh, values fit the columns - both stores give
  the replies of the specification, a map from (workspace, channel, thread) to sessions with a set
  of processed messages.\<close>

theorem stores_answer_alike:
  assumes "legal_calls empty_spec cs" and "\<forall>c \<in> set cs. admits sqlite_accepts (\<lambda>_ _. True) c"
  shows "fst (run_calls memory_store_ops cs mem_init) = fst (spec_calls cs empty_spec)
    \<and> fst (run_calls (sqlite_store_ops fr) cs sqlite_init) = fst (spec_calls cs empty_spec)"
proof -
  have any: "\<forall>c \<in> set cs. admits (\<lambda>_. True) (\<lambda>_ _. True) c"
  proof
    fix c show "admits (\<lambda>_. True) (\<lambda>_ _. True) c" by (cases c) auto
  qed
  show ?thesis
    using mem.replies_refine [OF mem_inv_init _ any] sqlite.replies_refine [OF sqlite_inv_init _ assms(2), of fr]
      assms(1) by (simp add: mem_abs_init sqlite_abs_init)
qed

definition demo_calls :: "store_call list" where
  "demo_calls =
     (let key = (''ws1'', ''web'', ''t1''); x = new_session ''s1'' key ''codex'' 50 in
      [CGetOrCreate ''s1'' key ''codex'' 50, CSave (with_turn (PStr ''th'') 7 x), CGetOrCreate ''s2'' key ''claude'' 9,
       CIsProcessed ''s1'' ''m1'', CMarkProcessed ''s1'' ''m1'', CIsProcessed ''s1'' ''m1''])"

lemma demo_calls_legal: "legal_calls empty_spec demo_calls"
proof -
  let ?key = "(''ws1'', ''web'', ''t1'') :: sess_key"
  let ?x = "new_session ''s1'' ?key ''codex'' 50"
  have e: "sp_sessions empty_spec k = None" for k by (simp add: empty_spec_def)
  have k: "known_id (put_session x sp) (ss_id x)" for x sp
    by (rule known_id_lookup [of _ "key_of x"]) simp
  show ?thesis
    using k [of "with_turn (PStr ''th'') 7 ?x" "put_session ?x empty_spec"]
    by (simp add: demo_calls_def Let_def e) (simp add: known_id_def e)
qed

theorem stores_answer_alike_witness:
  "fst (run_calls memory_store_ops demo_calls mem_init) = fst (run_calls (sqlite_store_ops (\<lambda>_. ''0.5'')) demo_calls sqlite_init)
    \<and> last (fst (run_calls memory_store_ops demo_calls mem_init)) = RBool True"
proof -
  have "\<forall>c \<in> set demo_calls. admits sqlite_accepts (\<lambda>_ _. True) c"
    by (simp add: demo_calls_def Let_def sqlite_accepts_def with_turn_def new_session_def)
  moreover have "last (fst (run_calls memory_store_ops demo_calls mem_init)) = RBool True" by code_simp
  ultimately show ?thesis
    using stores_answer_alike [OF demo_calls_legal, of "\<lambda>_. ''0.5''"] by simp
qed

text \<open>C5. \<open>ConversationService\<close> cannot tell the stores apart: over histories with fresh
  identifiers, budgets of 64 bits and backends whose thread handles are text, every message has
  the same outcome and the engine ends in the same state - the same turns run, the same traces -
  on a fresh \<open>SqliteSessionStore\<close> as on a fresh \<open>MemorySessionStore\<close>.\<close>

theorem service_same_on_both_stores:
  assumes "well_named steps empty_spec" and "\<forall>st \<in> set steps. fits_64 (ca_max_rounds (snd (snd st)))"
    and "text_handles reg"
    and "cw_store w = mem_init" and "cw_store v = sqlite_init" and "cw_engine v = cw_engine w"
  shows "fst (conv_run (sqlite_store_ops fr) T reg steps v) = fst (conv_run memory_store_ops T reg steps w)
    \<and> cw_engine (snd (conv_run (sqlite_store_ops fr) T reg steps v))
        = cw_engine (snd (conv_run memory_store_ops T reg steps w))"
proof -
  have same: "sqlite.conv_abs v = mem.conv_abs w"
    using assms(4-6) by (simp add: sqlite.conv_abs_def mem.conv_abs_def mem_abs_init sqlite_abs_init)
  have e: "cw_store (mem.conv_abs w) = empty_spec" by (simp add: mem.conv_abs_sel assms(4) mem_abs_init)
  have "conv_legal sqlite_accepts (\<lambda>_ _. True) T reg steps (sqlite.conv_abs v)"
    unfolding same using assms(1,2) by (intro sqlite_rows.named_legal) (simp_all add: e sqlite_rows.held_empty assms(3) flip: text_handles_result)
  with sqlite.outcomes_refine [of v T reg steps fr] sqlite_inv_init assms(5)
  have "fst (conv_run (sqlite_store_ops fr) T reg steps v) = fst (conv_run spec_store_ops T reg steps (mem.conv_abs w))"
    "cw_engine (snd (conv_run (sqlite_store_ops fr) T reg steps v))
       = cw_engine (snd (conv_run spec_store_ops T reg steps (mem.conv_abs w)))"
    by (simp_all add: same)
  with mem_run(1) [OF assms(4,1), of T reg] show ?thesis by (simp add: mem.conv_abs_sel)
qed

theorem service_same_on_both_stores_witness:
  "fst (conv_run (sqlite_store_ops (\<lambda>_. ''0.5'')) memory_tracer_ops demo_registry demo_steps (demo_world sqlite_init))
     = fst (conv_run memory_store_ops memory_tracer_ops demo_registry demo_steps (demo_world mem_init))"
proof -
  have "\<forall>st \<in> set demo_steps. fits_64 (ca_max_rounds (snd (snd st)))"
    by (simp add: demo_steps_def demo_msg_def fits_64_def)
  moreover have "text_handles demo_registry"
    by (auto simp: text_handles_def demo_registry_def echo_run_def Let_def split: if_splits)
  ultimately show ?thesis
    using service_same_on_both_stores [OF demo_named, of demo_registry "demo_world mem_init" "demo_world sqlite_init"
        "\<lambda>_. ''0.5''" memory_tracer_ops] by simp
qed

end
