(* ===== verification/Context.thy ===== *)
theory Context
  imports Errors
begin

section \<open>Workspace resolution\<close>

text \<open>
  \<open>engine/context\<close>: the configuration, user-configuration and secret providers, redaction, and
  \<open>WorkspaceResolver.resolve\<close>. A provider is a function that may raise (the OpenBao adapter
  does); the locale \<open>env_source\<close> states what the resolver needs of one: what it returns is a
  dictionary. A frozen set of keys is a HOL set; where its text is printed, the order in which
  Python enumerates it is an argument.
\<close>

subsection \<open>Providers\<close>

locale env_source =
  fixes get :: "'k \<Rightarrow> exn + string dict"
  assumes returns_dict: "get k = Inr d \<Longrightarrow> dict_wf d"

definition dict_or_empty :: "'v dict option \<Rightarrow> 'v dict" where
  "dict_or_empty v = (case v of None \<Rightarrow> [] | Some d \<Rightarrow> d)"

record layered_config =
  lc_global :: "string dict"
  lc_workspace :: "string \<Rightarrow> string dict option"

definition layered_get_env :: "layered_config \<Rightarrow> string \<Rightarrow> exn + string dict" where
  "layered_get_env c ws = Inr (dict_update (dict_of (lc_global c)) (dict_of (dict_or_empty (lc_workspace c ws))))"

type_synonym user_envs = "string \<Rightarrow> (string \<Rightarrow> string dict option) option"

definition user_config_get_env :: "user_envs \<Rightarrow> string \<times> string \<Rightarrow> exn + string dict" where
  \<comment> \<open>\<open>InMemoryUserConfigProvider.get_env\<close> at (user, workspace)\<close>
  "user_config_get_env m k =
     Inr (dict_of (case m (fst k) of None \<Rightarrow> [] | Some by_ws \<Rightarrow> dict_or_empty (by_ws (snd k))))"

definition memory_get_secrets :: "(string \<Rightarrow> string dict option) \<Rightarrow> string \<Rightarrow> exn + string dict" where
  "memory_get_secrets m ws = Inr (dict_of (dict_or_empty (m ws)))"

interpretation layered: env_source "layered_get_env c"
  by unfold_locales (auto simp: layered_get_env_def)

interpretation userconf: env_source "user_config_get_env m"
  by unfold_locales (auto simp: user_config_get_env_def)

interpretation memsec: env_source "memory_get_secrets m"
  by unfold_locales (auto simp: memory_get_secrets_def)

subsection \<open>Redaction\<close>

definition REDACTED :: string where
  "REDACTED = ''***''"

definition redact :: "string dict \<Rightarrow> string set \<Rightarrow> string dict" where
  "redact env sensitive = List.map (\<lambda>(k, v). (k, if k \<in> sensitive then REDACTED else v)) env"

lemma redact_keys [simp]: "dict_keys (redact env s) = dict_keys env"
  by (induction env) (auto simp: redact_def dict_keys_def)

lemma redact_get: "dict_get (redact env s) k = map_option (\<lambda>v. if k \<in> s then REDACTED else v) (dict_get env k)"
  by (induction env) (auto simp: redact_def dict_get_def)

text \<open>Redacted copies agree when the dictionaries agree outside the sensitive keys.\<close>

lemma redact_cong:
  assumes "dict_wf d" and "dict_keys d = dict_keys d'"
    and "\<And>k. k \<notin> s \<Longrightarrow> dict_get d k = dict_get d' k"
  shows "redact d s = redact d' s"
  using assms
proof (induction d arbitrary: d')
  case Nil
  then show ?case by (cases d') (auto simp: redact_def dict_keys_def)
next
  case (Cons kv d)
  obtain k v where kv: "kv = (k, v)" by (cases kv)
  from Cons.prems(2) obtain v' e where d': "d' = (k, v') # e" and ks: "dict_keys d = dict_keys e"
    by (cases d') (auto simp: dict_keys_def kv)
  have "k \<notin> set (dict_keys d)" and wf: "dict_wf d"
    using Cons.prems(1) by (simp_all add: kv dict_wf_def dict_keys_def)
  then have fresh: "dict_get d k = None" "dict_get e k = None"
    by (simp_all add: dict_get_None_iff ks)
  have "dict_get d j = dict_get e j" if "j \<notin> s" for j
    using Cons.prems(3) [OF that] fresh by (auto simp: kv d' dict_get_Cons split: if_splits)
  from Cons.IH [OF wf ks this] Cons.prems(3) [of k] show ?case
    by (auto simp: redact_def kv d' dict_get_Cons)
qed

subsection \<open>Workspace identifiers and paths\<close>

definition is_id_char :: "char \<Rightarrow> bool" where
  \<comment> \<open>the class \<open>[A-Za-z0-9_.-]\<close>\<close>
  "is_id_char c \<longleftrightarrow> is_alpha c \<or> is_digit c \<or> c = CHR ''_'' \<or> c = CHR ''.'' \<or> c = CHR ''-''"

definition validate_workspace_id :: "string \<Rightarrow> exn + unit" where
  "validate_workspace_id ws =
     (if ws = ''.'' \<or> ws = ''..'' \<or> \<not> (ws \<noteq> [] \<and> list_all is_id_char ws)
      then Inl (InvalidWorkspaceId ws) else Inr ())"

definition path_join :: "string \<Rightarrow> string \<Rightarrow> string" where
  \<comment> \<open>\<open>os.path.join(a, b)\<close> on POSIX\<close>
  "path_join a b =
     (if starts_with ''/'' b then b
      else if a = [] \<or> ends_with ''/'' a then a @ b
      else a @ ''/'' @ b)"

definition path_parts :: "string \<Rightarrow> string list" where
  \<comment> \<open>the components the kernel walks: empty ones and single dots are no step\<close>
  "path_parts p = filter (\<lambda>s. s \<noteq> [] \<and> s \<noteq> ''.'') (split_on CHR ''/'' p)"

lemma path_parts_snoc_slash: "path_parts (a @ ''/'' @ b) = path_parts a @ path_parts b"
  using split_on_append [of "CHR ''/''" a b] by (simp add: path_parts_def)

lemma ends_with_slash: "ends_with ''/'' a \<longleftrightarrow> (\<exists>p. a = p @ ''/'')"
  by (cases a rule: rev_cases) (auto simp: ends_with_def starts_with_def)

lemma path_parts_single:
  "CHR ''/'' \<notin> set b \<Longrightarrow> b \<noteq> [] \<Longrightarrow> b \<noteq> ''.'' \<Longrightarrow> path_parts b = [b]"
  by (simp add: path_parts_def split_on_no_sep)

lemma path_parts_join:
  assumes "CHR ''/'' \<notin> set b" and "b \<noteq> []" and "b \<noteq> ''.''"
  shows "path_parts (path_join a b) = path_parts a @ [b]"
proof -
  have b: "path_parts b = [b]" using assms by (rule path_parts_single)
  have "\<not> starts_with ''/'' b" using assms(1,2) by (cases b) (auto simp: starts_with_def)
  then have j: "path_join a b = (if a = [] \<or> ends_with ''/'' a then a @ b else a @ ''/'' @ b)"
    by (simp add: path_join_def)
  show ?thesis
  proof (cases "a = [] \<or> ends_with ''/'' a")
    case True
    then consider "a = []" | p where "a = p @ ''/''" using ends_with_slash by blast
    then show ?thesis
      using b path_parts_snoc_slash [of "butlast a" b] path_parts_snoc_slash [of "butlast a" "[]"]
      unfolding j if_P [OF True] by cases (auto simp: path_parts_def)
  next
    case False
    then show ?thesis using b path_parts_snoc_slash [of a b] by (simp add: j)
  qed
qed

lemma id_char_not_slash: "list_all is_id_char ws \<Longrightarrow> CHR ''/'' \<notin> set ws"
  by (auto simp: list_all_iff is_id_char_def is_alpha_def is_digit_def code_def)

subsection \<open>WorkspaceResolver\<close>

record workspace_spec =
  sp_allowed_skills :: "string list"
  sp_allowed_workflows :: "string list"
  sp_backend_name :: "string option"
  sp_max_rounds :: "int option"

definition default_spec :: workspace_spec where
  "default_spec = \<lparr>sp_allowed_skills = [], sp_allowed_workflows = [], sp_backend_name = None, sp_max_rounds = None\<rparr>"

record resolved_workspace =
  rw_workspace_id :: string
  rw_cwd :: string
  rw_env :: "string dict"
  rw_sensitive_keys :: "string set"
  rw_allowed_skills :: "string list"
  rw_allowed_workflows :: "string list"
  rw_backend_name :: "string option"
  rw_max_rounds :: "int option"

definition redacted_env :: "resolved_workspace \<Rightarrow> string dict" where
  "redacted_env w = redact (rw_env w) (rw_sensitive_keys w)"

definition no_float :: "pyfloat \<Rightarrow> string" where
  \<comment> \<open>no float is printed where this is used\<close>
  "no_float f = ''''"

definition repr_tuple :: "string list \<Rightarrow> string" where
  "repr_tuple xs =
     (case xs of [x] \<Rightarrow> ''('' @ repr_str x @ '',)''
      | _ \<Rightarrow> ''('' @ join_with '', '' (List.map repr_str xs) @ '')'')"

definition repr_set :: "string list \<Rightarrow> string" where
  "repr_set xs = (if xs = [] then ''set()'' else ''{'' @ join_with '', '' (List.map repr_str xs) @ ''}'')"

definition workspace_repr :: "string list \<Rightarrow> resolved_workspace \<Rightarrow> string" where
  \<comment> \<open>\<open>__repr__\<close>; \<open>order\<close> is the order in which the set of sensitive keys is enumerated\<close>
  "workspace_repr order w =
     ''ResolvedWorkspace(workspace_id='' @ repr_str (rw_workspace_id w) @ '', cwd='' @ repr_str (rw_cwd w)
     @ '', env='' @ py_repr no_float (str_dict (redacted_env w)) @ '', sensitive_keys='' @ repr_set order
     @ '', allowed_skills='' @ repr_tuple (rw_allowed_skills w)
     @ '', allowed_workflows='' @ repr_tuple (rw_allowed_workflows w)
     @ '', backend_name='' @ py_repr no_float (opt_str (rw_backend_name w))
     @ '', max_rounds='' @ (case rw_max_rounds w of None \<Rightarrow> ''None'' | Some i \<Rightarrow> int_str i) @ '')''"

record workspace_resolver =
  rs_config :: "string \<Rightarrow> exn + string dict"
  rs_secrets :: "string \<Rightarrow> exn + string dict"
  rs_root :: string
  rs_specs :: "string \<Rightarrow> workspace_spec option"
  rs_user_config :: "(string \<times> string \<Rightarrow> exn + string dict) option"

definition base_env :: "workspace_resolver \<Rightarrow> string \<Rightarrow> string option \<Rightarrow> exn + string dict" where
  "base_env rs ws uid =
     res_bind (rs_config rs ws)
       (\<lambda>env. case (uid, rs_user_config rs) of
          (Some u, Some get) \<Rightarrow> res_bind (get (u, ws)) (\<lambda>ue. Inr (dict_update env ue))
        | _ \<Rightarrow> Inr env)"

definition resolve :: "workspace_resolver \<Rightarrow> string \<Rightarrow> string option \<Rightarrow> exn + resolved_workspace" where
  "resolve rs ws uid =
     res_bind (validate_workspace_id ws)
       (\<lambda>_. res_bind (base_env rs ws uid)
         (\<lambda>env. res_bind (rs_secrets rs ws)
           (\<lambda>secret_env.
              let spec = (case rs_specs rs ws of None \<Rightarrow> default_spec | Some s \<Rightarrow> s) in
              Inr \<lparr>rw_workspace_id = ws, rw_cwd = path_join (rs_root rs) ws,
                   rw_env = dict_update env secret_env, rw_sensitive_keys = set (dict_keys secret_env),
                   rw_allowed_skills = sp_allowed_skills spec, rw_allowed_workflows = sp_allowed_workflows spec,
                   rw_backend_name = sp_backend_name spec, rw_max_rounds = sp_max_rounds spec\<rparr>)))"

text \<open>A resolver whose three sources keep their contract.\<close>

locale resolver_sources =
  cfg: env_source "rs_config rs" + sec: env_source "rs_secrets rs" for rs :: workspace_resolver +
  assumes user_source: "rs_user_config rs = Some get \<Longrightarrow> env_source get"
begin

lemma base_env_wf: "base_env rs ws uid = Inr d \<Longrightarrow> dict_wf d"
  using cfg.returns_dict [of ws]
  by (cases uid; cases "rs_user_config rs") (auto simp: base_env_def)

text \<open>What the child process sees: secrets, then the user's configuration, then the workspace's.\<close>

lemma resolve_lookup:
  assumes "resolve rs ws uid = Inr w"
  shows "\<exists>env sec. base_env rs ws uid = Inr env \<and> rs_secrets rs ws = Inr sec
    \<and> dict_wf (rw_env w) \<and> rw_sensitive_keys w = set (dict_keys sec)
    \<and> (\<forall>k. dict_get (rw_env w) k = (case dict_get sec k of None \<Rightarrow> dict_get env k | Some v \<Rightarrow> Some v))"
  using assms base_env_wf [of ws uid] sec.returns_dict [of ws]
  by (auto simp: resolve_def Let_def dict_get_update)

lemma base_lookup:
  assumes "base_env rs ws uid = Inr env" and "rs_config rs ws = Inr cfg"
  shows "case (uid, rs_user_config rs) of
      (Some u, Some get) \<Rightarrow> (\<exists>ue. get (u, ws) = Inr ue \<and>
         (\<forall>k. dict_get env k = (case dict_get ue k of None \<Rightarrow> dict_get cfg k | Some v \<Rightarrow> Some v)))
    | _ \<Rightarrow> env = cfg"
  using assms user_source
  by (auto simp: base_env_def dict_get_update env_source.returns_dict split: option.splits)

end

definition memory_resolver ::
  "layered_config \<Rightarrow> (string \<Rightarrow> string dict option) \<Rightarrow> string \<Rightarrow> (string \<Rightarrow> workspace_spec option)
     \<Rightarrow> user_envs option \<Rightarrow> workspace_resolver" where
  \<comment> \<open>the resolver over the in-memory providers\<close>
  "memory_resolver cfg secrets dir specs users =
     \<lparr>rs_config = layered_get_env cfg, rs_secrets = memory_get_secrets secrets, rs_root = dir,
      rs_specs = specs, rs_user_config = map_option user_config_get_env users\<rparr>"

lemma memory_resolver_sel [simp]:
  "rs_config (memory_resolver c s d p u) = layered_get_env c"
  "rs_secrets (memory_resolver c s d p u) = memory_get_secrets s"
  "rs_root (memory_resolver c s d p u) = d" "rs_specs (memory_resolver c s d p u) = p"
  "rs_user_config (memory_resolver c s d p u) = map_option user_config_get_env u"
  by (simp_all add: memory_resolver_def)

interpretation memres: resolver_sources "memory_resolver cfg secrets dir specs users"
  by unfold_locales (auto dest: layered.returns_dict memsec.returns_dict userconf.returns_dict)

end
