(* ===== verification/Context_Properties.thy ===== *)
theory Context_Properties
  imports Context
begin

section \<open>Properties of workspace resolution\<close>

text \<open>
  Which layer of the environment wins, where the working directory lies, and that what is meant to
  be shown (the redacted environment and the \<open>repr\<close>) does not depend on secret values.
\<close>

fun first_some :: "'a option list \<Rightarrow> 'a option" where
  "first_some [] = None"
| "first_some (x # xs) = (case x of None \<Rightarrow> first_some xs | Some v \<Rightarrow> Some v)"

definition layer :: "string dict option \<Rightarrow> string \<Rightarrow> string option" where
  "layer d k = dict_get (dict_of (dict_or_empty d)) k"

definition user_layer :: "user_envs option \<Rightarrow> string option \<Rightarrow> string \<Rightarrow> string \<Rightarrow> string option" where
  \<comment> \<open>no user, no provider of user configuration or no entry: no value\<close>
  "user_layer users uid ws k =
     (case (uid, users) of
        (Some u, Some m) \<Rightarrow> (case m u of None \<Rightarrow> None | Some by_ws \<Rightarrow> layer (by_ws ws) k)
      | _ \<Rightarrow> None)"

lemma layered_lookup:
  "layered_get_env cfg ws = Inr env \<Longrightarrow>
     dict_get env k = first_some [layer (lc_workspace cfg ws) k, layer (Some (lc_global cfg)) k]"
  by (auto simp: layered_get_env_def layer_def dict_or_empty_def dict_get_update split: option.splits)

lemma user_lookup:
  "user_config_get_env m (u, ws) = Inr env \<Longrightarrow> dict_get env k = user_layer (Some m) (Some u) ws k"
  by (auto simp: user_config_get_env_def user_layer_def layer_def dict_of_def split: option.splits)

definition demo_layers :: layered_config where
  "demo_layers =
     \<lparr>lc_global = [(''A'', ''g''), (''B'', ''g''), (''C'', ''g''), (''D'', ''g'')],
      lc_workspace = [''ws1'' \<mapsto> [(''B'', ''w''), (''C'', ''w''), (''D'', ''w'')]]\<rparr>"

definition demo_secrets :: "string \<Rightarrow> string \<Rightarrow> string dict option" where
  "demo_secrets v = [''ws1'' \<mapsto> [(''D'', v), (''TOKEN'', v)]]"

definition demo_users :: user_envs where
  "demo_users = [''u1'' \<mapsto> [''ws1'' \<mapsto> [(''C'', ''u''), (''D'', ''u'')]]]"

definition demo_specs :: "string \<Rightarrow> workspace_spec option" where
  "demo_specs = [''ws1'' \<mapsto> default_spec\<lparr>sp_allowed_workflows := [''deploy''], sp_allowed_skills := [''review'']\<rparr>]"

definition demo_resolver :: "string \<Rightarrow> workspace_resolver" where
  "demo_resolver v = memory_resolver demo_layers (demo_secrets v) ''/srv/ws'' demo_specs (Some demo_users)"

lemma demo_resolves: "\<exists>w. resolve (demo_resolver v) ''ws1'' uid = Inr w"
  by (cases uid) (simp_all add: resolve_def validate_workspace_id_def is_id_char_def is_alpha_def is_digit_def code_def
      demo_resolver_def base_env_def layered_get_env_def memory_get_secrets_def user_config_get_env_def Let_def)

text \<open>C9. A variable of the child process comes from the workspace's secrets if they define it,
  else from the configuration of the user in that workspace, else from the workspace's own, else
  from the global one; and exactly the names the secrets define are marked sensitive.\<close>

theorem resolve_precedence:
  assumes "resolve (memory_resolver cfg secrets dir specs users) ws uid = Inr w"
  shows "dict_get (rw_env w) k =
      first_some [layer (secrets ws) k, user_layer users uid ws k, layer (lc_workspace cfg ws) k, layer (Some (lc_global cfg)) k]
    \<and> (k \<in> rw_sensitive_keys w \<longleftrightarrow> layer (secrets ws) k \<noteq> None)"
proof -
  let ?rs = "memory_resolver cfg secrets dir specs users"
  obtain env s where env: "base_env ?rs ws uid = Inr env" and s: "memory_get_secrets secrets ws = Inr s"
    and keys: "rw_sensitive_keys w = set (dict_keys s)"
    and get: "dict_get (rw_env w) k = (case dict_get s k of None \<Rightarrow> dict_get env k | Some v \<Rightarrow> Some v)"
    using memres.resolve_lookup [OF assms] by auto
  have sk: "dict_get s k = layer (secrets ws) k"
    using s by (auto simp: memory_get_secrets_def layer_def)
  obtain c where c: "layered_get_env cfg ws = Inr c" by (simp add: layered_get_env_def)
  have "dict_get env k = first_some [user_layer users uid ws k, layer (lc_workspace cfg ws) k, layer (Some (lc_global cfg)) k]"
  proof (cases "\<exists>u m. uid = Some u \<and> users = Some m")
    case True
    then obtain u m where um: "uid = Some u" "users = Some m" by blast
    with memres.base_lookup [OF env, of c] c obtain ue where ue: "user_config_get_env m (u, ws) = Inr ue"
      and "dict_get env k = (case dict_get ue k of None \<Rightarrow> dict_get c k | Some v \<Rightarrow> Some v)" by auto
    with layered_lookup [OF c, of k] user_lookup [OF ue, of k] um show ?thesis by (simp split: option.splits)
  next
    case False
    then have "user_layer users uid ws k = None" by (auto simp: user_layer_def split: option.splits)
    moreover have "env = c" using memres.base_lookup [OF env, of c] c False by (cases uid; cases users) simp_all
    ultimately show ?thesis using layered_lookup [OF c, of k] by simp
  qed
  moreover have "k \<in> rw_sensitive_keys w \<longleftrightarrow> layer (secrets ws) k \<noteq> None"
    unfolding keys sk [symmetric] by (simp add: dict_get_None_iff)
  moreover have "dict_get (rw_env w) k = first_some [layer (secrets ws) k, dict_get env k]"
    unfolding get sk by (simp split: option.splits)
  ultimately show ?thesis by (simp split: option.splits)
qed

theorem resolve_precedence_witness:
  "\<exists>w. resolve (demo_resolver ''s'') ''ws1'' (Some ''u1'') = Inr w
     \<and> dict_get (rw_env w) ''A'' = Some ''g'' \<and> dict_get (rw_env w) ''B'' = Some ''w''
     \<and> dict_get (rw_env w) ''C'' = Some ''u'' \<and> dict_get (rw_env w) ''D'' = Some ''s''"
proof -
  obtain w where w: "resolve (demo_resolver ''s'') ''ws1'' (Some ''u1'') = Inr w" using demo_resolves by blast
  note p = resolve_precedence [OF w [unfolded demo_resolver_def]]
  note d = layer_def user_layer_def demo_layers_def demo_secrets_def demo_users_def dict_or_empty_def dict_of_def
    dict_set_def dict_get_def
  show ?thesis
    using w p [of "''A''"] p [of "''B''"] p [of "''C''"] p [of "''D''"]
    by (simp add: d)
qed

text \<open>C10. A working directory that is resolved is the direct child of the root named by the
  workspace id, the id is no dot-dot, and two ids share no directory; an id that is empty, a dot,
  a dot-dot or has any character outside the allowed class is rejected before a provider is asked.\<close>

theorem resolve_contained:
  shows "(resolve rs ws uid = Inr w \<longrightarrow>
      path_parts (rw_cwd w) = path_parts (rs_root rs) @ [ws] \<and> ws \<noteq> ''..''
      \<and> (\<forall>ws' uid' w'. resolve rs ws' uid' = Inr w' \<longrightarrow> rw_cwd w' = rw_cwd w \<longrightarrow> ws' = ws))
    \<and> (ws = [] \<or> ws = ''.'' \<or> ws = ''..'' \<or> (\<exists>c \<in> set ws. \<not> is_id_char c)
        \<longrightarrow> resolve rs ws uid = Inl (InvalidWorkspaceId ws))"
proof -
  have parts: "path_parts (rw_cwd w) = path_parts (rs_root rs) @ [ws] \<and> ws \<noteq> ''..''"
    if r: "resolve rs ws uid = Inr w" for ws uid w
  proof -
    from r have ok: "list_all is_id_char ws" "ws \<noteq> []" "ws \<noteq> ''.''" "ws \<noteq> ''..''"
      and cwd: "rw_cwd w = path_join (rs_root rs) ws"
      by (auto simp: resolve_def validate_workspace_id_def Let_def split: if_splits)
    from path_parts_join [OF id_char_not_slash [OF ok(1)] ok(2,3)] ok(4) show ?thesis
      by (simp add: cwd)
  qed
  have inj: "ws' = ws" if "resolve rs ws uid = Inr w" "resolve rs ws' uid' = Inr w'" "rw_cwd w' = rw_cwd w" for ws' uid' w'
    using parts [OF that(1)] parts [OF that(2)] that(3) by simp
  have bad: "resolve rs ws uid = Inl (InvalidWorkspaceId ws)"
    if "ws = [] \<or> ws = ''.'' \<or> ws = ''..'' \<or> (\<exists>c \<in> set ws. \<not> is_id_char c)"
    using that by (auto simp: resolve_def validate_workspace_id_def list_all_iff)
  show ?thesis using parts inj bad by blast
qed

theorem resolve_contained_witness:
  "\<exists>w. resolve (demo_resolver ''s'') ''ws1'' None = Inr w \<and> path_parts (rw_cwd w) = [''srv'', ''ws'', ''ws1'']
     \<and> resolve (demo_resolver ''s'') ''../ws1'' None = Inl (InvalidWorkspaceId ''../ws1'')"
proof -
  obtain w where w: "resolve (demo_resolver ''s'') ''ws1'' None = Inr w" using demo_resolves by blast
  have "\<exists>c \<in> set ''../ws1''. \<not> is_id_char c"
    by (simp add: is_id_char_def is_alpha_def is_digit_def code_def)
  then have "resolve (demo_resolver ''s'') ''../ws1'' None = Inl (InvalidWorkspaceId ''../ws1'')"
    using resolve_contained [of "demo_resolver ''s''" "''../ws1''" None w] by blast
  moreover have "path_parts (rw_cwd w) = path_parts (rs_root (demo_resolver ''s'')) @ [''ws1'']"
    using resolve_contained [of "demo_resolver ''s''" "''ws1''" None w] w by blast
  moreover have "path_parts (rs_root (demo_resolver ''s'')) = [''srv'', ''ws'']"
    by (simp add: demo_resolver_def path_parts_def)
  ultimately show ?thesis using w by simp
qed

definition same_names :: "exn + string dict \<Rightarrow> exn + string dict \<Rightarrow> bool" where
  \<comment> \<open>two answers of a provider that define the same names, or raise the same\<close>
  "same_names a b =
     (case (a, b) of
        (Inr d, Inr e) \<Rightarrow> dict_keys d = dict_keys e | (Inl x, Inl y) \<Rightarrow> x = y | _ \<Rightarrow> False)"

lemma secret_values_irrelevant:
  assumes rs: "resolver_sources rs" and rs': "resolver_sources (rs\<lparr>rs_secrets := get\<rparr>)"
    and same: "same_names (rs_secrets rs ws) (get ws)"
  obtains (raises) e where "resolve rs ws uid = Inl e" "resolve (rs\<lparr>rs_secrets := get\<rparr>) ws uid = Inl e"
    | (resolves) w env s where "resolve rs ws uid = Inr w" "resolve (rs\<lparr>rs_secrets := get\<rparr>) ws uid = Inr (w\<lparr>rw_env := env\<rparr>)"
        "redacted_env (w\<lparr>rw_env := env\<rparr>) = redacted_env w"
        "rs_secrets rs ws = Inr s" "\<forall>k \<in> set (dict_keys s). dict_get (redacted_env w) k = Some ''***''"
proof -
  let ?rs' = "rs\<lparr>rs_secrets := get\<rparr>"
  have base: "base_env ?rs' ws uid = base_env rs ws uid" by (simp add: base_env_def)
  consider e where "validate_workspace_id ws = Inl e"
    | e where "validate_workspace_id ws = Inr ()" "base_env rs ws uid = Inl e"
    | env e where "validate_workspace_id ws = Inr ()" "base_env rs ws uid = Inr env" "rs_secrets rs ws = Inl e" "get ws = Inl e"
    | env s s' where "validate_workspace_id ws = Inr ()" "base_env rs ws uid = Inr env"
        "rs_secrets rs ws = Inr s" "get ws = Inr s'" "dict_keys s = dict_keys s'"
    using same
    by (cases "validate_workspace_id ws"; cases "base_env rs ws uid"; cases "rs_secrets rs ws"; cases "get ws")
      (auto simp: same_names_def)
  then show ?thesis
  proof cases
    case (4 env s s')
    obtain w where w: "resolve rs ws uid = Inr w" "rw_env w = dict_update env s" "rw_sensitive_keys w = set (dict_keys s)"
      using 4 by (simp add: resolve_def Let_def)
    have w': "resolve ?rs' ws uid = Inr (w\<lparr>rw_env := dict_update env s'\<rparr>)"
      using 4 base w by (auto simp: resolve_def Let_def)
    have wf: "dict_wf env" using resolver_sources.base_env_wf [OF rs 4(2)] .
    have wfs: "dict_wf s" "dict_wf s'"
      using rs rs' 4(3,4) env_source.returns_dict [of "rs_secrets rs"] env_source.returns_dict [of get]
      by (auto simp: resolver_sources_def)
    have "redact (dict_update env s) (set (dict_keys s)) = redact (dict_update env s') (set (dict_keys s))"
    proof (rule redact_cong)
      show "dict_wf (dict_update env s)" using wf by (rule dict_wf_update)
      show "dict_keys (dict_update env s) = dict_keys (dict_update env s')"
        using dict_keys_update_cong [OF refl 4(5)] .
      fix k
      assume "k \<notin> set (dict_keys s)"
      then have "dict_get s k = None" "dict_get s' k = None" by (simp_all add: dict_get_None_iff 4(5))
      then show "dict_get (dict_update env s) k = dict_get (dict_update env s') k"
        by (simp add: dict_get_update [OF wfs(1)] dict_get_update [OF wfs(2)])
    qed
    then have "redacted_env (w\<lparr>rw_env := dict_update env s'\<rparr>) = redacted_env w"
      by (simp add: redacted_env_def w)
    moreover have "dict_get (redacted_env w) k = Some ''***''" if "k \<in> set (dict_keys s)" for k
    proof -
      from that obtain v where "dict_get s k = Some v" using dict_get_None_iff [of s k] by auto
      with that show ?thesis
        by (simp add: redacted_env_def redact_get w dict_get_update [OF wfs(1)] REDACTED_def)
    qed
    ultimately show ?thesis using resolves w(1) w' 4(3) by blast
  qed (auto intro!: raises simp: resolve_def base)
qed

text \<open>C11. Secret values do not show: with two secret providers that define the same names for a
  workspace, whatever the values, the resolver gives the same redacted environment and the same
  text of the resolved workspace, with every secret shown as three stars; a resolution that
  raises raises the same.\<close>

theorem redaction_hides_values:
  assumes "resolver_sources rs" and "resolver_sources (rs\<lparr>rs_secrets := get\<rparr>)"
    and "same_names (rs_secrets rs ws) (get ws)"
  shows "case (resolve rs ws uid, resolve (rs\<lparr>rs_secrets := get\<rparr>) ws uid) of
      (Inr w1, Inr w2) \<Rightarrow> redacted_env w1 = redacted_env w2 \<and> workspace_repr order w1 = workspace_repr order w2
        \<and> (\<exists>s. rs_secrets rs ws = Inr s \<and> (\<forall>k \<in> set (dict_keys s). dict_get (redacted_env w1) k = Some ''***''))
    | (Inl e1, Inl e2) \<Rightarrow> e1 = e2
    | _ \<Rightarrow> False"
  by (rule secret_values_irrelevant [OF assms, of uid]) (auto simp: workspace_repr_def)

theorem redaction_hides_values_witness:
  "\<exists>w1 w2. resolve (demo_resolver ''s3cret'') ''ws1'' None = Inr w1 \<and> resolve (demo_resolver ''other'') ''ws1'' None = Inr w2
     \<and> workspace_repr [''D'', ''TOKEN''] w1 = workspace_repr [''D'', ''TOKEN''] w2
     \<and> dict_get (redacted_env w1) ''TOKEN'' = Some ''***''"
proof -
  have s: "rs_secrets (demo_resolver v) ''ws1'' = Inr [(''D'', v), (''TOKEN'', v)]" for v
    by (simp add: demo_resolver_def memory_get_secrets_def demo_secrets_def dict_or_empty_def dict_of_def dict_set_def)
  have upd: "(demo_resolver ''s3cret'')\<lparr>rs_secrets := memory_get_secrets (demo_secrets ''other'')\<rparr> = demo_resolver ''other''"
    by (simp add: demo_resolver_def memory_resolver_def)
  have src: "resolver_sources (demo_resolver v)" for v
    unfolding demo_resolver_def by (rule memres.resolver_sources_axioms)
  have same: "same_names (rs_secrets (demo_resolver ''s3cret'') ''ws1'') (memory_get_secrets (demo_secrets ''other'') ''ws1'')"
    using s [of "''s3cret''"] s [of "''other''"] by (simp add: demo_resolver_def same_names_def dict_keys_def)
  have "resolver_sources ((demo_resolver ''s3cret'')\<lparr>rs_secrets := memory_get_secrets (demo_secrets ''other'')\<rparr>)"
    unfolding upd by (rule src)
  from redaction_hides_values [OF src this same, of "[''D'', ''TOKEN'']" None] upd s [of "''s3cret''"]
    demo_resolves [of "''s3cret''" None] demo_resolves [of "''other''" None]
  show ?thesis by (auto simp: dict_keys_def)
qed

end
