(* ===== verification/Workflows.thy ===== *)
theory Workflows
  imports Registry
begin

section \<open>Workflows\<close>

text \<open>
  \<open>engine/workflows\<close>: runs, the store, the service and the inline executor. A run refers to its
  \<open>params\<close> dictionary by a position in \<open>wf_heap\<close>: every version of a run (they are made with
  \<open>replace\<close>) and the handler share that one dictionary, so an assignment of the handler shows in
  the stored run, and a rerun copies what is there by then. The n-th reading of the clock is
  \<open>we_clock E n\<close> and \<open>we_float E\<close> is the text of a float; a fresh identifier is an argument.
\<close>

record progress_event =
  pe_message :: string
  pe_step :: "string option"
  pe_fraction :: "pyfloat option"
  pe_ts :: rat

record workflow_run =
  wr_id :: string
  wr_name :: string
  wr_params :: nat
  wr_status :: workflow_status
  wr_progress :: "progress_event list"
  wr_result :: pyv
  wr_error :: "string option"
  wr_rerun_of :: "string option"
  wr_owner :: "string option"
  wr_created_at :: rat
  wr_updated_at :: rat

definition with_status :: "workflow_status \<Rightarrow> rat \<Rightarrow> workflow_run \<Rightarrow> workflow_run" where
  "with_status st now r = r\<lparr>wr_status := st, wr_updated_at := now\<rparr>"

definition with_progress :: "progress_event \<Rightarrow> rat \<Rightarrow> workflow_run \<Rightarrow> workflow_run" where
  "with_progress ev now r = r\<lparr>wr_progress := wr_progress r @ [ev], wr_updated_at := now\<rparr>"

definition with_result :: "pyv \<Rightarrow> rat \<Rightarrow> workflow_run \<Rightarrow> workflow_run" where
  "with_result v now r = r\<lparr>wr_status := SUCCESS, wr_result := v, wr_error := None, wr_updated_at := now\<rparr>"

definition with_error :: "string \<Rightarrow> rat \<Rightarrow> workflow_run \<Rightarrow> workflow_run" where
  "with_error t now r = r\<lparr>wr_status := FAILED, wr_error := Some t, wr_result := PNone, wr_updated_at := now\<rparr>"

subsection \<open>The store\<close>

record 's workflow_store_ops =
  ws_save :: "workflow_run \<Rightarrow> 's \<Rightarrow> 's"
  ws_get :: "string \<Rightarrow> 's \<Rightarrow> exn + workflow_run"

locale workflow_store =
  fixes S :: "'s workflow_store_ops"
  assumes get_save: "ws_get S rid (ws_save S r s) = (if rid = wr_id r then Inr r else ws_get S rid s)"
    and get_missing: "ws_get S rid s = Inl e \<Longrightarrow> e = WorkflowRunNotFound rid"

text \<open>\<open>MemoryWorkflowStore\<close>.\<close>

type_synonym memory_wf_store = "string \<rightharpoonup> workflow_run"

definition memwf_save :: "workflow_run \<Rightarrow> memory_wf_store \<Rightarrow> memory_wf_store" where
  "memwf_save r s = s(wr_id r \<mapsto> r)"

definition memwf_get :: "string \<Rightarrow> memory_wf_store \<Rightarrow> exn + workflow_run" where
  "memwf_get rid s = (case s rid of Some r \<Rightarrow> Inr r | None \<Rightarrow> Inl (WorkflowRunNotFound rid))"

definition memory_wf_ops :: "memory_wf_store workflow_store_ops" where
  "memory_wf_ops = \<lparr>ws_save = memwf_save, ws_get = memwf_get\<rparr>"

lemma memory_wf_sel [simp]: "ws_save memory_wf_ops = memwf_save" "ws_get memory_wf_ops = memwf_get"
  by (simp_all add: memory_wf_ops_def)

interpretation memwf: workflow_store memory_wf_ops
  by unfold_locales (auto simp: memwf_save_def memwf_get_def split: option.splits)

subsection \<open>The world of the service\<close>

record wf_env =
  we_clock :: "nat \<Rightarrow> rat"
  we_float :: "pyfloat \<Rightarrow> string"

record 's wf_world =
  wf_store :: 's
  wf_heap :: "pyv dict list"
  wf_ticks :: nat

definition tick :: "'s wf_world \<Rightarrow> 's wf_world" where
  "tick w = w\<lparr>wf_ticks := Suc (wf_ticks w)\<rparr>"

definition heap_get :: "'s wf_world \<Rightarrow> nat \<Rightarrow> pyv dict" where
  "heap_get w ref = (if ref < length (wf_heap w) then wf_heap w ! ref else [])"

definition heap_set :: "nat \<Rightarrow> string \<Rightarrow> pyv \<Rightarrow> 's wf_world \<Rightarrow> 's wf_world" where
  \<comment> \<open>\<open>params[k] = v\<close>\<close>
  "heap_set ref k v w = w\<lparr>wf_heap := (wf_heap w)[ref := dict_set k v (heap_get w ref)]\<rparr>"

definition save_run :: "'s workflow_store_ops \<Rightarrow> workflow_run \<Rightarrow> 's wf_world \<Rightarrow> 's wf_world" where
  "save_run S r w = w\<lparr>wf_store := ws_save S r (wf_store w)\<rparr>"

definition get_run :: "'s workflow_store_ops \<Rightarrow> string \<Rightarrow> 's wf_world \<Rightarrow> exn + workflow_run" where
  "get_run S rid w = ws_get S rid (wf_store w)"

definition bad_fraction :: "pyfloat option \<Rightarrow> bool" where
  \<comment> \<open>\<open>fraction is not None and not 0.0 <= fraction <= 1.0\<close>; NaN is bad\<close>
  "bad_fraction fr = (case fr of None \<Rightarrow> False | Some f \<Rightarrow> \<not> (float_le (Fin 0) f \<and> float_le f (Fin 1)))"

definition fraction_error :: "wf_env \<Rightarrow> pyfloat option \<Rightarrow> exn" where
  "fraction_error E fr =
     ValueError (''fraction must be between 0.0 and 1.0, got '' @ (case fr of None \<Rightarrow> ''None'' | Some f \<Rightarrow> we_float E f))"

definition report_progress :: "wf_env \<Rightarrow> 's workflow_store_ops \<Rightarrow> string \<Rightarrow> string \<Rightarrow> string option
    \<Rightarrow> pyfloat option \<Rightarrow> 's wf_world \<Rightarrow> (exn + unit) \<times> 's wf_world" where
  "report_progress E S rid message step fraction w =
     (if bad_fraction fraction then (Inl (fraction_error E fraction), w)
      else (case get_run S rid w of
              Inl e \<Rightarrow> (Inl e, w)
            | Inr r \<Rightarrow>
                (let ev = \<lparr>pe_message = message, pe_step = step, pe_fraction = fraction, pe_ts = we_clock E (wf_ticks w)\<rparr>;
                     w1 = tick w
                 in (Inr (), save_run S (with_progress ev (we_clock E (wf_ticks w1)) r) (tick w1)))))"

primrec run_handler :: "wf_env \<Rightarrow> 's workflow_store_ops \<Rightarrow> string \<Rightarrow> nat \<Rightarrow> wf_prog
    \<Rightarrow> 's wf_world \<Rightarrow> (exn + pyv) \<times> 's wf_world" where
  "run_handler E S rid ref (WfReturn v) w = (Inr v, w)"
| "run_handler E S rid ref (WfRaise e) w = (Inl e, w)"
| "run_handler E S rid ref (WfSetParam k v p) w = run_handler E S rid ref p (heap_set ref k v w)"
| "run_handler E S rid ref (WfReport m st fr k) w =
     (let r = report_progress E S rid m st fr w
      in run_handler E S rid ref (k (fst r)) (snd r))"

definition failure_text :: "exn \<Rightarrow> string" where
  "failure_text e = exn_type e @ '': '' @ exn_str e"

definition update_run :: "wf_env \<Rightarrow> 's workflow_store_ops \<Rightarrow> string \<Rightarrow> (rat \<Rightarrow> workflow_run \<Rightarrow> workflow_run)
    \<Rightarrow> 's wf_world \<Rightarrow> (exn + unit) \<times> 's wf_world" where
  \<comment> \<open>\<open>store.save(store.get(run_id).with_...(...))\<close>\<close>
  "update_run E S rid f w =
     (case get_run S rid w of
        Inl e \<Rightarrow> (Inl e, w)
      | Inr r \<Rightarrow> (Inr (), save_run S (f (we_clock E (wf_ticks w)) r) (tick w)))"

definition execute :: "wf_env \<Rightarrow> 's workflow_store_ops \<Rightarrow> string \<Rightarrow> workflow_handler
    \<Rightarrow> 's wf_world \<Rightarrow> (exn + unit) \<times> 's wf_world" where
  "execute E S rid handler w =
     (case update_run E S rid (with_status RUNNING) w of
        (Inl e, w1) \<Rightarrow> (Inl e, w1)
      | (Inr _, w1) \<Rightarrow>
          (case get_run S rid w1 of
             Inl e \<Rightarrow> (Inl e, w1)
           | Inr r \<Rightarrow>
               (case run_handler E S rid (wr_params r) (handler (heap_get w1 (wr_params r))) w1 of
                  (Inl e, w2) \<Rightarrow>
                    (if is_exception e then update_run E S rid (with_error (failure_text e)) w2 else (Inl e, w2))
                | (Inr v, w2) \<Rightarrow> update_run E S rid (with_result v) w2)))"

subsection \<open>The service, over an executor\<close>

text \<open>\<open>submit\<close> of an executor runs or queues the execution of a run with a handler.\<close>

type_synonym 'w submitter = "string \<Rightarrow> workflow_handler \<Rightarrow> 'w \<Rightarrow> (exn + unit) \<times> 'w"

definition new_run :: "string \<Rightarrow> string \<Rightarrow> nat \<Rightarrow> string option \<Rightarrow> string option \<Rightarrow> workflow_run" where
  "new_run uuid name ref rerun_of owner =
     \<lparr>wr_id = uuid, wr_name = name, wr_params = ref, wr_status = PENDING, wr_progress = [], wr_result = PNone,
      wr_error = None, wr_rerun_of = rerun_of, wr_owner = owner, wr_created_at = 0, wr_updated_at = 0\<rparr>"

definition create_run :: "'s workflow_store_ops \<Rightarrow> string \<Rightarrow> string \<Rightarrow> pyv dict option \<Rightarrow> string option
    \<Rightarrow> string option \<Rightarrow> 's wf_world \<Rightarrow> 's wf_world" where
  \<comment> \<open>\<open>params=dict(params or {})\<close> makes a new dictionary; then the first \<open>save\<close>\<close>
  "create_run S uuid name params rerun_of owner w =
     (let d = (case params of None \<Rightarrow> [] | Some p \<Rightarrow> dict_of p)
      in save_run S (new_run uuid name (length (wf_heap w)) rerun_of owner) (w\<lparr>wf_heap := wf_heap w @ [d]\<rparr>))"

definition service_run :: "('w \<Rightarrow> 's wf_world) \<Rightarrow> (('s wf_world \<Rightarrow> 's wf_world) \<Rightarrow> 'w \<Rightarrow> 'w) \<Rightarrow> 's workflow_store_ops
    \<Rightarrow> 'w submitter \<Rightarrow> engine_registry \<Rightarrow> string \<Rightarrow> string \<Rightarrow> pyv dict option \<Rightarrow> string option \<Rightarrow> string option
    \<Rightarrow> 'w \<Rightarrow> (exn + workflow_run) \<times> 'w" where
  \<comment> \<open>\<open>view\<close> and \<open>upd\<close> reach the service's world inside the executor's\<close>
  "service_run view upd S submit reg uuid name params rerun_of owner w =
     (case resolve_workflow reg name of
        Inl e \<Rightarrow> (Inl e, w)
      | Inr handler \<Rightarrow>
          (case submit uuid handler (upd (create_run S uuid name params rerun_of owner) w) of
             (Inl e, w2) \<Rightarrow> (Inl e, w2)
           | (Inr _, w2) \<Rightarrow> (get_run S uuid (view w2), w2)))"

definition service_rerun :: "('w \<Rightarrow> 's wf_world) \<Rightarrow> (('s wf_world \<Rightarrow> 's wf_world) \<Rightarrow> 'w \<Rightarrow> 'w) \<Rightarrow> 's workflow_store_ops
    \<Rightarrow> 'w submitter \<Rightarrow> engine_registry \<Rightarrow> string \<Rightarrow> string \<Rightarrow> 'w \<Rightarrow> (exn + workflow_run) \<times> 'w" where
  "service_rerun view upd S submit reg uuid rid w =
     (case get_run S rid (view w) of
        Inl e \<Rightarrow> (Inl e, w)
      | Inr old \<Rightarrow>
          (if \<not> terminal (wr_status old) then (Inl (WorkflowNotTerminal rid (wr_status old)), w)
           else service_run view upd S submit reg uuid (wr_name old)
                  (Some (heap_get (view w) (wr_params old))) (Some rid) (wr_owner old) w))"

definition inline_run :: "wf_env \<Rightarrow> 's workflow_store_ops \<Rightarrow> engine_registry \<Rightarrow> string \<Rightarrow> string \<Rightarrow> pyv dict option
    \<Rightarrow> string option \<Rightarrow> string option \<Rightarrow> 's wf_world \<Rightarrow> (exn + workflow_run) \<times> 's wf_world" where
  \<comment> \<open>the service over \<open>InlineExecutor\<close>, whose \<open>submit\<close> calls the function\<close>
  "inline_run E S = service_run (\<lambda>w. w) (\<lambda>f. f) S (execute E S)"

definition inline_rerun :: "wf_env \<Rightarrow> 's workflow_store_ops \<Rightarrow> engine_registry \<Rightarrow> string \<Rightarrow> string
    \<Rightarrow> 's wf_world \<Rightarrow> (exn + workflow_run) \<times> 's wf_world" where
  "inline_rerun E S = service_rerun (\<lambda>w. w) (\<lambda>f. f) S (execute E S)"

subsection \<open>Frames\<close>

lemma world_sel [simp]:
  "wf_store (tick w) = wf_store w" "wf_heap (tick w) = wf_heap w" "wf_store (heap_set ref k v w) = wf_store w"
  "wf_heap (save_run S r w) = wf_heap w" "wf_ticks (save_run S r w) = wf_ticks w"
  "wf_store (save_run S r w) = ws_save S r (wf_store w)" "wf_ticks (tick w) = Suc (wf_ticks w)"
  "length (wf_heap (heap_set ref k v w)) = length (wf_heap w)"
  by (simp_all add: tick_def heap_set_def save_run_def)

lemma run_sel [simp]:
  "wr_id (with_status st t r) = wr_id r" "wr_id (with_progress ev t r) = wr_id r"
  "wr_id (with_result v t r) = wr_id r" "wr_id (with_error x t r) = wr_id r"
  "wr_params (with_status st t r) = wr_params r" "wr_params (with_progress ev t r) = wr_params r"
  "wr_params (with_result v t r) = wr_params r" "wr_params (with_error x t r) = wr_params r"
  "wr_owner (with_status st t r) = wr_owner r" "wr_owner (with_progress ev t r) = wr_owner r"
  "wr_owner (with_result v t r) = wr_owner r" "wr_owner (with_error x t r) = wr_owner r"
  "wr_name (with_status st t r) = wr_name r" "wr_name (with_progress ev t r) = wr_name r"
  "wr_name (with_result v t r) = wr_name r" "wr_name (with_error x t r) = wr_name r"
  "wr_id (new_run u n ref ro ow) = u" "wr_params (new_run u n ref ro ow) = ref"
  "wr_owner (new_run u n ref ro ow) = ow" "wr_name (new_run u n ref ro ow) = n"
  "wr_status (new_run u n ref ro ow) = PENDING"
  by (simp_all add: with_status_def with_progress_def with_result_def with_error_def new_run_def)

context workflow_store
begin

lemma get_run_save: "get_run S rid (save_run S r w) = (if rid = wr_id r then Inr r else get_run S rid w)"
  by (simp add: get_run_def save_run_def get_save)

lemma get_run_frame [simp]: "get_run S rid (tick w) = get_run S rid w" "get_run S rid (heap_set ref k v w) = get_run S rid w"
  by (simp_all add: get_run_def)

lemma get_run_missing: "get_run S rid w = Inl e \<Longrightarrow> e = WorkflowRunNotFound rid"
  by (simp add: get_run_def get_missing)

end

subsection \<open>What a handler does\<close>

text \<open>The outcome of a handler, the reports it makes and the dictionary it leaves, when its run is
  in the store: functions of the handler alone.\<close>

definition after_report :: "wf_env \<Rightarrow> pyfloat option \<Rightarrow> exn + unit" where
  "after_report E fr = (if bad_fraction fr then Inl (fraction_error E fr) else Inr ())"

primrec outcome :: "wf_env \<Rightarrow> wf_prog \<Rightarrow> exn + pyv" where
  "outcome E (WfReturn v) = Inr v"
| "outcome E (WfRaise e) = Inl e"
| "outcome E (WfSetParam k v p) = outcome E p"
| "outcome E (WfReport m st fr k) = outcome E (k (after_report E fr))"

primrec reports :: "wf_env \<Rightarrow> wf_prog \<Rightarrow> progress_event list" where
  "reports E (WfReturn v) = []"
| "reports E (WfRaise e) = []"
| "reports E (WfSetParam k v p) = reports E p"
| "reports E (WfReport m st fr k) =
     (if bad_fraction fr then []
      else [\<lparr>pe_message = m, pe_step = st, pe_fraction = fr, pe_ts = 0\<rparr>]) @ reports E (k (after_report E fr))"

primrec params_after :: "wf_env \<Rightarrow> wf_prog \<Rightarrow> pyv dict \<Rightarrow> pyv dict" where
  "params_after E (WfReturn v) d = d"
| "params_after E (WfRaise e) d = d"
| "params_after E (WfSetParam k v p) d = params_after E p (dict_set k v d)"
| "params_after E (WfReport m st fr k) d = params_after E (k (after_report E fr)) d"

text \<open>A run without its time stamps.\<close>

definition erase_event :: "progress_event \<Rightarrow> progress_event" where
  "erase_event ev = ev\<lparr>pe_ts := 0\<rparr>"

definition erase_run :: "workflow_run \<Rightarrow> workflow_run" where
  "erase_run r = r\<lparr>wr_updated_at := 0, wr_progress := map erase_event (wr_progress r)\<rparr>"

definition add_reports :: "progress_event list \<Rightarrow> workflow_run \<Rightarrow> workflow_run" where
  "add_reports evs r = r\<lparr>wr_progress := wr_progress r @ evs\<rparr>"

lemma erase_with:
  "erase_run (with_status st t r) = with_status st 0 (erase_run r)"
  "erase_run (with_result v t r) = with_result v 0 (erase_run r)"
  "erase_run (with_error x t r) = with_error x 0 (erase_run r)"
  "erase_run (with_progress ev t r) = add_reports [erase_event ev] (erase_run r)"
  by (simp_all add: erase_run_def with_status_def with_result_def with_error_def with_progress_def add_reports_def)

lemma add_reports_append [simp]: "add_reports b (add_reports a r) = add_reports (a @ b) r" "add_reports [] r = r"
  by (simp_all add: add_reports_def)

lemma erase_sel [simp]:
  "wr_id (erase_run r) = wr_id r" "wr_params (erase_run r) = wr_params r" "wr_status (erase_run r) = wr_status r"
  "wr_result (erase_run r) = wr_result r" "wr_error (erase_run r) = wr_error r" "wr_owner (erase_run r) = wr_owner r"
  "wr_name (erase_run r) = wr_name r" "wr_rerun_of (erase_run r) = wr_rerun_of r"
  by (simp_all add: erase_run_def)

lemma heap_get_set:
  "ref < length (wf_heap w) \<Longrightarrow> heap_get (heap_set ref k v w) j = (if j = ref then dict_set k v (heap_get w ref) else heap_get w j)"
  by (auto simp: heap_get_def heap_set_def)

lemma heap_get_frame [simp]: "heap_get (tick w) j = heap_get w j" "heap_get (save_run S r w) j = heap_get w j"
  by (simp_all add: heap_get_def)

text \<open>The end of a run, from what its handler does.\<close>

definition settle :: "exn + pyv \<Rightarrow> workflow_run \<Rightarrow> workflow_run" where
  "settle out r =
     (case out of
        Inr v \<Rightarrow> with_result v 0 r
      | Inl e \<Rightarrow> if is_exception e then with_error (failure_text e) 0 r else r)"

definition escaped :: "exn + pyv \<Rightarrow> exn option" where
  \<comment> \<open>the exception that leaves \<open>_execute\<close>\<close>
  "escaped out = (case out of Inl e \<Rightarrow> if is_exception e then None else Some e | Inr _ \<Rightarrow> None)"

definition finished_run :: "wf_env \<Rightarrow> wf_prog \<Rightarrow> workflow_run \<Rightarrow> workflow_run" where
  "finished_run E p r = settle (outcome E p) (add_reports (reports E p) r)"

end
