(* ===== verification/Workflow_Inline.thy ===== *)
theory Workflow_Inline
  imports Workflows
begin

section \<open>Executing a workflow\<close>

text \<open>
  The effect of \<open>_execute\<close> and of the service over the inline executor, for any store that keeps
  the contract: the run ends as its handler alone determines, and nothing else changes.
\<close>

definition elsewhere :: "'s workflow_store_ops \<Rightarrow> string \<Rightarrow> nat \<Rightarrow> 's wf_world \<Rightarrow> 's wf_world \<Rightarrow> bool" where
  \<comment> \<open>other runs and other dictionaries are untouched\<close>
  "elsewhere S rid ref w w' \<longleftrightarrow>
     (\<forall>j. j \<noteq> rid \<longrightarrow> get_run S j w' = get_run S j w)
     \<and> (\<forall>j. j \<noteq> ref \<longrightarrow> heap_get w' j = heap_get w j) \<and> length (wf_heap w') = length (wf_heap w)"

context workflow_store
begin

lemma elsewhere_refl [simp]: "elsewhere S rid ref w w"
  by (simp add: elsewhere_def)

lemma elsewhere_trans: "elsewhere S rid ref a b \<Longrightarrow> elsewhere S rid ref b c \<Longrightarrow> elsewhere S rid ref a c"
  by (simp add: elsewhere_def)

lemma elsewhere_save [simp]: "wr_id r = rid \<Longrightarrow> elsewhere S rid ref w (save_run S r (tick w))"
  by (simp add: elsewhere_def get_run_save)

lemma elsewhere_heap [simp]: "elsewhere S rid ref w (heap_set ref k v w)"
  by (auto simp: elsewhere_def heap_get_def heap_set_def get_run_def)

lemma elsewhere_tick: "elsewhere S rid ref w (tick w)"
  by (simp add: elsewhere_def)

lemma report_effect:
  assumes "get_run S rid w = Inr r" and "wr_id r = rid"
  shows "\<exists>w' r'. report_progress E S rid m st fr w = (after_report E fr, w') \<and> get_run S rid w' = Inr r' \<and> wr_id r' = rid
    \<and> erase_run r' = add_reports (if bad_fraction fr then [] else [\<lparr>pe_message = m, pe_step = st, pe_fraction = fr, pe_ts = 0\<rparr>]) (erase_run r)
    \<and> heap_get w' ref = heap_get w ref \<and> elsewhere S rid ref w w'"
proof (cases "bad_fraction fr")
  case True
  with assms show ?thesis by (simp add: report_progress_def after_report_def)
next
  case False
  let ?ev = "\<lparr>pe_message = m, pe_step = st, pe_fraction = fr, pe_ts = we_clock E (wf_ticks w)\<rparr>"
  let ?r = "with_progress ?ev (we_clock E (wf_ticks (tick w))) r"
  have "elsewhere S rid ref w (save_run S ?r (tick (tick w)))"
    using elsewhere_trans [OF elsewhere_tick [of rid ref w] elsewhere_save [of ?r rid ref "tick w"]] assms(2) by simp
  with False assms show ?thesis
    by (simp add: report_progress_def after_report_def Let_def get_run_save erase_with erase_event_def)
qed

lemma handler_effect:
  assumes "get_run S rid w = Inr r" and "wr_id r = rid" and "ref < length (wf_heap w)"
  shows "\<exists>w' r'. run_handler E S rid ref p w = (outcome E p, w') \<and> get_run S rid w' = Inr r' \<and> wr_id r' = rid
    \<and> erase_run r' = add_reports (reports E p) (erase_run r)
    \<and> heap_get w' ref = params_after E p (heap_get w ref) \<and> elsewhere S rid ref w w'"
  using assms
proof (induction p arbitrary: w r)
  case (WfSetParam k v p)
  from WfSetParam.IH [of "heap_set ref k v w" r] WfSetParam.prems
  obtain w' r' where "run_handler E S rid ref p (heap_set ref k v w) = (outcome E p, w')"
    "get_run S rid w' = Inr r'" "wr_id r' = rid" "erase_run r' = add_reports (reports E p) (erase_run r)"
    "heap_get w' ref = params_after E p (dict_set k v (heap_get w ref))" "elsewhere S rid ref (heap_set ref k v w) w'"
    by (auto simp: heap_get_set)
  then show ?case using elsewhere_trans [OF elsewhere_heap] by auto
next
  case (WfReport m st fr k)
  from report_effect [OF WfReport.prems(1,2), of E m st fr ref]
  obtain w1 r1 where one: "report_progress E S rid m st fr w = (after_report E fr, w1)" "get_run S rid w1 = Inr r1" "wr_id r1 = rid"
    "erase_run r1 = add_reports (if bad_fraction fr then [] else [\<lparr>pe_message = m, pe_step = st, pe_fraction = fr, pe_ts = 0\<rparr>]) (erase_run r)"
    "heap_get w1 ref = heap_get w ref" "elsewhere S rid ref w w1"
    by blast
  then have len: "ref < length (wf_heap w1)" using WfReport.prems(3) by (simp add: elsewhere_def)
  from WfReport.IH [OF _ one(2,3) len, of "k (after_report E fr)"]
  obtain w' r' where "run_handler E S rid ref (k (after_report E fr)) w1 = (outcome E (k (after_report E fr)), w')"
    "get_run S rid w' = Inr r'" "wr_id r' = rid" "erase_run r' = add_reports (reports E (k (after_report E fr))) (erase_run r1)"
    "heap_get w' ref = params_after E (k (after_report E fr)) (heap_get w1 ref)" "elsewhere S rid ref w1 w'"
    by auto
  with one elsewhere_trans [OF one(6)] show ?case by (auto simp: Let_def)
qed auto

lemma update_effect:
  assumes "get_run S rid w = Inr r" and "wr_id r = rid" and "\<And>t. wr_id (f t r) = rid"
  shows "\<exists>w' t. update_run E S rid f w = (Inr (), w') \<and> get_run S rid w' = Inr (f t r) \<and> elsewhere S rid ref w w'
    \<and> heap_get w' ref = heap_get w ref"
  using assms elsewhere_save [OF assms(3)] by (auto simp: update_run_def get_run_save)

lemma execute_effect:
  assumes r: "get_run S rid w = Inr r" "wr_id r = rid" and ref: "wr_params r < length (wf_heap w)"
    and p: "p = handler (heap_get w (wr_params r))"
  shows "\<exists>w' r'. execute E S rid handler w = ((case escaped (outcome E p) of None \<Rightarrow> Inr () | Some e \<Rightarrow> Inl e), w')
    \<and> get_run S rid w' = Inr r' \<and> wr_id r' = rid
    \<and> erase_run r' = finished_run E p (with_status RUNNING 0 (erase_run r))
    \<and> heap_get w' (wr_params r) = params_after E p (heap_get w (wr_params r)) \<and> elsewhere S rid (wr_params r) w w'"
proof -
  let ?ref = "wr_params r"
  from update_effect [OF r, of "with_status RUNNING" E ?ref] r(2)
  obtain w1 t where one: "update_run E S rid (with_status RUNNING) w = (Inr (), w1)"
    "get_run S rid w1 = Inr (with_status RUNNING t r)" "elsewhere S rid ?ref w w1" "heap_get w1 ?ref = heap_get w ?ref"
    by auto
  have len: "?ref < length (wf_heap w1)" using ref one(3) by (simp add: elsewhere_def)
  from handler_effect [OF one(2) _ len, of E p] r(2)
  obtain w2 r2 where two: "run_handler E S rid ?ref p w1 = (outcome E p, w2)" "get_run S rid w2 = Inr r2" "wr_id r2 = rid"
    "erase_run r2 = add_reports (reports E p) (with_status RUNNING 0 (erase_run r))"
    "heap_get w2 ?ref = params_after E p (heap_get w ?ref)" "elsewhere S rid ?ref w w2"
    using one(4) elsewhere_trans [OF one(3)] by (auto simp: erase_with)
  have run: "execute E S rid handler w = (case (outcome E p, w2) of
      (Inl e, w2) \<Rightarrow> (if is_exception e then update_run E S rid (with_error (failure_text e)) w2 else (Inl e, w2))
    | (Inr v, w2) \<Rightarrow> update_run E S rid (with_result v) w2)"
    using one two(1) by (simp add: execute_def p)
  show ?thesis
  proof (cases "outcome E p")
    case (Inr v)
    from update_effect [OF two(2,3), of "with_result v" E ?ref] two(3)
    obtain w3 t where "update_run E S rid (with_result v) w2 = (Inr (), w3)" "get_run S rid w3 = Inr (with_result v t r2)"
      "elsewhere S rid ?ref w2 w3" "heap_get w3 ?ref = heap_get w2 ?ref" by auto
    with run Inr two elsewhere_trans [OF two(6)] show ?thesis
      by (auto simp: escaped_def finished_run_def settle_def erase_with)
  next
    case (Inl e)
    show ?thesis
    proof (cases "is_exception e")
      case True
      from update_effect [OF two(2,3), of "with_error (failure_text e)" E ?ref] two(3)
      obtain w3 t where "update_run E S rid (with_error (failure_text e)) w2 = (Inr (), w3)"
        "get_run S rid w3 = Inr (with_error (failure_text e) t r2)"
        "elsewhere S rid ?ref w2 w3" "heap_get w3 ?ref = heap_get w2 ?ref" by auto
      with run Inl True two elsewhere_trans [OF two(6)] show ?thesis
        by (auto simp: escaped_def finished_run_def settle_def erase_with)
    next
      case False
      with run Inl two show ?thesis
        by (auto simp: escaped_def finished_run_def settle_def)
    qed
  qed
qed

text \<open>Creating a run.\<close>

lemma create_effect:
  shows "get_run S uuid (create_run S uuid name params ro owner w) = Inr (new_run uuid name (length (wf_heap w)) ro owner)"
    and "heap_get (create_run S uuid name params ro owner w) (length (wf_heap w)) = (case params of None \<Rightarrow> [] | Some p \<Rightarrow> dict_of p)"
    and "length (wf_heap (create_run S uuid name params ro owner w)) = Suc (length (wf_heap w))"
    and "j \<noteq> uuid \<Longrightarrow> get_run S j (create_run S uuid name params ro owner w) = get_run S j w"
    and "i < length (wf_heap w) \<Longrightarrow> heap_get (create_run S uuid name params ro owner w) i = heap_get w i"
  by (simp_all add: create_run_def Let_def get_run_save heap_get_def nth_append) (simp add: get_run_def)

lemma inline_effect:
  assumes "resolve_workflow reg name = Inr handler"
    and d: "d = (case params of None \<Rightarrow> [] | Some p \<Rightarrow> dict_of p)"
  shows "\<exists>w' r'. inline_run E S reg uuid name params ro owner w
      = ((case escaped (outcome E (handler d)) of None \<Rightarrow> Inr r' | Some e \<Rightarrow> Inl e), w')
    \<and> get_run S uuid w' = Inr r'
    \<and> erase_run r' = finished_run E (handler d) (with_status RUNNING 0 (new_run uuid name (length (wf_heap w)) ro owner))
    \<and> heap_get w' (length (wf_heap w)) = params_after E (handler d) d
    \<and> (\<forall>j. j \<noteq> uuid \<longrightarrow> get_run S j w' = get_run S j w) \<and> (\<forall>i < length (wf_heap w). heap_get w' i = heap_get w i)"
proof -
  let ?w = "create_run S uuid name params ro owner w" and ?ref = "length (wf_heap w)"
  have e: "erase_run (new_run uuid name ?ref ro owner) = new_run uuid name ?ref ro owner"
    by (simp add: erase_run_def new_run_def)
  from execute_effect [OF create_effect(1) [of uuid name params ro owner w], where handler = handler and E = E]
  obtain w' r' where x: "execute E S uuid handler ?w = ((case escaped (outcome E (handler d)) of None \<Rightarrow> Inr () | Some e \<Rightarrow> Inl e), w')"
    "get_run S uuid w' = Inr r'"
    "erase_run r' = finished_run E (handler d) (with_status RUNNING 0 (new_run uuid name ?ref ro owner))"
    "heap_get w' ?ref = params_after E (handler d) d" "elsewhere S uuid ?ref ?w w'"
    by (auto simp: create_effect(2,3) d e)
  have "inline_run E S reg uuid name params ro owner w
      = ((case escaped (outcome E (handler d)) of None \<Rightarrow> Inr r' | Some e \<Rightarrow> Inl e), w')"
    using assms(1) x(1,2) by (simp add: inline_run_def service_run_def split: option.splits)
  with x create_effect(4,5) show ?thesis
    by (fastforce simp: elsewhere_def)
qed

end

end
