(* ===== verification/Workflow_Threads.thy ===== *)
theory Workflow_Threads
  imports Workflow_Inline
begin

section \<open>The thread executor\<close>

text \<open>
  \<open>ThreadWorkflowExecutor\<close>: each submitted execution is a task of a pool, and the workers of the
  pool advance their tasks in any order. A step of a task reads or writes the store at most once,
  so every interleaving of store accesses is a sequence of steps. \<open>pool_step\<close> adds what
  \<open>ThreadPoolExecutor\<close> guarantees: tasks start in the order of submission and at most
  \<open>max_workers\<close> of them are running.
\<close>

datatype wf_task =
    TStart string workflow_handler
  | TSetRunning string workflow_handler workflow_run
  | TLoadParams string workflow_handler
  | TBody string nat wf_prog
  | TSaveProgress string nat workflow_run progress_event "(exn + unit) \<Rightarrow> wf_prog"
  | TEnding string "exn + pyv"
  | TSaveEnd string workflow_run "exn + pyv"
  | TDone "exn option"

fun body_step :: "wf_env \<Rightarrow> 's workflow_store_ops \<Rightarrow> string \<Rightarrow> nat \<Rightarrow> wf_prog \<Rightarrow> 's wf_world \<Rightarrow> wf_task \<times> 's wf_world" where
  "body_step E S rid ref (WfReturn v) w = (TEnding rid (Inr v), w)"
| "body_step E S rid ref (WfRaise e) w = (if is_exception e then TEnding rid (Inl e) else TDone (Some e), w)"
| "body_step E S rid ref (WfSetParam k v p) w = (TBody rid ref p, heap_set ref k v w)"
| "body_step E S rid ref (WfReport m st fr k) w =
     (if bad_fraction fr then (TBody rid ref (k (Inl (fraction_error E fr))), w)
      else (case get_run S rid w of
              Inl e \<Rightarrow> (TBody rid ref (k (Inl e)), w)
            | Inr r \<Rightarrow> (TSaveProgress rid ref r
                \<lparr>pe_message = m, pe_step = st, pe_fraction = fr, pe_ts = we_clock E (wf_ticks w)\<rparr> k, tick w)))"

fun end_run :: "exn + pyv \<Rightarrow> rat \<Rightarrow> workflow_run \<Rightarrow> workflow_run" where
  "end_run (Inr v) t r = with_result v t r"
| "end_run (Inl e) t r = with_error (failure_text e) t r"

fun task_step :: "wf_env \<Rightarrow> 's workflow_store_ops \<Rightarrow> wf_task \<Rightarrow> 's wf_world \<Rightarrow> wf_task \<times> 's wf_world" where
  "task_step E S (TStart rid h) w =
     (case get_run S rid w of Inl e \<Rightarrow> (TDone (Some e), w) | Inr r \<Rightarrow> (TSetRunning rid h r, w))"
| "task_step E S (TSetRunning rid h r) w =
     (TLoadParams rid h, save_run S (with_status RUNNING (we_clock E (wf_ticks w)) r) (tick w))"
| "task_step E S (TLoadParams rid h) w =
     (case get_run S rid w of
        Inl e \<Rightarrow> (TDone (Some e), w)
      | Inr r \<Rightarrow> (TBody rid (wr_params r) (h (heap_get w (wr_params r))), w))"
| "task_step E S (TBody rid ref p) w = body_step E S rid ref p w"
| "task_step E S (TSaveProgress rid ref r ev k) w =
     (TBody rid ref (k (Inr ())), save_run S (with_progress ev (we_clock E (wf_ticks w)) r) (tick w))"
| "task_step E S (TEnding rid out) w =
     (case get_run S rid w of Inl e \<Rightarrow> (TDone (Some e), w) | Inr r \<Rightarrow> (TSaveEnd rid r out, w))"
| "task_step E S (TSaveEnd rid r out) w =
     (TDone None, save_run S (end_run out (we_clock E (wf_ticks w)) r) (tick w))"
| "task_step E S (TDone x) w = (TDone x, w)"

record 's wf_pool =
  pl_world :: "'s wf_world"
  pl_tasks :: "wf_task list"
  pl_max_workers :: nat
  pl_shutdown :: bool

definition pool_submit :: "'s wf_pool submitter" where
  "pool_submit rid handler p =
     (if pl_shutdown p then (Inl (RuntimeError ''executor is shut down, cannot submit another task''), p)
      else (Inr (), p\<lparr>pl_tasks := pl_tasks p @ [TStart rid handler]\<rparr>))"

fun is_done :: "wf_task \<Rightarrow> bool" where
  "is_done (TDone x) = True"
| "is_done t = False"

fun is_unstarted :: "wf_task \<Rightarrow> bool" where
  "is_unstarted (TStart rid h) = True"
| "is_unstarted t = False"

definition advance :: "wf_env \<Rightarrow> 's workflow_store_ops \<Rightarrow> nat \<Rightarrow> 's wf_pool \<Rightarrow> 's wf_pool" where
  \<comment> \<open>one step of the i-th task\<close>
  "advance E S i p =
     (if i < length (pl_tasks p)
      then (let (t, w) = task_step E S (pl_tasks p ! i) (pl_world p)
            in p\<lparr>pl_tasks := (pl_tasks p)[i := t], pl_world := w\<rparr>)
      else p)"

definition running_tasks :: "wf_task list \<Rightarrow> nat" where
  "running_tasks ts = length (filter (\<lambda>t. \<not> is_unstarted t \<and> \<not> is_done t) ts)"

definition may_step :: "'s wf_pool \<Rightarrow> nat \<Rightarrow> bool" where
  "may_step p i \<longleftrightarrow> i < length (pl_tasks p) \<and> \<not> is_done (pl_tasks p ! i)
     \<and> (is_unstarted (pl_tasks p ! i) \<longrightarrow>
          running_tasks (pl_tasks p) < pl_max_workers p \<and> list_all (\<lambda>t. \<not> is_unstarted t) (take i (pl_tasks p)))"

definition run_schedule :: "wf_env \<Rightarrow> 's workflow_store_ops \<Rightarrow> nat list \<Rightarrow> 's wf_pool \<Rightarrow> 's wf_pool" where
  "run_schedule E S is p = fold (advance E S) is p"

definition thread_submit :: "wf_env \<Rightarrow> 's workflow_store_ops \<Rightarrow> nat list \<Rightarrow> 's wf_pool submitter" where
  \<comment> \<open>\<open>submit\<close>, and the steps of workers before the submitting thread goes on\<close>
  "thread_submit E S is rid handler p =
     (case pool_submit rid handler p of
        (Inl e, p1) \<Rightarrow> (Inl e, p1)
      | (Inr u, p1) \<Rightarrow> (Inr u, run_schedule E S is p1))"

definition thread_run :: "wf_env \<Rightarrow> 's workflow_store_ops \<Rightarrow> nat list \<Rightarrow> engine_registry \<Rightarrow> string \<Rightarrow> string
    \<Rightarrow> pyv dict option \<Rightarrow> string option \<Rightarrow> string option \<Rightarrow> 's wf_pool \<Rightarrow> (exn + workflow_run) \<times> 's wf_pool" where
  "thread_run E S is = service_run pl_world (\<lambda>f p. p\<lparr>pl_world := f (pl_world p)\<rparr>) S (thread_submit E S is)"

definition thread_rerun :: "wf_env \<Rightarrow> 's workflow_store_ops \<Rightarrow> nat list \<Rightarrow> engine_registry \<Rightarrow> string \<Rightarrow> string
    \<Rightarrow> 's wf_pool \<Rightarrow> (exn + workflow_run) \<times> 's wf_pool" where
  "thread_rerun E S is = service_rerun pl_world (\<lambda>f p. p\<lparr>pl_world := f (pl_world p)\<rparr>) S (thread_submit E S is)"

inductive pool_step :: "wf_env \<Rightarrow> 's workflow_store_ops \<Rightarrow> 's wf_pool \<Rightarrow> 's wf_pool \<Rightarrow> bool" for E S where
  pool_stepI: "may_step p i \<Longrightarrow> pool_step E S p (advance E S i p)"

inductive_cases pool_stepE: "pool_step E S p p'"

fun wait_all :: "wf_task list \<Rightarrow> (exn + unit) option" where
  \<comment> \<open>\<open>wait_all\<close> on tasks that are done: the first exception in the order of submission; None while
     some earlier task still runs\<close>
  "wait_all [] = Some (Inr ())"
| "wait_all (t # ts) = (case t of TDone None \<Rightarrow> wait_all ts | TDone (Some e) \<Rightarrow> Some (Inl e) | _ \<Rightarrow> None)"

definition pool_shutdown :: "'s wf_pool \<Rightarrow> 's wf_pool" where
  \<comment> \<open>the flag; \<open>shutdown(wait=True)\<close> then lets the tasks run to their end\<close>
  "pool_shutdown p = p\<lparr>pl_shutdown := True\<rparr>"

subsection \<open>What a task still does\<close>

text \<open>The end of a run (without time stamps), the dictionary it leaves and the exception it lets
  through, as a function of the state of its task alone.\<close>

definition after_body :: "wf_env \<Rightarrow> wf_prog \<Rightarrow> workflow_run \<Rightarrow> pyv dict \<Rightarrow> workflow_run \<times> pyv dict \<times> exn option" where
  "after_body E p r d = (finished_run E p r, params_after E p d, escaped (outcome E p))"

fun forecast :: "wf_env \<Rightarrow> wf_task \<Rightarrow> workflow_run \<Rightarrow> pyv dict \<Rightarrow> workflow_run \<times> pyv dict \<times> exn option" where
  "forecast E (TStart rid h) r d = after_body E (h d) (with_status RUNNING 0 r) d"
| "forecast E (TSetRunning rid h c) r d = after_body E (h d) (with_status RUNNING 0 r) d"
| "forecast E (TLoadParams rid h) r d = after_body E (h d) r d"
| "forecast E (TBody rid ref p) r d = after_body E p r d"
| "forecast E (TSaveProgress rid ref c ev k) r d = after_body E (k (Inr ())) (add_reports [erase_event ev] r) d"
| "forecast E (TEnding rid out) r d = (settle out r, d, None)"
| "forecast E (TSaveEnd rid c out) r d = (settle out r, d, None)"
| "forecast E (TDone x) r d = (r, d, x)"

primrec prog_steps :: "wf_env \<Rightarrow> wf_prog \<Rightarrow> nat" where
  "prog_steps E (WfReturn v) = 3"
| "prog_steps E (WfRaise e) = 3"
| "prog_steps E (WfSetParam k v p) = Suc (prog_steps E p)"
| "prog_steps E (WfReport m st fr k) = 2 + prog_steps E (k (after_report E fr))"

fun remaining :: "wf_env \<Rightarrow> wf_task \<Rightarrow> pyv dict \<Rightarrow> nat" where
  \<comment> \<open>a bound on the steps a task still makes\<close>
  "remaining E (TStart rid h) d = 3 + prog_steps E (h d)"
| "remaining E (TSetRunning rid h c) d = 2 + prog_steps E (h d)"
| "remaining E (TLoadParams rid h) d = 1 + prog_steps E (h d)"
| "remaining E (TBody rid ref p) d = prog_steps E p"
| "remaining E (TSaveProgress rid ref c ev k) d = 1 + prog_steps E (k (Inr ()))"
| "remaining E (TEnding rid out) d = 2"
| "remaining E (TSaveEnd rid c out) d = 1"
| "remaining E (TDone x) d = 0"

fun task_fits :: "wf_task \<Rightarrow> string \<Rightarrow> nat \<Rightarrow> workflow_run \<Rightarrow> bool" where
  \<comment> \<open>the task works on run \<open>r\<close> with id \<open>rid\<close> and dictionary \<open>ref\<close>; a copy it holds is the stored run\<close>
  "task_fits (TStart i h) rid ref r = (i = rid)"
| "task_fits (TSetRunning i h c) rid ref r = (i = rid \<and> c = r)"
| "task_fits (TLoadParams i h) rid ref r = (i = rid)"
| "task_fits (TBody i j p) rid ref r = (i = rid \<and> j = ref)"
| "task_fits (TSaveProgress i j c ev k) rid ref r = (i = rid \<and> j = ref \<and> c = r)"
| "task_fits (TEnding i out) rid ref r = (i = rid \<and> escaped out = None)"
| "task_fits (TSaveEnd i c out) rid ref r = (i = rid \<and> c = r \<and> escaped out = None)"
| "task_fits (TDone x) rid ref r = True"

definition owns :: "'s workflow_store_ops \<Rightarrow> 's wf_world \<Rightarrow> wf_task \<Rightarrow> string \<Rightarrow> nat \<Rightarrow> workflow_run \<Rightarrow> bool" where
  "owns S w t rid ref r \<longleftrightarrow> get_run S rid w = Inr r \<and> wr_id r = rid \<and> wr_params r = ref \<and> ref < length (wf_heap w)
     \<and> task_fits t rid ref r"

context workflow_store
begin

text \<open>One step of a task: it keeps its run, touches nothing else, keeps the forecast and comes
  nearer to its end.\<close>

lemma task_step_owns:
  assumes "owns S w t rid ref r" and "task_step E S t w = (t', w')"
  shows "\<exists>r'. owns S w' t' rid ref r' \<and> elsewhere S rid ref w w'
    \<and> forecast E t' (erase_run r') (heap_get w' ref) = forecast E t (erase_run r) (heap_get w ref)
    \<and> (is_done t \<or> remaining E t' (heap_get w' ref) < remaining E t (heap_get w ref))"
proof (cases t)
  case (TBody i j p)
  with assms(1) have o: "i = rid" "j = ref" "get_run S rid w = Inr r" "wr_id r = rid" "wr_params r = ref" "ref < length (wf_heap w)"
    by (simp_all add: owns_def)
  show ?thesis
  proof (cases p)
    case (WfReport m st fr k)
    show ?thesis
    proof (cases "bad_fraction fr")
      case True
      with assms(2) TBody WfReport o show ?thesis
        by (auto simp: owns_def after_body_def finished_run_def after_report_def intro!: exI [of _ r])
    next
      case False
      with assms(2) TBody WfReport o elsewhere_tick show ?thesis
        by (auto simp: owns_def after_body_def finished_run_def after_report_def erase_event_def intro!: exI [of _ r])
    qed
  qed (use assms(2) TBody o in \<open>auto simp: owns_def after_body_def finished_run_def escaped_def settle_def heap_get_set
        intro!: exI [of _ r] split: if_splits\<close>)
next
  case (TEnding i out)
  with assms show ?thesis by (auto simp: owns_def intro!: exI [of _ r])
next
  case (TSaveEnd i c out)
  with assms show ?thesis
    by (cases out) (auto simp: owns_def get_run_save erase_with settle_def escaped_def split: if_splits)
next
  case (TSetRunning i h c)
  with assms show ?thesis by (auto simp: owns_def get_run_save erase_with)
next
  case (TSaveProgress i j c ev k)
  with assms show ?thesis by (auto simp: owns_def get_run_save erase_with)
qed (use assms in \<open>auto simp: owns_def after_body_def intro!: exI [of _ r]\<close>)

lemma owns_elsewhere:
  assumes "owns S w t rid ref r" and "elsewhere S rid' ref' w w'" and "rid \<noteq> rid'" and "ref \<noteq> ref'"
  shows "owns S w' t rid ref r \<and> heap_get w' ref = heap_get w ref"
  using assms by (auto simp: owns_def elsewhere_def)

end

end
