(* ===== verification/Workflow_Pool.thy ===== *)
theory Workflow_Pool
  imports Workflow_Threads
begin

section \<open>Pools of workflow tasks\<close>

text \<open>
  A pool whose tasks work on different runs and dictionaries (\<open>pool_ok\<close>): whatever the order of
  the steps, what each task will leave (\<open>final_view\<close>) does not change, and each step brings its
  task nearer to the end. Pools that arise from the service's operations are of that kind.
\<close>

definition pool_ok :: "'s workflow_store_ops \<Rightarrow> (string \<times> nat) list \<Rightarrow> 's wf_pool \<Rightarrow> bool" where
  "pool_ok S os p \<longleftrightarrow> length os = length (pl_tasks p) \<and> distinct (map fst os) \<and> distinct (map snd os)
     \<and> (\<forall>i < length os. \<exists>r. owns S (pl_world p) (pl_tasks p ! i) (fst (os ! i)) (snd (os ! i)) r)"

definition stored :: "'s workflow_store_ops \<Rightarrow> string \<Rightarrow> 's wf_world \<Rightarrow> workflow_run" where
  "stored S rid w = projr (get_run S rid w)"

definition final_view ::
  "wf_env \<Rightarrow> 's workflow_store_ops \<Rightarrow> (string \<times> nat) list \<Rightarrow> nat \<Rightarrow> 's wf_pool \<Rightarrow> workflow_run \<times> pyv dict \<times> exn option" where
  "final_view E S os i p =
     forecast E (pl_tasks p ! i) (erase_run (stored S (fst (os ! i)) (pl_world p))) (heap_get (pl_world p) (snd (os ! i)))"

definition steps_left :: "wf_env \<Rightarrow> (string \<times> nat) list \<Rightarrow> nat \<Rightarrow> 's wf_pool \<Rightarrow> nat" where
  "steps_left E os i p = remaining E (pl_tasks p ! i) (heap_get (pl_world p) (snd (os ! i)))"

definition total_left :: "wf_env \<Rightarrow> (string \<times> nat) list \<Rightarrow> 's wf_pool \<Rightarrow> nat" where
  "total_left E os p = (\<Sum>i < length os. steps_left E os i p)"

lemma pool_okD:
  assumes "pool_ok S os p"
  shows "length os = length (pl_tasks p)" and "distinct (map fst os)" and "distinct (map snd os)"
    and "i < length os \<Longrightarrow> \<exists>r. owns S (pl_world p) (pl_tasks p ! i) (fst (os ! i)) (snd (os ! i)) r"
  using assms by (auto simp: pool_ok_def)

lemma distinct_pair:
  "distinct (map f os) \<Longrightarrow> i < length os \<Longrightarrow> k < length os \<Longrightarrow> k \<noteq> i \<Longrightarrow> f (os ! k) \<noteq> f (os ! i)"
  by (metis length_map nth_eq_iff_index_eq nth_map)

lemma owns_stored: "owns S w t rid ref r \<Longrightarrow> stored S rid w = r"
  by (simp add: owns_def stored_def)

lemma done_fixed: "is_done t \<Longrightarrow> task_step E S t w = (t, w)"
  by (cases t) auto

lemma advance_done: "i < length (pl_tasks p) \<Longrightarrow> is_done (pl_tasks p ! i) \<Longrightarrow> advance E S i p = p"
  by (simp add: advance_def done_fixed)

lemma advance_out: "\<not> i < length (pl_tasks p) \<Longrightarrow> advance E S i p = p"
  by (simp add: advance_def)

lemma remaining_0: "remaining E t d = 0 \<Longrightarrow> is_done t"
proof (cases t)
  case (TBody rid ref p)
  have "0 < prog_steps E p" by (cases p) auto
  then show "remaining E t d = 0 \<Longrightarrow> is_done t" using TBody by simp
qed auto

context workflow_store
begin

lemma advance_one:
  assumes ok: "pool_ok S os p" and i: "i < length os"
  shows "pool_ok S os (advance E S i p)"
    and "k < length os \<Longrightarrow> final_view E S os k (advance E S i p) = final_view E S os k p"
    and "k < length os \<Longrightarrow> k \<noteq> i \<Longrightarrow> steps_left E os k (advance E S i p) = steps_left E os k p"
    and "\<not> is_done (pl_tasks p ! i) \<Longrightarrow> steps_left E os i (advance E S i p) < steps_left E os i p"
    and "k < length os \<Longrightarrow> k \<noteq> i \<Longrightarrow> pl_tasks (advance E S i p) ! k = pl_tasks p ! k"
proof -
  obtain t' w' where st: "task_step E S (pl_tasks p ! i) (pl_world p) = (t', w')" by fastforce
  let ?p = "advance E S i p"
  have len: "length os = length (pl_tasks p)" by (rule pool_okD [OF ok])
  have p': "pl_tasks ?p = (pl_tasks p)[i := t']" "pl_world ?p = w'"
    using i len by (simp_all add: advance_def st)
  obtain r where o: "owns S (pl_world p) (pl_tasks p ! i) (fst (os ! i)) (snd (os ! i)) r"
    using pool_okD(4) [OF ok i] by blast
  from task_step_owns [OF o st] obtain r' where o': "owns S w' t' (fst (os ! i)) (snd (os ! i)) r'"
    and else_w: "elsewhere S (fst (os ! i)) (snd (os ! i)) (pl_world p) w'"
    and fc: "forecast E t' (erase_run r') (heap_get w' (snd (os ! i)))
      = forecast E (pl_tasks p ! i) (erase_run r) (heap_get (pl_world p) (snd (os ! i)))"
    and less: "is_done (pl_tasks p ! i) \<or> remaining E t' (heap_get w' (snd (os ! i)))
      < remaining E (pl_tasks p ! i) (heap_get (pl_world p) (snd (os ! i)))"
    by blast
  have other: "owns S w' (pl_tasks p ! k) (fst (os ! k)) (snd (os ! k)) q
      \<and> heap_get w' (snd (os ! k)) = heap_get (pl_world p) (snd (os ! k))"
    if "k < length os" "k \<noteq> i" "owns S (pl_world p) (pl_tasks p ! k) (fst (os ! k)) (snd (os ! k)) q" for k q
    using owns_elsewhere [OF that(3) else_w]
      distinct_pair [OF pool_okD(2) [OF ok] i that(1,2)] distinct_pair [OF pool_okD(3) [OF ok] i that(1,2)] by blast
  have "\<exists>q. owns S w' ((pl_tasks p)[i := t'] ! k) (fst (os ! k)) (snd (os ! k)) q" if k: "k < length os" for k
  proof (cases "k = i")
    case True
    with o' i len show ?thesis by auto
  next
    case False
    obtain q where "owns S (pl_world p) (pl_tasks p ! k) (fst (os ! k)) (snd (os ! k)) q"
      using pool_okD(4) [OF ok k] by blast
    from other [OF k False this] False show ?thesis by auto
  qed
  then show "pool_ok S os ?p"
    using pool_okD(1-3) [OF ok] by (simp add: pool_ok_def p')
  show "pl_tasks ?p ! k = pl_tasks p ! k" if "k < length os" "k \<noteq> i" for k
    using that by (simp add: p')
  show "final_view E S os k ?p = final_view E S os k p" if k: "k < length os" for k
  proof (cases "k = i")
    case True
    with fc i len show ?thesis by (simp add: final_view_def p' owns_stored [OF o] owns_stored [OF o'])
  next
    case False
    obtain q where q: "owns S (pl_world p) (pl_tasks p ! k) (fst (os ! k)) (snd (os ! k)) q"
      using pool_okD(4) [OF ok k] by blast
    from other [OF k False q] have q': "owns S w' (pl_tasks p ! k) (fst (os ! k)) (snd (os ! k)) q"
      and "heap_get w' (snd (os ! k)) = heap_get (pl_world p) (snd (os ! k))" by auto
    with False show ?thesis
      by (simp add: final_view_def p' owns_stored [OF q] owns_stored [OF q'])
  qed
  show "steps_left E os k ?p = steps_left E os k p" if k: "k < length os" "k \<noteq> i" for k
  proof -
    obtain q where "owns S (pl_world p) (pl_tasks p ! k) (fst (os ! k)) (snd (os ! k)) q"
      using pool_okD(4) [OF ok k(1)] by blast
    from other [OF k this] k show ?thesis by (simp add: steps_left_def p')
  qed
  show "steps_left E os i ?p < steps_left E os i p" if "\<not> is_done (pl_tasks p ! i)"
    using less that i len by (simp add: steps_left_def p')
qed

lemma advance_ok:
  assumes "pool_ok S os p"
  shows "pool_ok S os (advance E S i p)"
    and "k < length os \<Longrightarrow> final_view E S os k (advance E S i p) = final_view E S os k p"
  using advance_one(1,2) [OF assms, of i] advance_out [of i p E S] pool_okD(1) [OF assms] assms
  by (cases "i < length os"; simp)+

lemma schedule_ok:
  assumes "pool_ok S os p"
  shows "pool_ok S os (run_schedule E S is p) \<and> (\<forall>k < length os. final_view E S os k (run_schedule E S is p) = final_view E S os k p)"
  using assms
proof (induction "is" arbitrary: p)
  case Nil
  then show ?case by (simp add: run_schedule_def)
next
  case (Cons i "is")
  from Cons.IH [OF advance_ok(1) [OF Cons.prems, where E = E and i = i]] advance_ok(2) [OF Cons.prems]
  show ?case by (simp add: run_schedule_def)
qed

text \<open>A step of the pool makes the total smaller; a pool with work left has a step.\<close>

lemma pool_step_less:
  assumes ok: "pool_ok S os p" and st: "pool_step E S p p'"
  shows "pool_ok S os p' \<and> total_left E os p' < total_left E os p"
proof -
  obtain i where i: "may_step p i" and p': "p' = advance E S i p" using st by (auto elim: pool_stepE)
  have il: "i < length os" and nd: "\<not> is_done (pl_tasks p ! i)"
    using i pool_okD(1) [OF ok] by (auto simp: may_step_def)
  have "total_left E os p' < total_left E os p"
    unfolding total_left_def p'
  proof (rule sum_strict_mono_ex1)
    show "\<forall>k \<in> {..<length os}. steps_left E os k (advance E S i p) \<le> steps_left E os k p"
      using advance_one(3,4) [OF ok il, where E = E] nd by (metis lessThan_iff less_imp_le order_refl)
    show "\<exists>k \<in> {..<length os}. steps_left E os k (advance E S i p) < steps_left E os k p"
      using advance_one(4) [OF ok il nd, where E = E] il by blast
  qed simp
  with advance_one(1) [OF ok il] p' show ?thesis by simp
qed

lemma pool_progress:
  assumes ok: "pool_ok S os p" and "0 < pl_max_workers p" and undone: "\<exists>t \<in> set (pl_tasks p). \<not> is_done t"
  shows "\<exists>p'. pool_step E S p p'"
proof -
  let ?ts = "pl_tasks p"
  have "\<exists>i. may_step p i"
  proof (cases "\<exists>t \<in> set ?ts. \<not> is_done t \<and> \<not> is_unstarted t")
    case True
    then obtain i where "i < length ?ts" "\<not> is_done (?ts ! i)" "\<not> is_unstarted (?ts ! i)"
      by (auto simp: in_set_conv_nth)
    then show ?thesis by (auto simp: may_step_def)
  next
    case False
    then have none: "running_tasks ?ts = 0" by (auto simp: running_tasks_def filter_empty_conv)
    let ?P = "\<lambda>i. i < length ?ts \<and> is_unstarted (?ts ! i)"
    from undone obtain i where "i < length ?ts" "\<not> is_done (?ts ! i)" by (auto simp: in_set_conv_nth)
    with False have "?P i" using nth_mem by blast
    then obtain m where m: "?P m" and least: "\<forall>j < m. \<not> ?P j"
      using exists_least_iff [of ?P] by auto
    have "\<not> is_unstarted (?ts ! j)" if "j < m" for j
      using least m that by auto
    moreover have "\<not> is_done (?ts ! m)" using m by (cases "?ts ! m") auto
    ultimately have "may_step p m"
      using m none assms(2) by (simp add: may_step_def list_all_length)
    then show ?thesis ..
  qed
  then show ?thesis by (auto intro: pool_stepI)
qed

lemma pool_done_view:
  assumes "pool_ok S os p" and "i < length os" and "pl_tasks p ! i = TDone x"
  shows "final_view E S os i p = (erase_run (stored S (fst (os ! i)) (pl_world p)), heap_get (pl_world p) (snd (os ! i)), x)"
  using assms by (simp add: final_view_def)

subsection \<open>Submitting\<close>

lemma owns_create:
  assumes "owns S w t rid ref r" and "rid \<noteq> uuid"
  shows "owns S (create_run S uuid name params ro owner w) t rid ref r
    \<and> heap_get (create_run S uuid name params ro owner w) ref = heap_get w ref"
  using assms create_effect(3,4,5) [where uuid = uuid and name = name and params = params and ro = ro and owner = owner and w = w]
  by (auto simp: owns_def)

lemma create_ok:
  assumes ok: "pool_ok S os p" and fresh: "get_run S uuid (pl_world p) = Inl e"
  shows "pool_ok S os (p\<lparr>pl_world := create_run S uuid name params ro owner (pl_world p)\<rparr>)"
proof -
  have "fst (os ! i) \<noteq> uuid" if "i < length os" for i
    using pool_okD(4) [OF ok that] fresh by (auto simp: owns_def)
  with ok owns_create show ?thesis unfolding pool_ok_def by (auto, metis)
qed

lemma submit_ok:
  assumes ok: "pool_ok S os p" and fresh: "get_run S uuid (pl_world p) = Inl e"
    and p': "pool_submit uuid h (p\<lparr>pl_world := create_run S uuid name params ro owner (pl_world p)\<rparr>) = (Inr u, p')"
  shows "pool_ok S (os @ [(uuid, length (wf_heap (pl_world p)))]) p'"
proof -
  let ?w = "create_run S uuid name params ro owner (pl_world p)" and ?ref = "length (wf_heap (pl_world p))"
  have t: "pl_tasks p' = pl_tasks p @ [TStart uuid h]" "pl_world p' = ?w"
    using p' by (auto simp: pool_submit_def split: if_splits)
  have new: "owns S ?w (TStart uuid h) uuid ?ref (new_run uuid name ?ref ro owner)"
    by (simp add: owns_def create_effect)
  have old: "fst (os ! i) \<noteq> uuid \<and> snd (os ! i) < ?ref" if "i < length os" for i
    using pool_okD(4) [OF ok that] fresh by (auto simp: owns_def)
  then have fresh2: "uuid \<notin> fst ` set os" "?ref \<notin> snd ` set os"
    by (auto simp: in_set_conv_nth) (metis fst_conv, metis less_irrefl snd_conv)
  have "\<exists>r. owns S ?w ((pl_tasks p @ [TStart uuid h]) ! i) (fst ((os @ [(uuid, ?ref)]) ! i)) (snd ((os @ [(uuid, ?ref)]) ! i)) r"
    if "i < Suc (length os)" for i
  proof (cases "i = length os")
    case True
    with new pool_okD(1) [OF ok] show ?thesis by (auto simp: nth_append)
  next
    case False
    with that have i: "i < length os" by simp
    with pool_okD(4) [OF ok i] owns_create old [OF i] pool_okD(1) [OF ok] show ?thesis
      by (fastforce simp: nth_append)
  qed
  with ok fresh2 show ?thesis by (auto simp: pool_ok_def t)
qed

end

end
