(* ===== verification/Workflow_Life.thy ===== *)
theory Workflow_Life
  imports Workflow_Pool "HOL-Library.Sublist"
begin

section \<open>The life of a run\<close>

text \<open>
  The system of service and thread executor: \<open>run\<close>, \<open>rerun\<close> and \<open>shutdown\<close> by the callers and
  steps of the pool, in any order. In every reachable state the status and the outcome fields of a
  run agree with the stage of its task, and a run only grows.
\<close>

definition clean :: "workflow_run \<Rightarrow> bool" where
  "clean r \<longleftrightarrow> wr_result r = PNone \<and> wr_error r = None"

definition consistent :: "workflow_run \<Rightarrow> bool" where
  \<comment> \<open>an outcome only in a final status, and one outcome there\<close>
  "consistent r \<longleftrightarrow>
     (case wr_status r of
        PENDING \<Rightarrow> clean r \<and> wr_progress r = []
      | RUNNING \<Rightarrow> clean r
      | SUCCESS \<Rightarrow> wr_error r = None
      | FAILED \<Rightarrow> wr_error r \<noteq> None \<and> wr_result r = PNone)"

fun rank :: "workflow_status \<Rightarrow> nat" where
  "rank PENDING = 0"
| "rank RUNNING = 1"
| "rank SUCCESS = 2"
| "rank FAILED = 2"

instantiation workflow_status :: order
begin

definition less_eq_workflow_status :: "workflow_status \<Rightarrow> workflow_status \<Rightarrow> bool" where
  \<comment> \<open>how a status may move: the two final ones are not related\<close>
  "s \<le> t \<longleftrightarrow> s = t \<or> rank s < rank t"

definition less_workflow_status :: "workflow_status \<Rightarrow> workflow_status \<Rightarrow> bool" where
  "s < t \<longleftrightarrow> rank s < rank t"

instance
  by standard (auto simp: less_eq_workflow_status_def less_workflow_status_def)

end

lemmas status_order [simp] = less_eq_workflow_status_def less_workflow_status_def

definition grows :: "workflow_run \<Rightarrow> workflow_run \<Rightarrow> bool" where
  "grows r r' \<longleftrightarrow>
     wr_id r' = wr_id r \<and> wr_name r' = wr_name r \<and> wr_params r' = wr_params r \<and> wr_rerun_of r' = wr_rerun_of r
     \<and> wr_owner r' = wr_owner r \<and> prefix (wr_progress r) (wr_progress r')
     \<and> wr_status r \<le> wr_status r' \<and> (terminal (wr_status r) \<longrightarrow> r' = r)"

lemma grows_refl [simp]: "grows r r"
  by (simp add: grows_def)

lemma grows_trans: "grows a b \<Longrightarrow> grows b c \<Longrightarrow> grows a c"
  by (auto simp: grows_def)

fun stage :: "wf_task \<Rightarrow> workflow_run \<Rightarrow> bool" where
  "stage (TStart rid h) r = (wr_status r = PENDING \<and> consistent r)"
| "stage (TSetRunning rid h c) r = (wr_status r = PENDING \<and> consistent r)"
| "stage (TLoadParams rid h) r = (wr_status r = RUNNING \<and> consistent r)"
| "stage (TBody rid ref p) r = (wr_status r = RUNNING \<and> consistent r)"
| "stage (TSaveProgress rid ref c ev k) r = (wr_status r = RUNNING \<and> consistent r)"
| "stage (TEnding rid out) r = (wr_status r = RUNNING \<and> consistent r)"
| "stage (TSaveEnd rid c out) r = (wr_status r = RUNNING \<and> consistent r)"
| "stage (TDone x) r = ((if x = None then terminal (wr_status r) else wr_status r = RUNNING) \<and> consistent r)"

lemma stage_consistent: "stage t r \<Longrightarrow> consistent r"
  by (cases t) auto

definition life_ok :: "'s workflow_store_ops \<Rightarrow> (string \<times> nat) list \<Rightarrow> 's wf_pool \<Rightarrow> bool" where
  "life_ok S os p \<longleftrightarrow> pool_ok S os p
     \<and> (\<forall>i < length os. stage (pl_tasks p ! i) (stored S (fst (os ! i)) (pl_world p)))
     \<and> (\<forall>rid r. get_run S rid (pl_world p) = Inr r \<longrightarrow> rid \<notin> fst ` set os \<longrightarrow> wr_status r = PENDING \<and> consistent r)"

definition kept :: "'s workflow_store_ops \<Rightarrow> 's wf_world \<Rightarrow> 's wf_world \<Rightarrow> bool" where
  "kept S w w' \<longleftrightarrow> (\<forall>rid r. get_run S rid w = Inr r \<longrightarrow> (\<exists>r'. get_run S rid w' = Inr r' \<and> grows r r'))"

lemma kept_refl [simp]: "kept S w w"
  by (auto simp: kept_def)

lemma kept_trans: "kept S a b \<Longrightarrow> kept S b c \<Longrightarrow> kept S a c"
  unfolding kept_def using grows_trans by metis

definition empty_pool :: "'s \<Rightarrow> nat \<Rightarrow> 's wf_pool" where
  "empty_pool s n = \<lparr>pl_world = \<lparr>wf_store = s, wf_heap = [], wf_ticks = 0\<rparr>, pl_tasks = [], pl_max_workers = n, pl_shutdown = False\<rparr>"

inductive wf_next :: "wf_env \<Rightarrow> 's workflow_store_ops \<Rightarrow> engine_registry \<Rightarrow> 's wf_pool \<Rightarrow> 's wf_pool \<Rightarrow> bool"
  for E S reg where
  next_run: "get_run S uuid (pl_world p) = Inl e \<Longrightarrow> thread_run E S is reg uuid name params None owner p = (out, p')
     \<Longrightarrow> wf_next E S reg p p'"
| next_rerun: "get_run S uuid (pl_world p) = Inl e \<Longrightarrow> thread_rerun E S is reg uuid rid p = (out, p') \<Longrightarrow> wf_next E S reg p p'"
| next_step: "pool_step E S p p' \<Longrightarrow> wf_next E S reg p p'"
| next_shutdown: "wf_next E S reg p (pool_shutdown p)"

definition wf_reach :: "wf_env \<Rightarrow> 's workflow_store_ops \<Rightarrow> engine_registry \<Rightarrow> 's wf_pool \<Rightarrow> bool" where
  "wf_reach E S reg p \<longleftrightarrow> (\<exists>s n. (\<forall>rid. ws_get S rid s = Inl (WorkflowRunNotFound rid)) \<and> (wf_next E S reg)\<^sup>*\<^sup>* (empty_pool s n) p)"

definition extends :: "wf_env \<Rightarrow> 's workflow_store_ops \<Rightarrow> (string \<times> nat) list \<Rightarrow> 's wf_pool
    \<Rightarrow> (string \<times> nat) list \<Rightarrow> 's wf_pool \<Rightarrow> bool" where
  \<comment> \<open>a later state: more tasks, the runs grown, and what each task will leave unchanged\<close>
  "extends E S os p os' p' \<longleftrightarrow> life_ok S os' p' \<and> prefix os os' \<and> kept S (pl_world p) (pl_world p')
     \<and> (\<forall>i < length os. final_view E S os' i p' = final_view E S os i p)"

lemma extends_trans: "extends E S os p os1 p1 \<Longrightarrow> extends E S os1 p1 os2 p2 \<Longrightarrow> extends E S os p os2 p2"
  unfolding extends_def by (auto intro: kept_trans dest: prefix_length_le)

lemma extends_refl: "life_ok S os p \<Longrightarrow> extends E S os p os p"
  by (simp add: extends_def)

context workflow_store
begin

lemma task_step_stage:
  assumes "owns S w t rid ref r" and "stage t r" and "task_step E S t w = (t', w')"
  shows "\<exists>r'. owns S w' t' rid ref r' \<and> stage t' r' \<and> grows r r'"
proof -
  obtain r' where o: "owns S w' t' rid ref r'" using task_step_owns [OF assms(1,3)] by blast
  have "stage t' r' \<and> grows r r'"
  proof (cases t)
    case (TBody i j p)
    with assms(3) have "get_run S rid w' = get_run S rid w"
      by (cases p) (auto split: if_splits sum.splits)
    then have "r' = r" using o assms(1) by (auto simp: owns_def)
    have "stage t' r" using assms(2,3) TBody by (cases p) (auto split: if_splits sum.splits)
    with \<open>r' = r\<close> show ?thesis by simp
  next
    case (TEnding i out)
    with assms o show ?thesis by (auto simp: owns_def)
  next
    case (TSaveEnd i c out)
    with assms o show ?thesis
      by (cases out) (auto simp: owns_def get_run_save grows_def with_result_def with_error_def terminal_def consistent_def clean_def)
  next
    case (TDone x)
    with assms o show ?thesis by (auto simp: owns_def)
  next
    case (TSetRunning i h c)
    with assms o show ?thesis
      by (auto simp: owns_def get_run_save grows_def with_status_def terminal_def consistent_def clean_def)
  next
    case (TSaveProgress i j c ev k)
    with assms o show ?thesis
      by (auto simp: owns_def get_run_save grows_def with_progress_def terminal_def consistent_def clean_def)
  qed (use assms o in \<open>auto simp: owns_def\<close>)
  with o show ?thesis by blast
qed

lemma advance_life:
  assumes life: "life_ok S os p"
  shows "life_ok S os (advance E S i p) \<and> kept S (pl_world p) (pl_world (advance E S i p))"
proof (cases "i < length (pl_tasks p)")
  case False
  with life show ?thesis by (simp add: advance_out)
next
  case True
  have ok: "pool_ok S os p" using life by (simp add: life_ok_def)
  then have i: "i < length os" and len: "length os = length (pl_tasks p)" using True by (simp_all add: pool_ok_def)
  let ?rid = "fst (os ! i)"
  obtain r where o: "owns S (pl_world p) (pl_tasks p ! i) ?rid (snd (os ! i)) r" using pool_okD(4) [OF ok i] by blast
  obtain t' w' where st: "task_step E S (pl_tasks p ! i) (pl_world p) = (t', w')" by fastforce
  have p': "pl_tasks (advance E S i p) = (pl_tasks p)[i := t']" "pl_world (advance E S i p) = w'"
    using True by (simp_all add: advance_def st)
  have "stage (pl_tasks p ! i) r" using life i owns_stored [OF o] by (auto simp: life_ok_def)
  from task_step_stage [OF o this st] obtain r' where o': "owns S w' t' ?rid (snd (os ! i)) r'" "stage t' r'" "grows r r'" by blast
  from task_step_owns [OF o st] have other: "get_run S j w' = get_run S j (pl_world p)" if "j \<noteq> ?rid" for j
    using that by (auto simp: elsewhere_def)
  have "stage ((pl_tasks p)[i := t'] ! k) (stored S (fst (os ! k)) w')" if k: "k < length os" for k
  proof (cases "k = i")
    case True
    with o' owns_stored [OF o'(1)] i len show ?thesis by simp
  next
    case False
    with distinct_pair [OF pool_okD(2) [OF ok] i k] other life k show ?thesis
      by (simp add: life_ok_def stored_def)
  qed
  moreover have "wr_status q = PENDING \<and> consistent q" if "get_run S rid w' = Inr q" "rid \<notin> fst ` set os" for rid q
  proof -
    have "fst (os ! i) \<in> fst ` set os" using i by simp
    then have "rid \<noteq> fst (os ! i)" using that(2) by auto
    with other that life show ?thesis by (auto simp: life_ok_def)
  qed
  moreover have "kept S (pl_world p) w'"
    using o o' other unfolding kept_def owns_def by (metis grows_refl sum.inject(2))
  ultimately show ?thesis
    using advance_ok(1) [OF ok, of E i] by (auto simp: life_ok_def p')
qed

lemma advance_extends: "life_ok S os p \<Longrightarrow> extends E S os p os (advance E S i p)"
  using advance_life [of os p E i] advance_ok(2) [of os p] by (auto simp: extends_def life_ok_def)

lemma schedule_extends: "life_ok S os p \<Longrightarrow> extends E S os p os (run_schedule E S is p)"
proof (induction "is" arbitrary: p)
  case Nil
  then show ?case by (simp add: run_schedule_def extends_refl)
next
  case (Cons i "is")
  from advance_extends [OF Cons.prems, of E i] Cons.IH [of "advance E S i p"] show ?case
    by (auto simp: run_schedule_def extends_def intro: kept_trans)
qed

lemma create_life:
  assumes life: "life_ok S os p" and fresh: "get_run S uuid (pl_world p) = Inl e"
    and p': "pool_submit uuid h (p\<lparr>pl_world := create_run S uuid name params ro owner (pl_world p)\<rparr>) = (u, p')"
  shows "\<exists>os'. extends E S os p os' p'
    \<and> (\<forall>x. u = Inr x \<longrightarrow> os' = os @ [(uuid, length (wf_heap (pl_world p)))] \<and> pl_tasks p' = pl_tasks p @ [TStart uuid h])"
proof -
  let ?w = "create_run S uuid name params ro owner (pl_world p)" and ?ref = "length (wf_heap (pl_world p))"
  have ok: "pool_ok S os p" using life by (simp add: life_ok_def)
  have w': "pl_world p' = ?w" using p' by (auto simp: pool_submit_def split: if_splits)
  have kept: "kept S (pl_world p) ?w"
    using fresh create_effect(4) unfolding kept_def by (metis grows_refl sum.distinct(1))
  have new: "consistent (new_run uuid name ?ref ro owner)"
    by (simp add: consistent_def new_run_def clean_def)
  have ne: "fst (os ! i) \<noteq> uuid" if "i < length os" for i
    using pool_okD(4) [OF ok that] fresh by (auto simp: owns_def)
  have st: "stage (pl_tasks p ! i) (stored S (fst (os ! i)) ?w)" if "i < length os" for i
    using life that ne [OF that] create_effect(4) by (simp add: life_ok_def stored_def)
  have view: "final_view E S (os @ ys) i (p\<lparr>pl_world := ?w, pl_tasks := pl_tasks p @ ts\<rparr>) = final_view E S os i p"
    if i: "i < length os" for i ys ts
  proof -
    obtain r where o: "owns S (pl_world p) (pl_tasks p ! i) (fst (os ! i)) (snd (os ! i)) r" using pool_okD(4) [OF ok i] by blast
    from owns_create [OF this ne [OF i]] have o': "owns S ?w (pl_tasks p ! i) (fst (os ! i)) (snd (os ! i)) r"
      and "heap_get ?w (snd (os ! i)) = heap_get (pl_world p) (snd (os ! i))" by auto
    with i pool_okD(1) [OF ok] show ?thesis
      by (simp add: final_view_def nth_append owns_stored [OF o] owns_stored [OF o'])
  qed
  have orphan: "wr_status q = PENDING \<and> consistent q" if "get_run S rid ?w = Inr q" "rid \<notin> fst ` set os" for rid q
    using that life new create_effect(1,4) by (cases "rid = uuid") (auto simp: life_ok_def)
  show ?thesis
  proof (cases u)
    case (Inl e')
    then have "p' = p\<lparr>pl_world := ?w\<rparr>" using p' by (auto simp: pool_submit_def split: if_splits)
    moreover have "p\<lparr>pl_world := ?w\<rparr> = p\<lparr>pl_world := ?w, pl_tasks := pl_tasks p @ []\<rparr>" by simp
    ultimately show ?thesis
      using create_ok [OF ok fresh] st orphan kept view [of _ "[]" "[]"] Inl
      by (intro exI [of _ os]) (auto simp: life_ok_def extends_def)
  next
    case (Inr x)
    then have t: "pl_tasks p' = pl_tasks p @ [TStart uuid h]"
      and p'': "p' = p\<lparr>pl_world := ?w, pl_tasks := pl_tasks p @ [TStart uuid h]\<rparr>"
      using p' by (auto simp: pool_submit_def split: if_splits)
    have ok': "pool_ok S (os @ [(uuid, ?ref)]) p'"
      using submit_ok [OF ok fresh p' [unfolded Inr]] .
    have "stage (pl_tasks p' ! i) (stored S (fst ((os @ [(uuid, ?ref)]) ! i)) ?w)" if "i < Suc (length os)" for i
      using that st new pool_okD(1) [OF ok] create_effect(1) by (auto simp: t nth_append stored_def less_Suc_eq)
    then show ?thesis
      using ok' orphan kept w' t view [of _ "[(uuid, ?ref)]" "[TStart uuid h]"]
      by (intro exI [of _ "os @ [(uuid, ?ref)]"]) (auto simp: life_ok_def extends_def p'')
  qed
qed

lemma service_run_extends:
  assumes life: "life_ok S os p" and fresh: "get_run S uuid (pl_world p) = Inl e"
    and p': "service_run pl_world (\<lambda>f p. p\<lparr>pl_world := f (pl_world p)\<rparr>) S (thread_submit E S is) reg uuid name params ro owner p = (out, p')"
  shows "\<exists>os'. extends E S os p os' p'"
proof (cases "resolve_workflow reg name")
  case (Inl x)
  with p' have "p' = p" by (simp add: service_run_def)
  then show ?thesis using extends_refl [OF life] by blast
next
  case (Inr h)
  obtain u p1 where sub: "pool_submit uuid h (p\<lparr>pl_world := create_run S uuid name params ro owner (pl_world p)\<rparr>) = (u, p1)"
    by fastforce
  from create_life [OF life fresh this] obtain os1 where x1: "extends E S os p os1 p1" by blast
  then have "life_ok S os1 p1" by (simp add: extends_def)
  moreover have "p' = p1 \<or> p' = run_schedule E S is p1"
    using p' Inr sub by (cases u) (auto simp: service_run_def thread_submit_def)
  ultimately show ?thesis
    using x1 schedule_extends extends_trans by blast
qed

lemma next_extends:
  assumes life: "life_ok S os p" and nx: "wf_next E S reg p p'"
  shows "\<exists>os'. extends E S os p os' p'"
  using nx
proof cases
  case (next_run uuid e "is" name params owner out)
  from service_run_extends [OF life next_run(1)] next_run(2) show ?thesis unfolding thread_run_def by blast
next
  case (next_rerun uuid e "is" rid out)
  then consider "p' = p" | name params ro owner where
    "service_run pl_world (\<lambda>f p. p\<lparr>pl_world := f (pl_world p)\<rparr>) S (thread_submit E S is) reg uuid name params ro owner p = (out, p')"
    by (auto simp: thread_rerun_def service_rerun_def split: sum.splits if_splits)
  then show ?thesis
    using service_run_extends [OF life next_rerun(1)] extends_refl [OF life]
    by cases blast+
next
  case next_step
  then obtain i where "p' = advance E S i p" by (auto elim: pool_stepE)
  with advance_extends [OF life] show ?thesis by blast
next
  case next_shutdown
  with life show ?thesis
    by (intro exI [of _ os]) (auto simp: pool_shutdown_def extends_def life_ok_def pool_ok_def final_view_def)
qed

lemma nexts_extend:
  assumes "(wf_next E S reg)\<^sup>*\<^sup>* p p'" and "life_ok S os p"
  shows "\<exists>os'. extends E S os p os' p'"
  using assms
proof (induction rule: rtranclp_induct)
  case base
  then show ?case using extends_refl by blast
next
  case (step p1 p2)
  then obtain os1 where x1: "extends E S os p os1 p1" by blast
  then have "life_ok S os1 p1" by (simp add: extends_def)
  from next_extends [OF this step(2)] x1 extends_trans show ?case by blast
qed

lemma reach_life: "wf_reach E S reg p \<Longrightarrow> \<exists>os. life_ok S os p"
proof -
  assume "wf_reach E S reg p"
  then obtain s n where e: "\<forall>rid. ws_get S rid s = Inl (WorkflowRunNotFound rid)"
    and nx: "(wf_next E S reg)\<^sup>*\<^sup>* (empty_pool s n) p" by (auto simp: wf_reach_def)
  have "life_ok S [] (empty_pool s n)"
    using e by (simp add: life_ok_def pool_ok_def empty_pool_def get_run_def)
  from nexts_extend [OF nx this] show "\<exists>os. life_ok S os p" by (auto simp: extends_def)
qed

lemma life_consistent:
  assumes "life_ok S os p" and "get_run S rid (pl_world p) = Inr r"
  shows "consistent r"
proof (cases "rid \<in> fst ` set os")
  case True
  then obtain i where "i < length os" "fst (os ! i) = rid" by (auto simp: in_set_conv_nth image_iff)
  with assms have "stage (pl_tasks p ! i) r" by (auto simp: life_ok_def stored_def)
  then show ?thesis by (rule stage_consistent)
next
  case False
  with assms show ?thesis by (auto simp: life_ok_def)
qed

end

end
