(* ===== verification/Identity.thy ===== *)
theory Identity
  imports Errors
begin

section \<open>Identity and authorisation\<close>

text \<open>
  \<open>engine/identity/contracts.py\<close> and \<open>memory.py\<close>, and the Casbin adapter of
  \<open>adapters/identity/casbin\<close>. An identity provider is a record of operations; the locale
  \<open>identity_contract\<close> states what the routers and the bridge rely on. The Casbin library is an
  argument: the operations of its enforcer over a state \<open>'e\<close>. The decision that
  \<open>model.conf\<close> writes down is \<open>model_enforce\<close>, and \<open>casbin_documented\<close> is what the library's
  documentation says of the operations under that model.
\<close>

record user =
  user_id :: string
  display_name :: string
  roles :: "string list"
  default_workspace :: "string option"

record principal =
  pr_user :: user
  pr_workspace_id :: string

record identity_ops =
  ip_resolve_user :: "string \<Rightarrow> exn + user"
  ip_authorized_workspaces :: "user \<Rightarrow> string list"
  ip_can_access_workspace :: "user \<Rightarrow> string \<Rightarrow> bool"
  ip_can_use_skill :: "user \<Rightarrow> string \<Rightarrow> string \<Rightarrow> bool"
  ip_can_run_workflow :: "user \<Rightarrow> string \<Rightarrow> string \<Rightarrow> bool"

locale identity_contract =
  fixes I :: identity_ops
  assumes access_iff: "ip_can_access_workspace I u ws \<longleftrightarrow> ws \<in> set (ip_authorized_workspaces I u)"
    and unknown_user: "ip_resolve_user I ref = Inl e \<Longrightarrow> e = UnknownUser ref"
begin

lemma no_access_without_grant: "ip_authorized_workspaces I u = [] \<Longrightarrow> \<not> ip_can_access_workspace I u ws"
  by (simp add: access_iff)

end

subsection \<open>InMemoryIdentityProvider\<close>

record memory_identity =
  mi_users :: "string \<rightharpoonup> user"
  mi_authorized :: "string \<rightharpoonup> string list"
  mi_denied_skills :: "string \<rightharpoonup> string list"
  mi_denied_workflows :: "string \<rightharpoonup> string list"

definition get_or :: "'a list \<Rightarrow> 'a list option \<Rightarrow> 'a list" where
  "get_or d v = (case v of None \<Rightarrow> d | Some xs \<Rightarrow> xs)"

definition mi_resolve_user :: "memory_identity \<Rightarrow> string \<Rightarrow> exn + user" where
  "mi_resolve_user m ref = (case mi_users m ref of Some u \<Rightarrow> Inr u | None \<Rightarrow> Inl (UnknownUser ref))"

definition mi_authorized_workspaces :: "memory_identity \<Rightarrow> user \<Rightarrow> string list" where
  "mi_authorized_workspaces m u = get_or [] (mi_authorized m (user_id u))"

definition mi_can_access_workspace :: "memory_identity \<Rightarrow> user \<Rightarrow> string \<Rightarrow> bool" where
  "mi_can_access_workspace m u ws \<longleftrightarrow> ws \<in> set (mi_authorized_workspaces m u)"

definition mi_can_use_skill :: "memory_identity \<Rightarrow> user \<Rightarrow> string \<Rightarrow> string \<Rightarrow> bool" where
  "mi_can_use_skill m u ws skill \<longleftrightarrow> skill \<notin> set (get_or [] (mi_denied_skills m (user_id u)))"

definition mi_can_run_workflow :: "memory_identity \<Rightarrow> user \<Rightarrow> string \<Rightarrow> string \<Rightarrow> bool" where
  "mi_can_run_workflow m u ws workflow \<longleftrightarrow> workflow \<notin> set (get_or [] (mi_denied_workflows m (user_id u)))"

definition memory_identity_ops :: "memory_identity \<Rightarrow> identity_ops" where
  "memory_identity_ops m =
     \<lparr>ip_resolve_user = mi_resolve_user m, ip_authorized_workspaces = mi_authorized_workspaces m,
      ip_can_access_workspace = mi_can_access_workspace m, ip_can_use_skill = mi_can_use_skill m,
      ip_can_run_workflow = mi_can_run_workflow m\<rparr>"

lemma memory_identity_sel [simp]:
  "ip_resolve_user (memory_identity_ops m) = mi_resolve_user m"
  "ip_authorized_workspaces (memory_identity_ops m) = mi_authorized_workspaces m"
  "ip_can_access_workspace (memory_identity_ops m) = mi_can_access_workspace m"
  "ip_can_use_skill (memory_identity_ops m) = mi_can_use_skill m"
  "ip_can_run_workflow (memory_identity_ops m) = mi_can_run_workflow m"
  by (simp_all add: memory_identity_ops_def)

interpretation memid: identity_contract "memory_identity_ops m"
  by unfold_locales (auto simp: mi_can_access_workspace_def mi_resolve_user_def split: option.splits)

subsection \<open>CasbinIdentityProvider\<close>

text \<open>A policy rule \<open>p = sub, ws, obj, act, eft\<close>.\<close>

record policy_rule =
  p_sub :: string
  p_ws :: string
  p_obj :: string
  p_act :: string
  p_eft :: string

definition field_matches :: "string \<Rightarrow> string \<Rightarrow> bool" where
  "field_matches r p \<longleftrightarrow> r = p \<or> p = ''*''"

definition rule_matches :: "policy_rule \<Rightarrow> string \<Rightarrow> string \<Rightarrow> string \<Rightarrow> string \<Rightarrow> bool" where
  \<comment> \<open>\<open>[matchers]\<close> of \<open>model.conf\<close>\<close>
  "rule_matches p sub ws obj act \<longleftrightarrow>
     field_matches sub (p_sub p) \<and> field_matches ws (p_ws p)
     \<and> field_matches obj (p_obj p) \<and> field_matches act (p_act p)"

definition model_enforce :: "policy_rule list \<Rightarrow> string \<Rightarrow> string \<Rightarrow> string \<Rightarrow> string \<Rightarrow> bool" where
  \<comment> \<open>\<open>[policy_effect] e = !some(where (p.eft == deny))\<close>\<close>
  "model_enforce rules sub ws obj act \<longleftrightarrow>
     \<not> list_ex (\<lambda>p. rule_matches p sub ws obj act \<and> p_eft p = ''deny'') rules"

record 'e casbin_lib =
  cl_load :: "string \<Rightarrow> string \<Rightarrow> string + 'e"
  cl_enforce :: "'e \<Rightarrow> string \<Rightarrow> string \<Rightarrow> string \<Rightarrow> string \<Rightarrow> bool"
  cl_add_policy :: "policy_rule \<Rightarrow> 'e \<Rightarrow> bool \<times> 'e"
  cl_remove_policy :: "policy_rule \<Rightarrow> 'e \<Rightarrow> bool \<times> 'e"
  cl_load_policy :: "'e \<Rightarrow> (string + unit) \<times> 'e"

definition casbin_documented :: "'e casbin_lib \<Rightarrow> ('e \<Rightarrow> policy_rule list) \<Rightarrow> bool" where
  \<comment> \<open>decisions follow the model over the rule table; a rule is kept once, appended when new, and
     the answer says whether the table changed\<close>
  "casbin_documented L rules \<longleftrightarrow>
     (\<forall>e sub ws obj act. cl_enforce L e sub ws obj act = model_enforce (rules e) sub ws obj act)
     \<and> (\<forall>e p. fst (cl_add_policy L p e) = (p \<notin> set (rules e))
          \<and> rules (snd (cl_add_policy L p e)) = (if p \<in> set (rules e) then rules e else rules e @ [p]))
     \<and> (\<forall>e p. fst (cl_remove_policy L p e) = (p \<in> set (rules e))
          \<and> rules (snd (cl_remove_policy L p e)) = remove1 p (rules e))"

record 'e casbin_identity =
  cb_base :: identity_ops
  cb_model_path :: string
  cb_policy_path :: string
  cb_enforcer :: 'e

definition cb_load_enforcer :: "'e casbin_lib \<Rightarrow> (string \<Rightarrow> bool) \<Rightarrow> string \<Rightarrow> string \<Rightarrow> exn + 'e" where
  "cb_load_enforcer L exists model policy =
     (if \<not> exists model then Inl (CasbinIdentityProviderError (''Casbin model file not found: '' @ model))
      else if \<not> exists policy then Inl (CasbinIdentityProviderError (''Casbin policy file not found: '' @ policy))
      else (case cl_load L model policy of
              Inl err \<Rightarrow> Inl (CasbinIdentityProviderError
                (''Failed to load Casbin enforcer (model='' @ model @ '', policy='' @ policy @ ''): '' @ err))
            | Inr e \<Rightarrow> Inr e))"

definition cb_init :: "'e casbin_lib \<Rightarrow> (string \<Rightarrow> bool) \<Rightarrow> identity_ops \<Rightarrow> string \<Rightarrow> string \<Rightarrow> exn + 'e casbin_identity" where
  "cb_init L exists base model policy =
     res_bind (cb_load_enforcer L exists model policy)
       (\<lambda>e. Inr \<lparr>cb_base = base, cb_model_path = model, cb_policy_path = policy, cb_enforcer = e\<rparr>)"

definition cb_can_use_skill :: "'e casbin_lib \<Rightarrow> 'e casbin_identity \<Rightarrow> user \<Rightarrow> string \<Rightarrow> string \<Rightarrow> bool" where
  "cb_can_use_skill L c u ws skill = cl_enforce L (cb_enforcer c) (user_id u) ws skill ''use''"

definition cb_can_run_workflow :: "'e casbin_lib \<Rightarrow> 'e casbin_identity \<Rightarrow> user \<Rightarrow> string \<Rightarrow> string \<Rightarrow> bool" where
  "cb_can_run_workflow L c u ws workflow = cl_enforce L (cb_enforcer c) (user_id u) ws workflow ''run''"

definition casbin_identity_ops :: "'e casbin_lib \<Rightarrow> 'e casbin_identity \<Rightarrow> identity_ops" where
  "casbin_identity_ops L c =
     \<lparr>ip_resolve_user = ip_resolve_user (cb_base c),
      ip_authorized_workspaces = ip_authorized_workspaces (cb_base c),
      ip_can_access_workspace = ip_can_access_workspace (cb_base c),
      ip_can_use_skill = cb_can_use_skill L c, ip_can_run_workflow = cb_can_run_workflow L c\<rparr>"

lemma casbin_identity_sel [simp]:
  "ip_resolve_user (casbin_identity_ops L c) = ip_resolve_user (cb_base c)"
  "ip_authorized_workspaces (casbin_identity_ops L c) = ip_authorized_workspaces (cb_base c)"
  "ip_can_access_workspace (casbin_identity_ops L c) = ip_can_access_workspace (cb_base c)"
  "ip_can_use_skill (casbin_identity_ops L c) = cb_can_use_skill L c"
  "ip_can_run_workflow (casbin_identity_ops L c) = cb_can_run_workflow L c"
  by (simp_all add: casbin_identity_ops_def)

context identity_contract
begin

text \<open>Wrapping a provider that keeps the contract gives one that keeps it.\<close>

lemma casbin_contract: "cb_base c = I \<Longrightarrow> identity_contract (casbin_identity_ops L c)"
  by unfold_locales (simp_all add: access_iff unknown_user)

end

interpretation casid: identity_contract
  "casbin_identity_ops L \<lparr>cb_base = memory_identity_ops m, cb_model_path = mp, cb_policy_path = pp, cb_enforcer = e\<rparr>"
  by (rule memid.casbin_contract) simp

definition allowed_effects :: "string list" where
  "allowed_effects = [''allow'', ''deny'']"

definition bad_effect :: "string \<Rightarrow> exn" where
  "bad_effect eft =
     ValueError (''eft must be one of ('' @ join_with '', '' (List.map repr_str allowed_effects) @ ''), got '' @ repr_str eft)"

definition cb_reload_policy ::
  "'e casbin_lib \<Rightarrow> (string \<Rightarrow> bool) \<Rightarrow> 'e casbin_identity \<Rightarrow> (exn + unit) \<times> 'e casbin_identity" where
  "cb_reload_policy L exists c =
     (if \<not> exists (cb_policy_path c)
      then (Inl (CasbinIdentityProviderError (''Casbin policy file not found: '' @ cb_policy_path c)), c)
      else (case cl_load_policy L (cb_enforcer c) of
              (Inl err, e) \<Rightarrow>
                (Inl (CasbinIdentityProviderError
                   (''Failed to reload Casbin policy from '' @ cb_policy_path c @ '': '' @ err)), c\<lparr>cb_enforcer := e\<rparr>)
            | (Inr _, e) \<Rightarrow> (Inr (), c\<lparr>cb_enforcer := e\<rparr>)))"

definition cb_add_policy :: "'e casbin_lib \<Rightarrow> policy_rule \<Rightarrow> 'e casbin_identity \<Rightarrow> (exn + bool) \<times> 'e casbin_identity" where
  "cb_add_policy L p c =
     (if p_eft p \<notin> set allowed_effects then (Inl (bad_effect (p_eft p)), c)
      else let (b, e) = cl_add_policy L p (cb_enforcer c) in (Inr b, c\<lparr>cb_enforcer := e\<rparr>))"

definition cb_remove_policy :: "'e casbin_lib \<Rightarrow> policy_rule \<Rightarrow> 'e casbin_identity \<Rightarrow> (exn + bool) \<times> 'e casbin_identity" where
  "cb_remove_policy L p c =
     (if p_eft p \<notin> set allowed_effects then (Inl (bad_effect (p_eft p)), c)
      else let (b, e) = cl_remove_policy L p (cb_enforcer c) in (Inr b, c\<lparr>cb_enforcer := e\<rparr>))"

lemma model_enforce_append:
  "model_enforce (rs @ [p]) sub ws obj act \<longleftrightarrow>
     model_enforce rs sub ws obj act \<and> \<not> (rule_matches p sub ws obj act \<and> p_eft p = ''deny'')"
  by (auto simp: model_enforce_def)

lemma casbin_documentedD:
  assumes "casbin_documented L rules"
  shows "cl_enforce L e sub ws obj act = model_enforce (rules e) sub ws obj act"
    and "fst (cl_add_policy L p e) = (p \<notin> set (rules e))"
    and "rules (snd (cl_add_policy L p e)) = (if p \<in> set (rules e) then rules e else rules e @ [p])"
    and "fst (cl_remove_policy L p e) = (p \<in> set (rules e))"
    and "rules (snd (cl_remove_policy L p e)) = remove1 p (rules e)"
  using assms unfolding casbin_documented_def by blast+

subsection \<open>Property\<close>

definition denies :: "policy_rule \<Rightarrow> user \<Rightarrow> string \<Rightarrow> string \<Rightarrow> string \<Rightarrow> bool" where
  "denies p u ws name act \<longleftrightarrow> p_eft p = ''deny'' \<and> rule_matches p (user_id u) ws name act"

definition demo_casbin_lib :: "policy_rule list casbin_lib" where
  \<comment> \<open>an enforcer that is its rule table, as documented\<close>
  "demo_casbin_lib =
     \<lparr>cl_load = (\<lambda>_ _. Inr []), cl_enforce = model_enforce,
      cl_add_policy = (\<lambda>p rs. if p \<in> set rs then (False, rs) else (True, rs @ [p])),
      cl_remove_policy = (\<lambda>p rs. (p \<in> set rs, remove1 p rs)), cl_load_policy = (\<lambda>rs. (Inr (), []))\<rparr>"

lemma demo_casbin_documented: "casbin_documented demo_casbin_lib (\<lambda>rs. rs)"
  by (simp add: casbin_documented_def demo_casbin_lib_def)

text \<open>C22. Under the shipped model, \<open>add_policy\<close> of a new rule changes decisions by exactly that
  rule - a user may still use a skill (run a workflow) just when they could before and the rule
  does not deny it - and \<open>remove_policy\<close> of it restores every decision; who can access a
  workspace changes at no point.\<close>

theorem casbin_policy_round_trip:
  assumes "casbin_documented L rules"
    and "cb_add_policy L p c = (Inr True, c1)" and "cb_remove_policy L p c1 = (r, c2)"
  shows "ip_can_use_skill (casbin_identity_ops L c1) u w s
      = (ip_can_use_skill (casbin_identity_ops L c) u w s \<and> \<not> denies p u w s ''use'')
    \<and> ip_can_run_workflow (casbin_identity_ops L c1) u w s
      = (ip_can_run_workflow (casbin_identity_ops L c) u w s \<and> \<not> denies p u w s ''run'')
    \<and> r = Inr True
    \<and> ip_can_use_skill (casbin_identity_ops L c2) u w s = ip_can_use_skill (casbin_identity_ops L c) u w s
    \<and> ip_can_run_workflow (casbin_identity_ops L c2) u w s = ip_can_run_workflow (casbin_identity_ops L c) u w s
    \<and> ip_can_access_workspace (casbin_identity_ops L c1) = ip_can_access_workspace (casbin_identity_ops L c)
    \<and> ip_can_access_workspace (casbin_identity_ops L c2) = ip_can_access_workspace (casbin_identity_ops L c)"
proof -
  note lib = casbin_documentedD [OF assms(1)]
  let ?e = "cb_enforcer c"
  let ?e1 = "snd (cl_add_policy L p ?e)"
  let ?e2 = "snd (cl_remove_policy L p ?e1)"
  from assms(2) have eft: "p_eft p \<in> set allowed_effects" and "fst (cl_add_policy L p ?e)"
    and c1: "c1 = c\<lparr>cb_enforcer := ?e1\<rparr>"
    by (auto simp: cb_add_policy_def split: if_splits prod.splits)
  then have new: "p \<notin> set (rules ?e)" and r1: "rules ?e1 = rules ?e @ [p]"
    by (simp_all add: lib(2,3))
  from assms(3) eft have c2: "c2 = c\<lparr>cb_enforcer := ?e2\<rparr>" and r: "r = Inr True"
    using r1 by (auto simp: cb_remove_policy_def c1 lib(4) split: prod.splits dest: arg_cong [where f = fst])
  have "rules ?e2 = rules ?e" using new by (simp add: lib(5) r1 remove1_append)
  with r show ?thesis
    by (auto simp: cb_can_use_skill_def cb_can_run_workflow_def lib(1) c1 c2 r1 model_enforce_append denies_def)
qed

theorem casbin_policy_round_trip_witness:
  "let u = \<lparr>user_id = ''u1'', display_name = ''U'', roles = [], default_workspace = None\<rparr>;
       p = \<lparr>p_sub = ''*'', p_ws = ''ws1'', p_obj = ''deploy'', p_act = ''run'', p_eft = ''deny''\<rparr>;
       c = \<lparr>cb_base = memory_identity_ops \<lparr>mi_users = Map.empty, mi_authorized = Map.empty,
              mi_denied_skills = Map.empty, mi_denied_workflows = Map.empty\<rparr>,
            cb_model_path = ''m'', cb_policy_path = ''p'', cb_enforcer = []\<rparr>;
       c1 = snd (cb_add_policy demo_casbin_lib p c)
   in \<not> ip_can_run_workflow (casbin_identity_ops demo_casbin_lib c1) u ''ws1'' ''deploy''
      \<and> ip_can_run_workflow (casbin_identity_ops demo_casbin_lib (snd (cb_remove_policy demo_casbin_lib p c1))) u ''ws1'' ''deploy''"
proof -
  let ?u = "\<lparr>user_id = ''u1'', display_name = ''U'', roles = [], default_workspace = None\<rparr>"
  let ?p = "\<lparr>p_sub = ''*'', p_ws = ''ws1'', p_obj = ''deploy'', p_act = ''run'', p_eft = ''deny''\<rparr>"
  let ?c = "\<lparr>cb_base = memory_identity_ops \<lparr>mi_users = Map.empty, mi_authorized = Map.empty,
              mi_denied_skills = Map.empty, mi_denied_workflows = Map.empty\<rparr>,
            cb_model_path = ''m'', cb_policy_path = ''p'', cb_enforcer = []\<rparr>"
  let ?c1 = "?c\<lparr>cb_enforcer := [?p]\<rparr>"
  have add: "cb_add_policy demo_casbin_lib ?p ?c = (Inr True, ?c1)"
    by (simp add: cb_add_policy_def allowed_effects_def demo_casbin_lib_def)
  obtain r c2 where rem: "cb_remove_policy demo_casbin_lib ?p ?c1 = (r, c2)" by fastforce
  have "denies ?p ?u ''ws1'' ''deploy'' ''run''"
    by (simp add: denies_def rule_matches_def field_matches_def)
  moreover have "ip_can_run_workflow (casbin_identity_ops demo_casbin_lib ?c) ?u ''ws1'' ''deploy''"
    by (simp add: cb_can_run_workflow_def demo_casbin_lib_def model_enforce_def)
  ultimately have "\<not> ip_can_run_workflow (casbin_identity_ops demo_casbin_lib ?c1) ?u ''ws1'' ''deploy''"
    and "ip_can_run_workflow (casbin_identity_ops demo_casbin_lib c2) ?u ''ws1'' ''deploy''"
    using casbin_policy_round_trip [OF demo_casbin_documented add rem, of ?u "''ws1''" "''deploy''"] by blast+
  then show ?thesis by (simp only: Let_def add rem snd_conv) simp
qed

end
