(* ===== verification/Bridge.thy ===== *)
theory Bridge
  imports Workflow_Life Context Identity
begin

section \<open>WorkflowToolBridge\<close>

text \<open>
  \<open>engine/workflows/bridge.py\<close>: a workflow as a tool of the agent, with the checks of workspace,
  allow-list and per-user permission before a run and again before every read. The service is an
  argument, so that the bridge stands over either executor. \<open>bridge_hist\<close> is the system of a
  bridge, the pool and a changing policy; its log keeps the attempts.
\<close>

record tool_invocation_result =
  ti_run_id :: string
  ti_status :: workflow_status

type_synonym 'w run_service = "string \<Rightarrow> pyv dict option \<Rightarrow> string \<Rightarrow> 'w \<Rightarrow> (exn + workflow_run) \<times> 'w"

definition inline_service :: "wf_env \<Rightarrow> 's workflow_store_ops \<Rightarrow> engine_registry \<Rightarrow> string \<Rightarrow> 's wf_world run_service" where
  "inline_service E S reg uuid name params owner = inline_run E S reg uuid name params None (Some owner)"

definition thread_service :: "wf_env \<Rightarrow> 's workflow_store_ops \<Rightarrow> nat list \<Rightarrow> engine_registry \<Rightarrow> string \<Rightarrow> 's wf_pool run_service" where
  "thread_service E S is reg uuid name params owner = thread_run E S is reg uuid name params None (Some owner)"

definition check_workflow :: "identity_ops \<Rightarrow> workspace_resolver \<Rightarrow> principal \<Rightarrow> string \<Rightarrow> exn + unit" where
  \<comment> \<open>the resolution of the workspace, its allow-list, the permission of the user\<close>
  "check_workflow I rs pr name =
     res_bind (resolve rs (pr_workspace_id pr) (Some (user_id (pr_user pr))))
       (\<lambda>ws. if name \<notin> set (rw_allowed_workflows ws) then Inl (WorkflowNotAllowed (pr_workspace_id pr) name)
             else if \<not> ip_can_run_workflow I (pr_user pr) (pr_workspace_id pr) name
             then Inl (WorkflowNotAllowed (pr_workspace_id pr) name)
             else Inr ())"

definition bridge_invoke :: "identity_ops \<Rightarrow> workspace_resolver \<Rightarrow> 'w run_service \<Rightarrow> string \<Rightarrow> pyv dict option
    \<Rightarrow> principal \<Rightarrow> 'w \<Rightarrow> (exn + tool_invocation_result) \<times> 'w" where
  "bridge_invoke I rs run name params pr w =
     (if \<not> ip_can_access_workspace I (pr_user pr) (pr_workspace_id pr)
      then (Inl (WorkflowNotAllowed (pr_workspace_id pr) name), w)
      else (case check_workflow I rs pr name of
              Inl e \<Rightarrow> (Inl e, w)
            | Inr _ \<Rightarrow>
                (case run name params (pr_workspace_id pr) w of
                   (Inl e, w') \<Rightarrow> (Inl e, w')
                 | (Inr r, w') \<Rightarrow> (Inr \<lparr>ti_run_id = wr_id r, ti_status = wr_status r\<rparr>, w'))))"

definition bridge_get :: "identity_ops \<Rightarrow> workspace_resolver \<Rightarrow> 's workflow_store_ops \<Rightarrow> string \<Rightarrow> principal
    \<Rightarrow> 's wf_world \<Rightarrow> exn + workflow_run" where
  "bridge_get I rs S rid pr w =
     res_bind (get_run S rid w)
       (\<lambda>r. if \<not> ip_can_access_workspace I (pr_user pr) (pr_workspace_id pr)
            then Inl (WorkflowNotAllowed (pr_workspace_id pr) (wr_name r))
            else if wr_owner r \<noteq> Some (pr_workspace_id pr)
            then Inl (WorkflowNotAllowed (pr_workspace_id pr) (wr_name r))
            else res_bind (check_workflow I rs pr (wr_name r)) (\<lambda>_. Inr r))"

subsection \<open>Permission\<close>

definition permits :: "identity_ops \<Rightarrow> workspace_resolver \<Rightarrow> principal \<Rightarrow> string \<Rightarrow> bool" where
  \<comment> \<open>may the principal run the workflow, as the policy stands\<close>
  "permits I rs pr name \<longleftrightarrow>
     ip_can_access_workspace I (pr_user pr) (pr_workspace_id pr)
     \<and> (\<exists>ws. resolve rs (pr_workspace_id pr) (Some (user_id (pr_user pr))) = Inr ws \<and> name \<in> set (rw_allowed_workflows ws))
     \<and> ip_can_run_workflow I (pr_user pr) (pr_workspace_id pr) name"

lemma check_workflow_iff:
  "ip_can_access_workspace I (pr_user pr) (pr_workspace_id pr) \<Longrightarrow> check_workflow I rs pr name = Inr () \<longleftrightarrow> permits I rs pr name"
  by (auto simp: check_workflow_def permits_def)

lemma bridge_get_iff:
  "bridge_get I rs S rid pr w = Inr r \<longleftrightarrow>
     get_run S rid w = Inr r \<and> wr_owner r = Some (pr_workspace_id pr) \<and> permits I rs pr (wr_name r)"
  by (cases "get_run S rid w") (auto simp: bridge_get_def check_workflow_iff, auto simp: permits_def)

lemma bridge_invoke_refused:
  "\<not> permits I rs pr name \<Longrightarrow> \<exists>e. bridge_invoke I rs run name params pr w = (Inl e, w)"
  using check_workflow_iff [of I pr rs name]
  by (cases "check_workflow I rs pr name") (auto simp: bridge_invoke_def)

lemma bridge_invoke_run:
  "permits I rs pr name \<Longrightarrow> bridge_invoke I rs run name params pr w =
     (case run name params (pr_workspace_id pr) w of
        (Inl e, w') \<Rightarrow> (Inl e, w')
      | (Inr r, w') \<Rightarrow> (Inr \<lparr>ti_run_id = wr_id r, ti_status = wr_status r\<rparr>, w'))"
  using check_workflow_iff [of I pr rs name]
  by (cases "check_workflow I rs pr name") (auto simp: bridge_invoke_def permits_def)

subsection \<open>Histories\<close>

record invocation =
  iv_identity :: identity_ops
  iv_resolver :: workspace_resolver
  iv_principal :: principal
  iv_name :: string
  iv_run_id :: string

definition answers :: "invocation \<Rightarrow> workflow_run \<Rightarrow> bool" where
  \<comment> \<open>the run is one this attempt was allowed to start\<close>
  "answers iv r \<longleftrightarrow> iv_run_id iv = wr_id r \<and> iv_name iv = wr_name r \<and> Some (pr_workspace_id (iv_principal iv)) = wr_owner r
     \<and> permits (iv_identity iv) (iv_resolver iv) (iv_principal iv) (iv_name iv)"

lemma answers_grows: "answers iv r \<Longrightarrow> grows r r' \<Longrightarrow> answers iv r'"
proof -
  assume a: "answers iv r" and "grows r r'"
  then have same: "wr_id r' = wr_id r" "wr_name r' = wr_name r" "wr_owner r' = wr_owner r" by (simp_all add: grows_def)
  have "answers iv r' = answers iv r" unfolding answers_def same by (rule refl)
  with a show ?thesis by simp
qed

lemma keptD: "kept S w w' \<Longrightarrow> get_run S rid w = Inr r \<Longrightarrow> get_run S rid w' = Inr r' \<Longrightarrow> grows r r'"
  unfolding kept_def by fastforce

lemma grows_id: "grows r r' \<Longrightarrow> wr_id r' = wr_id r"
  by (simp add: grows_def)

inductive bridge_hist :: "wf_env \<Rightarrow> 's workflow_store_ops \<Rightarrow> engine_registry \<Rightarrow> 's wf_pool \<Rightarrow> invocation list \<Rightarrow> bool"
  for E S reg where
  hist_start: "(\<And>rid. ws_get S rid s = Inl (WorkflowRunNotFound rid)) \<Longrightarrow> bridge_hist E S reg (empty_pool s n) []"
| hist_step: "bridge_hist E S reg p ivs \<Longrightarrow> pool_step E S p p' \<Longrightarrow> bridge_hist E S reg p' ivs"
| hist_shutdown: "bridge_hist E S reg p ivs \<Longrightarrow> bridge_hist E S reg (pool_shutdown p) ivs"
| hist_invoke: "bridge_hist E S reg p ivs \<Longrightarrow> get_run S uuid (pl_world p) = Inl e
     \<Longrightarrow> bridge_invoke I rs (thread_service E S is reg uuid) name params pr p = (out, p')
     \<Longrightarrow> bridge_hist E S reg p' (ivs @ [\<lparr>iv_identity = I, iv_resolver = rs, iv_principal = pr, iv_name = name, iv_run_id = uuid\<rparr>])"

definition runs_in :: "'s workflow_store_ops \<Rightarrow> 's wf_pool \<Rightarrow> string \<Rightarrow> bool" where
  "runs_in S p rid \<longleftrightarrow> (\<exists>r. get_run S rid (pl_world p) = Inr r)"

context workflow_store
begin

text \<open>Steps of workers create no run.\<close>

lemma advance_runs:
  assumes "life_ok S os p"
  shows "runs_in S (advance E S i p) rid \<longleftrightarrow> runs_in S p rid"
proof (cases "i < length (pl_tasks p)")
  case False
  then show ?thesis by (simp add: advance_out)
next
  case True
  have ok: "pool_ok S os p" using assms by (simp add: life_ok_def)
  then have i: "i < length os" using True by (simp add: pool_ok_def)
  obtain r where o: "owns S (pl_world p) (pl_tasks p ! i) (fst (os ! i)) (snd (os ! i)) r" using pool_okD(4) [OF ok i] by blast
  obtain t' w' where st: "task_step E S (pl_tasks p ! i) (pl_world p) = (t', w')" by fastforce
  have "pl_world (advance E S i p) = w'" using True by (simp add: advance_def st)
  with task_step_owns [OF o st] o show ?thesis
    by (cases "rid = fst (os ! i)") (auto simp: runs_in_def elsewhere_def owns_def)
qed

lemma schedule_runs:
  "life_ok S os p \<Longrightarrow> runs_in S (run_schedule E S is p) rid \<longleftrightarrow> runs_in S p rid"
proof (induction "is" arbitrary: p)
  case Nil
  then show ?case by (simp add: run_schedule_def)
next
  case (Cons i "is")
  from Cons.IH [of "advance E S i p"] advance_life [OF Cons.prems, of E i] advance_runs [OF Cons.prems, of E i]
  show ?case by (simp add: run_schedule_def)
qed

lemma thread_run_runs:
  assumes life: "life_ok S os p" and fresh: "get_run S uuid (pl_world p) = Inl e"
    and run: "thread_run E S is reg uuid name params ro owner p = (out, p')"
  shows "(\<forall>rid. runs_in S p' rid \<longrightarrow> runs_in S p rid \<or> rid = uuid)
    \<and> (\<forall>r. get_run S uuid (pl_world p') = Inr r \<longrightarrow> wr_id r = uuid \<and> wr_name r = name \<and> wr_owner r = owner)"
proof (cases "resolve_workflow reg name")
  case (Inl x)
  with run fresh show ?thesis by (simp add: thread_run_def service_run_def)
next
  case (Inr h)
  obtain u p1 where sub: "pool_submit uuid h (p\<lparr>pl_world := create_run S uuid name params ro owner (pl_world p)\<rparr>) = (u, p1)"
    by fastforce
  from create_life [OF life fresh this, of E] obtain os1 where l1: "life_ok S os1 p1" by (auto simp: extends_def)
  have w1: "pl_world p1 = create_run S uuid name params ro owner (pl_world p)"
    using sub by (auto simp: pool_submit_def split: if_splits)
  obtain js where p': "p' = run_schedule E S js p1"
    using run Inr sub by (cases u) (auto simp: thread_run_def service_run_def thread_submit_def run_schedule_def intro: that [of "[]"] that [of "is"])
  have r1: "runs_in S p1 rid \<longleftrightarrow> runs_in S p rid \<or> rid = uuid" for rid
    using create_effect(1,4) [where uuid = uuid and name = name and params = params and ro = ro and owner = owner and w = "pl_world p"]
    by (cases "rid = uuid") (auto simp: runs_in_def w1)
  have "kept S (pl_world p1) (pl_world p')"
    using schedule_extends [OF l1, of E js] by (simp add: extends_def p')
  then obtain r where "get_run S uuid (pl_world p') = Inr r"
    "grows (new_run uuid name (length (wf_heap (pl_world p))) ro owner) r"
    unfolding kept_def w1 using create_effect(1) by blast
  then have "\<forall>r. get_run S uuid (pl_world p') = Inr r \<longrightarrow> wr_id r = uuid \<and> wr_name r = name \<and> wr_owner r = owner"
    by (auto simp: grows_def)
  with r1 schedule_runs [OF l1, of E js] show ?thesis by (auto simp: p')
qed

lemma hist_answers:
  "bridge_hist E S reg p ivs \<Longrightarrow> (\<exists>os. life_ok S os p)
     \<and> (\<forall>rid r. get_run S rid (pl_world p) = Inr r \<longrightarrow> wr_id r = rid \<and> (\<exists>iv \<in> set ivs. answers iv r))"
proof (induction rule: bridge_hist.induct)
  case (hist_start s n)
  then have "wf_reach E S reg (empty_pool s n)" unfolding wf_reach_def by blast
  from reach_life [OF this] hist_start show ?case by (simp add: empty_pool_def get_run_def)
next
  case (hist_step p ivs p')
  then obtain i os where i: "p' = advance E S i p" and l: "life_ok S os p" by (auto elim: pool_stepE)
  have "wr_id r' = rid \<and> (\<exists>iv \<in> set ivs. answers iv r')" if r': "get_run S rid (pl_world p') = Inr r'" for rid r'
  proof -
    obtain r where r: "get_run S rid (pl_world p) = Inr r"
      using advance_runs [OF l, of E i rid] r' by (auto simp: i runs_in_def)
    from advance_life [OF l, of E i] have "kept S (pl_world p) (pl_world p')" by (simp add: i)
    from keptD [OF this r r'] have g: "grows r r'" .
    from hist_step.IH r obtain iv where "iv \<in> set ivs" "answers iv r" "wr_id r = rid" by blast
    with answers_grows [OF _ g] grows_id [OF g] show ?thesis by auto
  qed
  with advance_life [OF l, of E i] show ?case by (auto simp: i)
next
  case (hist_shutdown p ivs)
  then obtain os where "life_ok S os p" by blast
  from next_extends [OF this next_shutdown] obtain os' where "life_ok S os' (pool_shutdown p)" by (auto simp: extends_def)
  with hist_shutdown.IH show ?case by (auto simp: pool_shutdown_def)
next
  case (hist_invoke p ivs uuid e I rs "is" name params pr out p')
  then obtain os where l: "life_ok S os p" by blast
  let ?iv = "\<lparr>iv_identity = I, iv_resolver = rs, iv_principal = pr, iv_name = name, iv_run_id = uuid\<rparr>"
  show ?case
  proof (cases "permits I rs pr name")
    case False
    from bridge_invoke_refused [OF this, where run = "thread_service E S is reg uuid" and params = params and w = p] hist_invoke
    show ?thesis by auto
  next
    case True
    obtain x where run: "thread_run E S is reg uuid name params None (Some (pr_workspace_id pr)) p = (x, p')"
      using hist_invoke.hyps(3) bridge_invoke_run [OF True, of "thread_service E S is reg uuid" params p]
      by (auto simp: thread_service_def split: prod.splits sum.splits)
    from next_extends [OF l next_run [OF hist_invoke.hyps(2) run]] obtain os' where x: "extends E S os p os' p'" by blast
    have "wr_id r' = rid \<and> (\<exists>iv \<in> set (ivs @ [?iv]). answers iv r')" if r': "get_run S rid (pl_world p') = Inr r'" for rid r'
    proof (cases "rid = uuid")
      case True
      with thread_run_runs [OF l hist_invoke.hyps(2) run] r' \<open>permits I rs pr name\<close> show ?thesis by (auto simp: answers_def)
    next
      case False
      with thread_run_runs [OF l hist_invoke.hyps(2) run] r' obtain r where r: "get_run S rid (pl_world p) = Inr r"
        by (auto simp: runs_in_def)
      from x have "kept S (pl_world p) (pl_world p')" by (simp add: extends_def)
      from keptD [OF this r r'] have g: "grows r r'" .
      from hist_invoke.IH r obtain iv where "iv \<in> set ivs" "answers iv r" "wr_id r = rid" by blast
      with answers_grows [OF _ g] grows_id [OF g] show ?thesis by auto
    qed
    with x show ?thesis by (auto simp: extends_def)
  qed
qed

end

end
