(* ===== verification/Workflow_Properties.thy ===== *)
theory Workflow_Properties
  imports Workflow_Life
begin

section \<open>Properties of workflows\<close>

text \<open>
  The facts of the locale, on \<open>MemoryWorkflowStore\<close>. \<open>outcome\<close>, \<open>reports\<close> and
  \<open>params_after\<close> say what a handler returns or raises, what it reports and what it leaves in its
  dictionary; they depend on the handler alone.
\<close>

abbreviation (input) "MWF \<equiv> memory_wf_ops"

context workflow_store
begin

lemma pool_steps_left:
  assumes "(pool_step E S ^^ n) p p'" and "pool_ok S os p"
  shows "pool_ok S os p' \<and> n + total_left E os p' \<le> total_left E os p \<and> pl_max_workers p' = pl_max_workers p"
  using assms
proof (induction n arbitrary: p')
  case 0
  then show ?case by simp
next
  case (Suc n)
  then obtain q where q: "(pool_step E S ^^ n) p q" "pool_step E S q p'" by auto
  from Suc.IH [OF q(1) Suc.prems(2)] have ok: "pool_ok S os q" and le: "n + total_left E os q \<le> total_left E os p"
    and m: "pl_max_workers q = pl_max_workers p" by auto
  from q(2) have "pl_max_workers p' = pl_max_workers q" by (auto elim!: pool_stepE simp: advance_def split: prod.splits)
  with pool_step_less [OF ok q(2)] le m show ?case by auto
qed

lemma advance_workers [simp]: "pl_max_workers (advance E S i p) = pl_max_workers p"
  by (simp add: advance_def split: prod.splits)

lemma schedule_workers [simp]: "pl_max_workers (run_schedule E S is p) = pl_max_workers p"
  by (induction "is" arbitrary: p) (simp_all add: run_schedule_def)

lemma service_run_workers:
  assumes "service_run pl_world (\<lambda>f p. p\<lparr>pl_world := f (pl_world p)\<rparr>) S (thread_submit E S is) reg uuid name params ro owner p = (out, p')"
  shows "pl_max_workers p' = pl_max_workers p"
  using assms by (auto simp: service_run_def thread_submit_def pool_submit_def split: sum.splits if_splits)

lemma thread_run_workers:
  "thread_run E S is reg uuid name params ro owner p = (out, p') \<Longrightarrow> pl_max_workers p' = pl_max_workers p"
  by (simp add: thread_run_def service_run_workers)

lemma next_workers: "wf_next E S reg p p' \<Longrightarrow> pl_max_workers p' = pl_max_workers p"
  by (induction rule: wf_next.induct)
    (auto simp: thread_run_def thread_rerun_def service_rerun_def pool_shutdown_def
      dest: service_run_workers elim!: pool_stepE split: sum.splits if_splits)

lemma nexts_workers: "(wf_next E S reg)\<^sup>*\<^sup>* p p' \<Longrightarrow> pl_max_workers p' = pl_max_workers p"
  by (induction rule: rtranclp_induct) (auto dest: next_workers)

text \<open>A submitted run, followed to its end: a final status, or a task that is done.\<close>

lemma thread_run_end:
  assumes life: "life_ok S os p" and fresh: "get_run S uuid (pl_world p) = Inl e"
    and run: "thread_run E S is reg uuid name params ro owner p = (Inr r0, p1)"
    and nx: "(wf_next E S reg)\<^sup>*\<^sup>* p1 p2"
  defines "ref \<equiv> length (wf_heap (pl_world p))"
  shows "\<exists>h d r2. resolve_workflow reg name = Inr h \<and> d = (case params of None \<Rightarrow> [] | Some q \<Rightarrow> dict_of q)
    \<and> get_run S uuid (pl_world p2) = Inr r2
    \<and> (terminal (wr_status r2) \<or> (\<forall>t \<in> set (pl_tasks p2). is_done t) \<longrightarrow>
         erase_run r2 = finished_run E (h d) (with_status RUNNING 0 (new_run uuid name ref ro owner))
         \<and> heap_get (pl_world p2) ref = params_after E (h d) d \<and> wr_params r2 = ref)
    \<and> (terminal (wr_status r2) \<longrightarrow> escaped (outcome E (h d)) = None)"
proof -
  obtain h where h: "resolve_workflow reg name = Inr h"
    using run by (cases "resolve_workflow reg name") (auto simp: thread_run_def service_run_def)
  let ?c = "p\<lparr>pl_world := create_run S uuid name params ro owner (pl_world p)\<rparr>"
  obtain u q where sub: "pool_submit uuid h ?c = (u, q)" by fastforce
  have u: "u = Inr ()" and p1: "p1 = run_schedule E S is q"
    using run h sub by (cases u; auto simp: thread_run_def service_run_def thread_submit_def)+
  let ?os = "os @ [(uuid, ref)]" and ?k = "length os"
  from create_life [OF life fresh sub, of E] u have xq: "extends E S os p ?os q" and tq: "pl_tasks q = pl_tasks p @ [TStart uuid h]"
    by (auto simp: ref_def)
  then have lq: "life_ok S ?os q" by (simp add: extends_def)
  from schedule_extends [OF this, of E "is"] have x1: "extends E S ?os q ?os p1" by (simp add: p1)
  then have "life_ok S ?os p1" by (simp add: extends_def)
  from nexts_extend [OF nx this] obtain os2 where x2: "extends E S ?os p1 os2 p2" by blast
  from extends_trans [OF x1 x2] have l2: "life_ok S os2 p2" and pre: "prefix ?os os2"
    and view: "final_view E S os2 ?k p2 = final_view E S ?os ?k q"
    by (auto simp: extends_def)
  have k2: "?k < length os2" and o2: "os2 ! ?k = (uuid, ref)"
    using prefix_length_le [OF pre] pre by (auto simp: prefix_def nth_append)
  have wq: "pl_world q = create_run S uuid name params ro owner (pl_world p)"
    using sub by (auto simp: pool_submit_def split: if_splits)
  let ?d = "case params of None \<Rightarrow> [] | Some p \<Rightarrow> dict_of p"
  have len: "length (pl_tasks p) = ?k" using life by (simp add: life_ok_def pool_ok_def)
  have new: "stored S uuid (pl_world q) = new_run uuid name ref ro owner"
    by (simp add: stored_def wq create_effect(1) ref_def)
  have vq: "final_view E S ?os ?k q = after_body E (h ?d) (with_status RUNNING 0 (new_run uuid name ref ro owner)) ?d"
    using new create_effect(2) [where uuid = uuid and name = name and params = params and ro = ro and owner = owner and w = "pl_world p"]
    by (simp add: final_view_def tq len wq nth_append ref_def erase_run_def new_run_def)
  have ok2: "pool_ok S os2 p2" using l2 by (simp add: life_ok_def)
  obtain r2 where own: "owns S (pl_world p2) (pl_tasks p2 ! ?k) uuid ref r2"
    using pool_okD(4) [OF ok2 k2] o2 by auto
  then have r2: "get_run S uuid (pl_world p2) = Inr r2" and pr: "wr_params r2 = ref" by (auto simp: owns_def)
  have st: "stage (pl_tasks p2 ! ?k) r2" using l2 k2 o2 r2 by (auto simp: life_ok_def stored_def)
  have fv: "(erase_run r2, heap_get (pl_world p2) ref, x) = after_body E (h ?d) (with_status RUNNING 0 (new_run uuid name ref ro owner)) ?d"
    if "pl_tasks p2 ! ?k = TDone x" for x
    using pool_done_view [OF ok2 k2 that, of E] view vq o2 r2 by (simp add: stored_def)
  have final: "pl_tasks p2 ! ?k = TDone None" if "terminal (wr_status r2)"
    using st that by (cases "pl_tasks p2 ! ?k") (auto simp: terminal_def split: if_splits)
  have "\<exists>x. pl_tasks p2 ! ?k = TDone x" if "\<forall>t \<in> set (pl_tasks p2). is_done t"
  proof -
    have "is_done (pl_tasks p2 ! ?k)" using that k2 pool_okD(1) [OF ok2] by simp
    then show ?thesis by (cases "pl_tasks p2 ! ?k") auto
  qed
  with final have "\<exists>x. pl_tasks p2 ! ?k = TDone x"
    if "terminal (wr_status r2) \<or> (\<forall>t \<in> set (pl_tasks p2). is_done t)" using that by blast
  then show ?thesis
    using h r2 pr fv fv [OF final] by (intro exI [of _ h] exI [of _ ?d] exI [of _ r2]) (auto simp: after_body_def)
qed

end

lemma finished_run_params:
  "(finished_run E p r)\<lparr>wr_params := n\<rparr> = finished_run E p (r\<lparr>wr_params := n\<rparr>)"
  by (cases "outcome E p") (auto simp: finished_run_def settle_def add_reports_def with_result_def with_error_def)

lemma new_run_params: "(with_status st t (new_run u nm ref ro ow))\<lparr>wr_params := n\<rparr> = with_status st t (new_run u nm n ro ow)"
  by (simp add: new_run_def with_status_def)

subsection \<open>Properties\<close>

definition demo_env :: wf_env where
  "demo_env = \<lparr>we_clock = (\<lambda>_. 0), we_float = (\<lambda>_. ''2.0'')\<rparr>"

definition demo_handler :: workflow_handler where
  \<comment> \<open>reports, notes in its dictionary, reports out of range, fails with what it was told\<close>
  "demo_handler d =
     WfReport ''half'' None (Some (Fin (1 / 2)))
       (\<lambda>_. WfSetParam ''tries'' (PInt 1)
          (WfReport ''too far'' None (Some (Fin 2)) (\<lambda>r. case r of Inl e \<Rightarrow> WfRaise e | Inr _ \<Rightarrow> WfReturn PNone)))"

definition demo_workflows :: engine_registry where
  "demo_workflows = register_workflow ''deploy'' demo_handler empty_registry"

definition demo_wf_world :: "memory_wf_store wf_world" where
  "demo_wf_world = \<lparr>wf_store = Map.empty, wf_heap = [], wf_ticks = 0\<rparr>"

lemma demo_resolve_workflow: "resolve_workflow demo_workflows ''deploy'' = Inr demo_handler"
  by (simp add: demo_workflows_def)

lemma idle_done: "list_all is_done (pl_tasks p) \<Longrightarrow> \<nexists>q. pool_step E S p q"
  by (auto simp: list_all_length elim!: pool_stepE) (auto simp: may_step_def)

text \<open>A run as its handler ended it.\<close>

definition run_ended :: "wf_env \<Rightarrow> wf_prog \<Rightarrow> workflow_run \<Rightarrow> bool" where
  "run_ended E p r \<longleftrightarrow> map erase_event (wr_progress r) = reports E p
    \<and> (case outcome E p of
         Inr v \<Rightarrow> wr_status r = SUCCESS \<and> wr_result r = v \<and> wr_error r = None
       | Inl x \<Rightarrow>
           if is_exception x
           then wr_status r = FAILED \<and> wr_error r = Some (exn_type x @ '': '' @ exn_str x) \<and> wr_result r = PNone
           else wr_status r = RUNNING \<and> wr_error r = None \<and> wr_result r = PNone)"

lemma finished_ended:
  assumes "erase_run r = finished_run E p (with_status RUNNING 0 (new_run uuid name ref ro owner))"
  shows "run_ended E p r"
proof -
  note sel = arg_cong [OF assms, of wr_status] arg_cong [OF assms, of wr_result] arg_cong [OF assms, of wr_error]
    arg_cong [OF assms, of wr_progress]
  have pr: "wr_progress (erase_run r) = map erase_event (wr_progress r)" by (simp add: erase_run_def)
  note defs = finished_run_def settle_def add_reports_def with_result_def with_error_def with_status_def new_run_def failure_text_def
  show ?thesis
    unfolding run_ended_def using sel pr by (cases "outcome E p") (auto simp: defs split: if_splits)
qed

text \<open>A workflow run on the inline executor ends as its handler does: SUCCESS with the value
  returned, or FAILED with the type and text of the exception and no result; an exception that is
  no \<open>Exception\<close> is raised on and leaves the run RUNNING. The progress is the list of the reports
  whose fraction is in range, in order; identity, lineage and owner are as given; every other run
  and every other dictionary is untouched.\<close>

theorem inline_run_outcome:
  assumes "resolve_workflow reg name = Inr handler" and "inline_run E MWF reg uuid name params ro owner w = (out, w')"
    and "p = handler (case params of None \<Rightarrow> [] | Some d \<Rightarrow> dict_of d)"
  shows "\<exists>r. get_run MWF uuid w' = Inr r \<and> wr_id r = uuid \<and> wr_name r = name \<and> wr_rerun_of r = ro \<and> wr_owner r = owner
    \<and> map erase_event (wr_progress r) = reports E p
    \<and> (case outcome E p of
         Inr v \<Rightarrow> out = Inr r \<and> wr_status r = SUCCESS \<and> wr_result r = v \<and> wr_error r = None
       | Inl e \<Rightarrow>
           if is_exception e
           then out = Inr r \<and> wr_status r = FAILED \<and> wr_error r = Some (exn_type e @ '': '' @ exn_str e) \<and> wr_result r = PNone
           else out = Inl e \<and> wr_status r = RUNNING \<and> wr_error r = None \<and> wr_result r = PNone)
    \<and> (\<forall>j. j \<noteq> uuid \<longrightarrow> get_run MWF j w' = get_run MWF j w)
    \<and> (\<forall>i < length (wf_heap w). heap_get w' i = heap_get w i)"
proof -
  from memwf.inline_effect [OF assms(1) refl, of E uuid params ro owner w] assms(2,3)
  obtain r where out: "out = (case escaped (outcome E p) of None \<Rightarrow> Inr r | Some e \<Rightarrow> Inl e)"
    and r: "get_run MWF uuid w' = Inr r"
    and er: "erase_run r = finished_run E p (with_status RUNNING 0 (new_run uuid name (length (wf_heap w)) ro owner))"
    and rest: "\<forall>j. j \<noteq> uuid \<longrightarrow> get_run MWF j w' = get_run MWF j w" "\<forall>i < length (wf_heap w). heap_get w' i = heap_get w i"
    by auto
  let ?f = "finished_run E p (with_status RUNNING 0 (new_run uuid name (length (wf_heap w)) ro owner))"
  note sel = arg_cong [OF er, of wr_id] arg_cong [OF er, of wr_name] arg_cong [OF er, of wr_rerun_of] arg_cong [OF er, of wr_owner]
    arg_cong [OF er, of wr_status] arg_cong [OF er, of wr_result] arg_cong [OF er, of wr_error] arg_cong [OF er, of wr_progress]
  have pr: "wr_progress (erase_run r) = map erase_event (wr_progress r)" by (simp add: erase_run_def)
  note defs = finished_run_def settle_def add_reports_def with_result_def with_error_def with_status_def new_run_def
    escaped_def failure_text_def
  show ?thesis
  proof (cases "outcome E p")
    case (Inr v)
    with out sel pr r rest show ?thesis by (intro exI [of _ r]) (simp add: defs)
  next
    case (Inl e)
    show ?thesis
    proof (cases "is_exception e")
      case True
      with Inl out sel pr r rest show ?thesis by (intro exI [of _ r]) (simp add: defs)
    next
      case False
      with Inl out sel pr r rest show ?thesis by (intro exI [of _ r]) (simp add: defs)
    qed
  qed
qed

theorem inline_run_outcome_witness:
  "\<exists>r. get_run MWF ''r1'' (snd (inline_run demo_env MWF demo_workflows ''r1'' ''deploy'' None None None demo_wf_world)) = Inr r
     \<and> wr_status r = FAILED \<and> map pe_message (map erase_event (wr_progress r)) = [''half'']"
proof -
  obtain out w' where run: "inline_run demo_env MWF demo_workflows ''r1'' ''deploy'' None None None demo_wf_world = (out, w')"
    by fastforce
  have b: "bad_fraction (Some (Fin 2))" "\<not> bad_fraction (Some (Fin (1 / 2)))" by (simp_all add: bad_fraction_def)
  from inline_run_outcome [OF demo_resolve_workflow run refl]
  show ?thesis
    by (auto simp: run demo_handler_def after_report_def b fraction_error_def)
qed

text \<open>C14. The thread executor computes what the inline one does: when a run submitted to a pool in
  any reachable state has reached a final status - after any interleaving of the workers' steps,
  whatever other runs, reruns and shutdown happen meanwhile - it equals, time stamps and the
  position of its dictionary aside, the run that the same call gives on the inline executor in any
  world, and its dictionary has the same contents. (A handler reports, writes to its dictionary and
  then returns or raises; it does not wait for another run.)\<close>

theorem threads_like_inline:
  assumes "wf_reach E MWF reg p" and "get_run MWF uuid (pl_world p) = Inl e"
    and "thread_run E MWF is reg uuid name params ro owner p = (Inr r0, p1)"
    and "(wf_next E MWF reg)\<^sup>*\<^sup>* p1 p2" and "get_run MWF uuid (pl_world p2) = Inr r2" and "terminal (wr_status r2)"
    and "inline_run E MWF reg uuid name params ro owner w = (out, w')"
  shows "\<exists>r. out = Inr r \<and> (erase_run r2)\<lparr>wr_params := 0\<rparr> = (erase_run r)\<lparr>wr_params := 0\<rparr>
    \<and> heap_get (pl_world p2) (wr_params r2) = heap_get w' (wr_params r)"
proof -
  obtain os where "life_ok MWF os p" using memwf.reach_life [OF assms(1)] by blast
  from memwf.thread_run_end [OF this assms(2-4)] obtain h d r3 where h: "resolve_workflow reg name = Inr h"
    and d: "d = (case params of None \<Rightarrow> [] | Some q \<Rightarrow> dict_of q)" and r3: "get_run MWF uuid (pl_world p2) = Inr r3"
    and ended: "terminal (wr_status r3) \<or> (\<forall>t \<in> set (pl_tasks p2). is_done t) \<longrightarrow>
         erase_run r3 = finished_run E (h d) (with_status RUNNING 0 (new_run uuid name (length (wf_heap (pl_world p))) ro owner))
         \<and> heap_get (pl_world p2) (length (wf_heap (pl_world p))) = params_after E (h d) d
         \<and> wr_params r3 = length (wf_heap (pl_world p))"
    and esc': "terminal (wr_status r3) \<longrightarrow> escaped (outcome E (h d)) = None"
    by (elim exE conjE) blast
  have "r3 = r2" using r3 assms(5) by simp
  with assms(6) ended esc'
  have e2: "erase_run r2 = finished_run E (h d) (with_status RUNNING 0 (new_run uuid name (length (wf_heap (pl_world p))) ro owner))"
    and h2: "heap_get (pl_world p2) (wr_params r2) = params_after E (h d) d" and esc: "escaped (outcome E (h d)) = None"
    by simp_all
  from memwf.inline_effect [OF h d, of E uuid ro owner w] assms(7) esc obtain r where "out = Inr r"
    and er: "erase_run r = finished_run E (h d) (with_status RUNNING 0 (new_run uuid name (length (wf_heap w)) ro owner))"
    and "heap_get w' (length (wf_heap w)) = params_after E (h d) d"
    by auto
  moreover have "wr_params r = length (wf_heap w)"
    using arg_cong [OF er, of wr_params] by (cases "outcome E (h d)")
      (simp_all add: finished_run_def settle_def add_reports_def with_result_def with_error_def with_status_def new_run_def)
  ultimately show ?thesis
    using e2 h2 by (simp add: finished_run_params new_run_params)
qed

definition demo_pool :: "memory_wf_store wf_pool" where
  "demo_pool = empty_pool Map.empty 2"

lemma demo_pool_reach: "wf_reach E MWF reg demo_pool"
  unfolding wf_reach_def demo_pool_def
  by (intro exI [of _ Map.empty] exI [of _ 2]) (simp add: memwf_get_def)

definition ping_handler :: workflow_handler where
  "ping_handler d = WfReturn (PInt 7)"

definition ping_workflows :: engine_registry where
  "ping_workflows = register_workflow ''ping'' ping_handler empty_registry"

lemma ping_resolve_workflow: "resolve_workflow ping_workflows ''ping'' = Inr ping_handler"
  by (simp add: ping_workflows_def)

text \<open>Six steps of the only task.\<close>

lemma ping_schedule:
  assumes "pl_tasks p = [TStart rid ping_handler]" and "get_run MWF rid (pl_world p) = Inr r" and "wr_id r = rid"
  shows "\<exists>r'. get_run MWF rid (pl_world (run_schedule E MWF [0, 0, 0, 0, 0, 0] p)) = Inr r' \<and> wr_status r' = SUCCESS"
  using assms by (simp add: run_schedule_def advance_def memwf.get_run_save ping_handler_def with_result_def)

lemma demo_fresh: "get_run MWF u (pl_world demo_pool) = Inl (WorkflowRunNotFound u)"
  by (simp add: demo_pool_def empty_pool_def get_run_def memwf_get_def)

theorem threads_like_inline_witness:
  "\<exists>r2 r. get_run MWF ''r1'' (pl_world (snd (thread_run demo_env MWF [0, 0, 0, 0, 0, 0] ping_workflows ''r1'' ''ping'' None None None demo_pool))) = Inr r2
     \<and> fst (inline_run demo_env MWF ping_workflows ''r1'' ''ping'' None None None demo_wf_world) = Inr r
     \<and> wr_result r2 = wr_result r \<and> wr_status r2 = SUCCESS"
proof -
  let ?c = "demo_pool\<lparr>pl_world := create_run MWF ''r1'' ''ping'' None None None (pl_world demo_pool)\<rparr>"
  let ?q = "?c\<lparr>pl_tasks := [TStart ''r1'' ping_handler]\<rparr>"
  have c: "get_run MWF ''r1'' (pl_world ?q) = Inr (new_run ''r1'' ''ping'' 0 None None)"
    by (simp add: memwf.create_effect(1) demo_pool_def empty_pool_def)
  from ping_schedule [of ?q "''r1''", OF _ c] obtain r2 where
    r2: "get_run MWF ''r1'' (pl_world (run_schedule demo_env MWF [0, 0, 0, 0, 0, 0] ?q)) = Inr r2" "wr_status r2 = SUCCESS"
    by auto
  have t: "thread_run demo_env MWF [0, 0, 0, 0, 0, 0] ping_workflows ''r1'' ''ping'' None None None demo_pool
      = (Inr r2, run_schedule demo_env MWF [0, 0, 0, 0, 0, 0] ?q)"
    using r2 by (simp add: thread_run_def service_run_def ping_resolve_workflow thread_submit_def pool_submit_def demo_pool_def empty_pool_def)
  obtain out w' where i: "inline_run demo_env MWF ping_workflows ''r1'' ''ping'' None None None demo_wf_world = (out, w')"
    by fastforce
  have "terminal (wr_status r2)" by (simp add: r2 terminal_def)
  from threads_like_inline [OF demo_pool_reach demo_fresh t rtranclp.rtrancl_refl r2(1) this i]
  obtain r where out: "out = Inr r" and eq: "(erase_run r2)\<lparr>wr_params := 0\<rparr> = (erase_run r)\<lparr>wr_params := 0\<rparr>" by blast
  from arg_cong [OF eq, of wr_result] have "wr_result r2 = wr_result r" by (simp add: erase_run_def)
  with out r2 i t show ?thesis by auto
qed

text \<open>C15. No submitted run is left unsettled. For a workflow whose handler returns or raises: once
  \<open>run\<close> has accepted it on a pool with at least one worker, then whatever happens next - other
  runs, reruns, steps of the workers, shutdown - the number of steps the workers can still make is
  bounded, and when none is left for them the run is in the store as its handler ended: SUCCESS with
  the value it returned and no error, or FAILED with the type and text of its exception and no
  result, with exactly its reports as progress, in order. An exception that is no \<open>Exception\<close>
  leaves it RUNNING, without result or error.\<close>

theorem pool_finishes:
  assumes "wf_reach E MWF reg p" and "0 < pl_max_workers p" and "get_run MWF uuid (pl_world p) = Inl e"
    and "thread_run E MWF is reg uuid name params ro owner p = (Inr r0, p1)" and "(wf_next E MWF reg)\<^sup>*\<^sup>* p1 p2"
  shows "(\<exists>N. \<forall>n q. (pool_step E MWF ^^ n) p2 q \<longrightarrow> n \<le> N)
    \<and> ((\<nexists>q. pool_step E MWF p2 q) \<longrightarrow>
        (\<exists>handler r. resolve_workflow reg name = Inr handler \<and> get_run MWF uuid (pl_world p2) = Inr r
          \<and> (let prog = handler (case params of None \<Rightarrow> [] | Some d \<Rightarrow> dict_of d)
             in map erase_event (wr_progress r) = reports E prog
                \<and> (case outcome E prog of
                     Inr v \<Rightarrow> wr_status r = SUCCESS \<and> wr_result r = v \<and> wr_error r = None
                   | Inl x \<Rightarrow>
                       if is_exception x
                       then wr_status r = FAILED \<and> wr_error r = Some (exn_type x @ '': '' @ exn_str x) \<and> wr_result r = PNone
                       else wr_status r = RUNNING \<and> wr_error r = None \<and> wr_result r = PNone))))"
proof -
  obtain os where life: "life_ok MWF os p" using memwf.reach_life [OF assms(1)] by blast
  obtain h r where h: "resolve_workflow reg name = Inr h" and r: "get_run MWF uuid (pl_world p2) = Inr r"
    and er: "\<forall>t \<in> set (pl_tasks p2). is_done t \<Longrightarrow>
      erase_run r = finished_run E (h (case params of None \<Rightarrow> [] | Some q \<Rightarrow> dict_of q))
        (with_status RUNNING 0 (new_run uuid name (length (wf_heap (pl_world p))) ro owner))"
    using memwf.thread_run_end [OF life assms(3,4,5)] by blast
  from memwf.service_run_extends [OF life assms(3)] assms(4) obtain os1 where "life_ok MWF os1 p1"
    unfolding thread_run_def extends_def by blast
  from memwf.nexts_extend [OF assms(5) this] obtain os2 where ok2: "pool_ok MWF os2 p2" by (auto simp: extends_def life_ok_def)
  have workers: "0 < pl_max_workers p2"
    using memwf.nexts_workers [OF assms(5)] memwf.thread_run_workers [OF assms(4)] assms(2) by simp
  have bound: "\<forall>n q. (pool_step E MWF ^^ n) p2 q \<longrightarrow> n \<le> total_left E os2 p2"
    using memwf.pool_steps_left [OF _ ok2] by (metis add_leD1)
  show ?thesis
  proof (intro conjI impI)
    show "\<exists>N. \<forall>n q. (pool_step E MWF ^^ n) p2 q \<longrightarrow> n \<le> N" using bound by (rule exI)
    assume "\<nexists>q. pool_step E MWF p2 q"
    then have "\<forall>t \<in> set (pl_tasks p2). is_done t" using memwf.pool_progress [OF ok2 workers, of E] by blast
    from finished_ended [OF er [OF this]]
    show "\<exists>handler r. resolve_workflow reg name = Inr handler \<and> get_run MWF uuid (pl_world p2) = Inr r
      \<and> (let prog = handler (case params of None \<Rightarrow> [] | Some d \<Rightarrow> dict_of d)
         in map erase_event (wr_progress r) = reports E prog
            \<and> (case outcome E prog of
                 Inr v \<Rightarrow> wr_status r = SUCCESS \<and> wr_result r = v \<and> wr_error r = None
               | Inl x \<Rightarrow>
                   if is_exception x
                   then wr_status r = FAILED \<and> wr_error r = Some (exn_type x @ '': '' @ exn_str x) \<and> wr_result r = PNone
                   else wr_status r = RUNNING \<and> wr_error r = None \<and> wr_result r = PNone))"
      unfolding Let_def run_ended_def [symmetric] using h r by blast
  qed
qed

definition failing_handler :: workflow_handler where
  "failing_handler d = WfReport ''half'' None None (\<lambda>_. WfRaise (ValueError ''boom''))"

definition failing_workflows :: engine_registry where
  "failing_workflows = register_workflow ''fail'' failing_handler empty_registry"

lemma failing_schedule:
  assumes "pl_tasks p = [TStart rid failing_handler]" and "get_run MWF rid (pl_world p) = Inr r" and "wr_id r = rid"
  shows "list_all is_done (pl_tasks (run_schedule E MWF [0, 0, 0, 0, 0, 0, 0, 0] p))"
    and "\<exists>r'. get_run MWF rid (pl_world (run_schedule E MWF [0, 0, 0, 0, 0, 0, 0, 0] p)) = Inr r'"
  using assms by (simp_all add: run_schedule_def advance_def memwf.get_run_save failing_handler_def bad_fraction_def)

theorem pool_finishes_witness:
  "let p1 = snd (thread_run demo_env MWF [0, 0, 0, 0, 0, 0, 0, 0] failing_workflows ''r1'' ''fail'' None None None demo_pool)
   in (\<exists>N. \<forall>n q. (pool_step demo_env MWF ^^ n) p1 q \<longrightarrow> n \<le> N)
     \<and> (\<exists>r. get_run MWF ''r1'' (pl_world p1) = Inr r \<and> wr_status r = FAILED \<and> length (wr_progress r) = 1)"
proof -
  let ?c = "demo_pool\<lparr>pl_world := create_run MWF ''r1'' ''fail'' None None None (pl_world demo_pool)\<rparr>"
  let ?q = "?c\<lparr>pl_tasks := [TStart ''r1'' failing_handler]\<rparr>"
  let ?p1 = "run_schedule demo_env MWF [0, 0, 0, 0, 0, 0, 0, 0] ?q"
  have c: "get_run MWF ''r1'' (pl_world ?q) = Inr (new_run ''r1'' ''fail'' 0 None None)"
    by (simp add: memwf.create_effect(1) demo_pool_def empty_pool_def)
  note sch = failing_schedule [of ?q "''r1''", OF _ c, of demo_env, simplified]
  from sch(2) obtain r0 where r0: "get_run MWF ''r1'' (pl_world ?p1) = Inr r0" by auto
  then have t: "thread_run demo_env MWF [0, 0, 0, 0, 0, 0, 0, 0] failing_workflows ''r1'' ''fail'' None None None demo_pool = (Inr r0, ?p1)"
    by (simp add: thread_run_def service_run_def failing_workflows_def thread_submit_def pool_submit_def demo_pool_def empty_pool_def)
  have idle: "\<nexists>q. pool_step demo_env MWF ?p1 q" using sch(1) by (intro idle_done) simp
  have w: "0 < pl_max_workers demo_pool" by (simp add: demo_pool_def empty_pool_def)
  note fin = pool_finishes [OF demo_pool_reach w demo_fresh t rtranclp.rtrancl_refl]
  from conjunct2 [OF fin] idle r0 have r: "wr_status r0 = FAILED"
      "map erase_event (wr_progress r0) = [\<lparr>pe_message = ''half'', pe_step = None, pe_fraction = None, pe_ts = 0\<rparr>]"
    by (auto simp: Let_def failing_workflows_def failing_handler_def after_report_def bad_fraction_def)
  from arg_cong [OF r(2), of length] have "length (wr_progress r0) = 1" by simp
  with conjunct1 [OF fin] r(1) r0 show ?thesis unfolding t Let_def snd_conv by blast
qed

text \<open>C13. In every reachable state of the service over the thread executor, a run has a result or an
  error only in a final status: SUCCESS has a result (which may be None) and no error, FAILED an
  error and no result; and whatever happens next - steps of
  workers, runs, reruns, shutdown - it stays in the store with its name, owner and lineage, its
  progress only gets longer, its status only moves from pending over running to a final one, and in
  a final status it never changes again.\<close>

theorem run_lifecycle:
  assumes "wf_reach E MWF reg p" and "get_run MWF rid (pl_world p) = Inr r" and "(wf_next E MWF reg)\<^sup>*\<^sup>* p p'"
  shows "consistent r \<and> (\<exists>r'. get_run MWF rid (pl_world p') = Inr r' \<and> grows r r' \<and> consistent r')"
proof -
  obtain os where l: "life_ok MWF os p" using memwf.reach_life [OF assms(1)] by blast
  from memwf.nexts_extend [OF assms(3) this] obtain os' where x: "extends E MWF os p os' p'" by blast
  then have l': "life_ok MWF os' p'" and k: "kept MWF (pl_world p) (pl_world p')" by (auto simp: extends_def)
  from k assms(2) obtain r' where "get_run MWF rid (pl_world p') = Inr r'" "grows r r'" unfolding kept_def by blast
  with memwf.life_consistent [OF l assms(2)] memwf.life_consistent [OF l'] show ?thesis by blast
qed

theorem run_lifecycle_witness:
  "\<exists>r r'. get_run MWF ''r1'' (pl_world (snd (thread_run demo_env MWF [0] demo_workflows ''r1'' ''deploy'' None None None demo_pool))) = Inr r
     \<and> wr_status r = PENDING
     \<and> get_run MWF ''r1'' (pl_world (advance demo_env MWF 0 (snd (thread_run demo_env MWF [0] demo_workflows ''r1'' ''deploy'' None None None demo_pool)))) = Inr r'
     \<and> grows r r'"
proof -
  let ?p = "snd (thread_run demo_env MWF [0] demo_workflows ''r1'' ''deploy'' None None None demo_pool)"
  have "case get_run MWF ''r1'' (pl_world ?p) of Inl _ \<Rightarrow> False | Inr r \<Rightarrow> wr_status r = PENDING" by code_simp
  then obtain r where r: "get_run MWF ''r1'' (pl_world ?p) = Inr r" "wr_status r = PENDING" by (auto split: sum.splits)
  have "wf_next demo_env MWF demo_workflows demo_pool ?p"
    by (rule next_run [OF demo_fresh]) (rule prod.collapse [symmetric])
  then have reach: "wf_reach demo_env MWF demo_workflows ?p"
    using demo_pool_reach unfolding wf_reach_def by (meson rtranclp.rtrancl_into_rtrancl)
  have "may_step ?p 0" by code_simp
  then have "wf_next demo_env MWF demo_workflows ?p (advance demo_env MWF 0 ?p)"
    by (intro next_step pool_stepI)
  then have "(wf_next demo_env MWF demo_workflows)\<^sup>*\<^sup>* ?p (advance demo_env MWF 0 ?p)" by (rule r_into_rtranclp)
  from run_lifecycle [OF reach r(1) this] r show ?thesis by auto
qed

text \<open>\<open>rerun\<close> of an unknown run raises \<open>WorkflowRunNotFound\<close> and of a run that is not in a
  final status \<open>WorkflowNotTerminal\<close>, and nothing changes; of a finished one it starts a new run
  with the same name and owner that names it as its origin, on a copy of the dictionary as the old
  handler left it, and leaves the old run and its dictionary as they are.\<close>

theorem rerun_of_finished:
  assumes "get_run MWF rid w = Inr old" and "wr_params old < length (wf_heap w)" and "uuid \<noteq> rid"
    and "inline_rerun E MWF reg uuid rid w = (out, w')"
  shows "if \<not> terminal (wr_status old) then out = Inl (WorkflowNotTerminal rid (wr_status old)) \<and> w' = w
    else case resolve_workflow reg (wr_name old) of
        Inl e \<Rightarrow> out = Inl e \<and> w' = w
      | Inr handler \<Rightarrow> \<exists>r. get_run MWF uuid w' = Inr r \<and> wr_name r = wr_name old \<and> wr_owner r = wr_owner old
          \<and> wr_rerun_of r = Some rid
          \<and> map erase_event (wr_progress r) = reports E (handler (dict_of (heap_get w (wr_params old))))
          \<and> get_run MWF rid w' = Inr old \<and> heap_get w' (wr_params old) = heap_get w (wr_params old)"
proof (cases "terminal (wr_status old)")
  case False
  with assms show ?thesis by (auto simp: inline_rerun_def service_rerun_def)
next
  case True
  let ?d = "heap_get w (wr_params old)"
  have run: "inline_run E MWF reg uuid (wr_name old) (Some ?d) (Some rid) (wr_owner old) w = (out, w')"
    using assms True by (simp add: inline_rerun_def inline_run_def service_rerun_def)
  show ?thesis
  proof (cases "resolve_workflow reg (wr_name old)")
    case (Inl e)
    with run True show ?thesis by (auto simp: inline_run_def service_run_def)
  next
    case (Inr h)
    from memwf.inline_effect [OF Inr refl, of E uuid "Some ?d" "Some rid" "wr_owner old" w] run
    obtain r where r: "get_run MWF uuid w' = Inr r"
      and er: "erase_run r = finished_run E (h (dict_of ?d)) (with_status RUNNING 0 (new_run uuid (wr_name old) (length (wf_heap w)) (Some rid) (wr_owner old)))"
      and rest: "\<forall>j. j \<noteq> uuid \<longrightarrow> get_run MWF j w' = get_run MWF j w" "\<forall>i < length (wf_heap w). heap_get w' i = heap_get w i"
      by auto
    note sel = arg_cong [OF er, of wr_name] arg_cong [OF er, of wr_rerun_of] arg_cong [OF er, of wr_owner] arg_cong [OF er, of wr_progress]
    have pr: "wr_progress (erase_run r) = map erase_event (wr_progress r)" by (simp add: erase_run_def)
    have "wr_name r = wr_name old \<and> wr_owner r = wr_owner old \<and> wr_rerun_of r = Some rid
        \<and> map erase_event (wr_progress r) = reports E (h (dict_of ?d))"
      using sel pr by (cases "outcome E (h (dict_of ?d))")
        (simp_all add: finished_run_def settle_def add_reports_def with_result_def with_error_def with_status_def new_run_def split: if_splits)
    with r rest assms(1-3) True Inr show ?thesis by simp
  qed
qed

theorem rerun_of_finished_witness:
  "\<exists>r. get_run MWF ''r2'' (snd (inline_rerun demo_env MWF demo_workflows ''r2'' ''r1''
        (snd (inline_run demo_env MWF demo_workflows ''r1'' ''deploy'' None None (Some ''ws1'') demo_wf_world)))) = Inr r
     \<and> wr_rerun_of r = Some ''r1'' \<and> wr_owner r = Some ''ws1''"
proof -
  let ?w = "snd (inline_run demo_env MWF demo_workflows ''r1'' ''deploy'' None None (Some ''ws1'') demo_wf_world)"
  have "case get_run MWF ''r1'' ?w of Inl _ \<Rightarrow> False
    | Inr r \<Rightarrow> terminal (wr_status r) \<and> wr_params r < length (wf_heap ?w) \<and> wr_name r = ''deploy'' \<and> wr_owner r = Some ''ws1''"
    by code_simp
  then obtain old where old: "get_run MWF ''r1'' ?w = Inr old" "wr_params old < length (wf_heap ?w)"
    "terminal (wr_status old)" "wr_name old = ''deploy''" "wr_owner old = Some ''ws1''"
    by (auto split: sum.splits)
  obtain out w' where re: "inline_rerun demo_env MWF demo_workflows ''r2'' ''r1'' ?w = (out, w')" by fastforce
  have "''r2'' \<noteq> ''r1''" by simp
  from rerun_of_finished [OF old(1,2) this re] old(3-5) re show ?thesis by (auto simp: demo_resolve_workflow)
qed

text \<open>After \<open>shutdown\<close> the service still stores a run before the executor refuses it:
  \<open>run\<close> raises, and the run it leaves is PENDING, has no task, and stays PENDING whatever
  happens next.\<close>

theorem shutdown_leaves_orphan:
  assumes "wf_reach E MWF reg p" and "pl_shutdown p" and "get_run MWF uuid (pl_world p) = Inl e"
    and "resolve_workflow reg name = Inr handler"
    and "thread_run E MWF is reg uuid name params None owner p = (out, p1)" and "(pool_step E MWF)\<^sup>*\<^sup>* p1 p2"
  shows "(\<exists>t. out = Inl (RuntimeError t)) \<and> pl_tasks p1 = pl_tasks p
    \<and> (\<exists>r. get_run MWF uuid (pl_world p2) = Inr r \<and> wr_status r = PENDING)"
proof -
  obtain os where l: "life_ok MWF os p" using memwf.reach_life [OF assms(1)] by blast
  let ?w = "create_run MWF uuid name params None owner (pl_world p)"
  have p1: "p1 = p\<lparr>pl_world := ?w\<rparr>" and out: "\<exists>t. out = Inl (RuntimeError t)"
    using assms(2,4,5) by (auto simp: thread_run_def service_run_def thread_submit_def pool_submit_def)
  have ok1: "pool_ok MWF os p1"
    using memwf.create_ok [of os p uuid e name params None owner] l assms(3) by (simp add: life_ok_def p1)
  have not_owned: "uuid \<notin> fst ` set os"
    using pool_okD(4) [of MWF os p] l assms(3) by (fastforce simp: life_ok_def in_set_conv_nth owns_def)
  have "pool_ok MWF os q \<and> get_run MWF uuid (pl_world q) = get_run MWF uuid (pl_world p1)" if "(pool_step E MWF)\<^sup>*\<^sup>* p1 q" for q
    using that
  proof (induction rule: rtranclp_induct)
    case base
    then show ?case using ok1 by simp
  next
    case (step q q')
    then obtain i where i: "may_step q i" and q': "q' = advance E MWF i q" by (auto elim: pool_stepE)
    from step have ok: "pool_ok MWF os q" by blast
    have il: "i < length os" using i pool_okD(1) [OF ok] by (simp add: may_step_def)
    obtain r where o: "owns MWF (pl_world q) (pl_tasks q ! i) (fst (os ! i)) (snd (os ! i)) r"
      using pool_okD(4) [OF ok il] by blast
    obtain t' w' where st: "task_step E MWF (pl_tasks q ! i) (pl_world q) = (t', w')" by fastforce
    from memwf.task_step_owns [OF o st] have "elsewhere MWF (fst (os ! i)) (snd (os ! i)) (pl_world q) w'" by blast
    moreover have "uuid \<noteq> fst (os ! i)" using not_owned il by auto
    ultimately have "get_run MWF uuid w' = get_run MWF uuid (pl_world q)" by (simp add: elsewhere_def)
    moreover have "pl_world q' = w'" using i st by (simp add: q' advance_def may_step_def)
    ultimately show ?case using step memwf.advance_ok(1) [OF ok] by (simp add: q')
  qed
  from this [OF assms(6)] out show ?thesis
    by (simp add: p1 memwf.create_effect(1))
qed

theorem shutdown_leaves_orphan_witness:
  "\<exists>r. get_run MWF ''r1'' (pl_world (snd (thread_run demo_env MWF [] demo_workflows ''r1'' ''deploy'' None None None
        (pool_shutdown demo_pool)))) = Inr r \<and> wr_status r = PENDING"
proof -
  let ?p = "pool_shutdown demo_pool"
  obtain out p1 where t: "thread_run demo_env MWF [] demo_workflows ''r1'' ''deploy'' None None None ?p = (out, p1)" by fastforce
  have reach: "wf_reach demo_env MWF demo_workflows ?p"
    using demo_pool_reach next_shutdown unfolding wf_reach_def by (meson rtranclp.rtrancl_into_rtrancl)
  have fresh: "get_run MWF ''r1'' (pl_world ?p) = Inl (WorkflowRunNotFound ''r1'')"
    using demo_fresh by (simp add: pool_shutdown_def)
  have "pl_shutdown ?p" by (simp add: pool_shutdown_def)
  from shutdown_leaves_orphan [OF reach this fresh demo_resolve_workflow t rtranclp.rtrancl_refl] show ?thesis by (simp add: t)
qed

end
