(* ===== verification/Gateway.thy ===== *)
theory Gateway
  imports Conversation Context
begin

section \<open>WorkspaceConversationGateway\<close>

text \<open>
  \<open>engine/orchestration/workspace_gateway.py\<close>: resolve the workspace, then hand the message to
  the conversation service with its directory, environment, backend and budget. An empty backend
  name and a budget of zero count as unset, as Python's \<open>or\<close> reads them.
\<close>

record gateway_args =
  ga_workspace_id :: string
  ga_channel :: string
  ga_thread_key :: string
  ga_text :: string
  ga_backend_name :: string
  ga_message_id :: pyv
  ga_model :: "string option"
  ga_user_id :: "string option"

definition backend_or :: "string option \<Rightarrow> string \<Rightarrow> string" where
  "backend_or b d = (case b of Some n \<Rightarrow> if n = [] then d else n | None \<Rightarrow> d)"

definition rounds_or :: "int option \<Rightarrow> int \<Rightarrow> int" where
  "rounds_or b d = (case b of Some n \<Rightarrow> if n = 0 then d else n | None \<Rightarrow> d)"

definition conv_args_of :: "gateway_args \<Rightarrow> resolved_workspace \<Rightarrow> conv_args" where
  "conv_args_of g ws =
     \<lparr>ca_workspace_id = ga_workspace_id g, ca_channel = ga_channel g, ca_thread_key = ga_thread_key g,
      ca_text = ga_text g, ca_cwd = rw_cwd ws, ca_env = rw_env ws,
      ca_backend_name = backend_or (rw_backend_name ws) (ga_backend_name g),
      ca_max_rounds = rounds_or (rw_max_rounds ws) DEFAULT_MAX_ROUNDS,
      ca_message_id = ga_message_id g, ca_model = ga_model g, ca_user_id = ga_user_id g,
      ca_trace_metadata = Some [(''redacted_env'', str_dict (redacted_env ws))]\<rparr>"

definition gateway_handle :: "workspace_resolver \<Rightarrow> 's session_store_ops \<Rightarrow> ('t, 'sp) tracer_ops \<Rightarrow> engine_registry
    \<Rightarrow> string \<Rightarrow> rat \<Rightarrow> gateway_args \<Rightarrow> ('s, 't) conv_world \<Rightarrow> (exn + agent_run_result) \<times> ('s, 't) conv_world" where
  "gateway_handle rs S T reg uuid now g w =
     (case resolve rs (ga_workspace_id g) (ga_user_id g) of
        Inl e \<Rightarrow> (Inl e, w)
      | Inr ws \<Rightarrow> conv_handle S T reg uuid now (conv_args_of g ws) w)"

subsection \<open>What a turn sees of the environment\<close>

text \<open>Turns and messages that differ only in the environment of the child process.\<close>

definition env_blind :: "engine_registry \<Rightarrow> bool" where
  \<comment> \<open>what the registered backends yield does not depend on the environment they pass on\<close>
  "env_blind reg \<longleftrightarrow> (\<forall>name be req env. resolve_backend reg name = Inr be
     \<longrightarrow> be_run be (req\<lparr>req_env := env\<rparr>) = be_run be req)"

definition same_but_runs :: "'t engine_state \<Rightarrow> 't engine_state \<Rightarrow> bool" where
  "same_but_runs s t \<longleftrightarrow> es_tracer s = es_tracer t \<and> es_seen s = es_seen t"

lemma consume_same:
  "same_but_runs s t \<Longrightarrow>
     fst (consume T st cb sp evs tail result s) = fst (consume T st cb sp evs tail result t)
     \<and> same_but_runs (snd (consume T st cb sp evs tail result s)) (snd (consume T st cb sp evs tail result t))"
proof (induction evs arbitrary: result s t)
  case Nil
  then show ?case by (simp split: option.splits)
next
  case (Cons ev evs)
  obtain x s1 where ds: "deliver cb ev s = (x, s1)" by fastforce
  obtain y t1 where dt: "deliver cb ev t = (y, t1)" by fastforce
  have "x = y" and st: "same_but_runs s1 t1"
    using Cons.prems ds dt by (auto simp: deliver_def same_but_runs_def split: option.splits)
  then have n: "same_but_runs (note_tool T sp ev s1) (note_tool T sp ev t1)"
    by (auto simp: note_tool_def same_but_runs_def split: option.splits)
  then have f: "same_but_runs ((note_tool T sp ev s1)\<lparr>es_tracer := op_finish T sp a b (es_tracer (note_tool T sp ev s1))\<rparr>)
      ((note_tool T sp ev t1)\<lparr>es_tracer := op_finish T sp a b (es_tracer (note_tool T sp ev t1))\<rparr>)" for a b
    by (simp add: same_but_runs_def)
  show ?case
  proof (cases "ev_kind ev = MESSAGE_DELTA \<and> \<not> st")
    case True
    with Cons.IH [OF Cons.prems] show ?thesis by simp
  next
    case False
    show ?thesis
    proof (cases y)
      case None
      with False Cons.IH [OF n] n f \<open>x = y\<close> show ?thesis
        by (auto simp: ds dt Let_def split: option.splits)
    qed (use False st \<open>x = y\<close> in \<open>auto simp: ds dt\<close>)
  qed
qed

lemma turn_body_same:
  assumes "same_but_runs s t"
  shows "fst (turn_body T caps stream cb sp s) = fst (turn_body T caps stream cb sp t)
    \<and> same_but_runs (snd (turn_body T caps stream cb sp s)) (snd (turn_body T caps stream cb sp t))"
proof -
  obtain x s1 where s: "consume T (supports_streaming caps) cb sp (fst stream) (snd stream) None s = (x, s1)" by fastforce
  obtain y t1 where t: "consume T (supports_streaming caps) cb sp (fst stream) (snd stream) None t = (y, t1)" by fastforce
  have "x = y" "same_but_runs s1 t1"
    using consume_same [OF assms, of T "supports_streaming caps" cb sp "fst stream" "snd stream" None] s t by auto
  then show ?thesis
    by (cases y) (auto simp: turn_body_def s t same_but_runs_def split: option.splits)
qed

lemma run_turn_env:
  assumes "env_blind reg" and "same_but_runs s t"
  shows "fst (run_turn T reg (a\<lparr>ta_env := env\<rparr>) s) = fst (run_turn T reg a t)
    \<and> same_but_runs (snd (run_turn T reg (a\<lparr>ta_env := env\<rparr>) s)) (snd (run_turn T reg a t))"
proof (cases "resolve_backend reg (ta_backend_name a)")
  case (Inl e)
  with assms(2) show ?thesis by (simp add: run_turn_def)
next
  case (Inr be)
  let ?caps = "be_capabilities be"
  have "turn_request ?caps (a\<lparr>ta_env := env\<rparr>) = (turn_request ?caps a)\<lparr>req_env := env\<rparr>"
    by (simp add: turn_request_def agent_run_request_def)
  then have run: "be_run be (turn_request ?caps (a\<lparr>ta_env := env\<rparr>)) = be_run be (turn_request ?caps a)"
    using assms(1) Inr unfolding env_blind_def by metis
  have dims: "turn_dims (a\<lparr>ta_env := env\<rparr>) = turn_dims a" by (simp add: turn_dims_def)
  obtain sp t1 where st: "op_start_trace T ''agent-turn'' (turn_dims a) (PStr (ta_prompt a))
      (ta_trace_metadata a) (es_tracer s) = (sp, t1)" by fastforce
  let ?s = "s\<lparr>es_tracer := t1, es_runs := es_runs s @ [(ta_backend_name a, turn_request ?caps (a\<lparr>ta_env := env\<rparr>))]\<rparr>"
  let ?t = "t\<lparr>es_tracer := t1, es_runs := es_runs t @ [(ta_backend_name a, turn_request ?caps a)]\<rparr>"
  have "same_but_runs ?s ?t" using assms(2) by (simp add: same_but_runs_def)
  from turn_body_same [OF this, of T ?caps "be_run be (turn_request ?caps a)" "ta_on_event a" sp]
  show ?thesis
    using assms(2) st by (simp add: run_turn_def Inr run dims same_but_runs_def leave_span_def Let_def)
qed

lemma conv_handle_env:
  assumes "env_blind reg" and "cw_store v = cw_store w" and "same_but_runs (cw_engine v) (cw_engine w)"
  shows "fst (conv_handle S T reg uuid now (a\<lparr>ca_env := env\<rparr>) v) = fst (conv_handle S T reg uuid now a w)
    \<and> cw_store (snd (conv_handle S T reg uuid now (a\<lparr>ca_env := env\<rparr>) v)) = cw_store (snd (conv_handle S T reg uuid now a w))
    \<and> same_but_runs (cw_engine (snd (conv_handle S T reg uuid now (a\<lparr>ca_env := env\<rparr>) v)))
        (cw_engine (snd (conv_handle S T reg uuid now a w)))"
proof -
  let ?b = "a\<lparr>ca_env := env\<rparr>"
  have key: "ca_key ?b = ca_key a" by (simp add: ca_key_def)
  have pr: "already_processed S x ?b = already_processed S x a" for x
    by (simp add: already_processed_def fun_eq_iff)
  have m: "ca_message_id ?b = ca_message_id a" by simp
  have re: "record_turn S now x ?b = record_turn S now x a" for x
    unfolding record_turn_def m by (rule refl)
  have ta: "turn_args_of x ?b = (turn_args_of x a)\<lparr>ta_env := env\<rparr>" for x
    by (simp add: turn_args_of_def)
  obtain g s1 where go: "sop_get_or_create S uuid (ca_key a) (ca_backend_name a) (ca_max_rounds a) (cw_store w) = (g, s1)"
    by fastforce
  show ?thesis
  proof (cases g)
    case (Inl e)
    with go assms show ?thesis by (simp add: conv_handle_def key)
  next
    case (Inr x)
    obtain p s2 where p: "already_processed S x a s1 = (p, s2)" by fastforce
    obtain r es where r: "run_turn T reg ((turn_args_of x a)\<lparr>ta_env := env\<rparr>) (cw_engine v) = (r, es)" by fastforce
    obtain r' es' where r': "run_turn T reg (turn_args_of x a) (cw_engine w) = (r', es')" by fastforce
    have rr: "r' = r" "same_but_runs es es'"
      using run_turn_env [OF assms(1,3), where T = T and a = "turn_args_of x a" and env = env] r r' by auto
    show ?thesis
      using go Inr p r r' rr assms(2,3)
      by (cases r) (auto simp: conv_handle_def key pr re ta split: sum.splits bool.splits prod.splits)
  qed
qed

end
