(* ===== verification/Sha256.thy ===== *)
theory Sha256
  imports Values "HOL-Library.Word"
begin

section \<open>SHA-256 and HMAC\<close>

text \<open>
  The parts of Python's \<open>hashlib\<close> and \<open>hmac\<close> that the channels call: \<open>sha256(...).hexdigest()\<close>
  and \<open>hmac.new(key, msg, sha256).hexdigest()\<close> over byte lists (FIPS 180-4, RFC 2104), and
  \<open>str.encode()\<close>, UTF-8, on the code points of the model.
\<close>

unbundle bit_operations_syntax

type_synonym bytes = "nat list"

definition utf8 :: "string \<Rightarrow> bytes" where
  "utf8 s = concat (map (\<lambda>c. let n = code c in if n < 128 then [n] else [192 + n div 64, 128 + n mod 64]) s)"

definition be32 :: "bytes \<Rightarrow> 32 word" where
  "be32 bs = word_of_nat (foldl (\<lambda>acc b. 256 * acc + b) 0 bs)"

definition bytes32 :: "32 word \<Rightarrow> bytes" where
  "bytes32 w = (let n = unat w in [n div 16777216, n div 65536 mod 256, n div 256 mod 256, n mod 256])"

definition be64 :: "nat \<Rightarrow> bytes" where
  "be64 n = map (\<lambda>i. n div 256 ^ (7 - i) mod 256) [0..<8]"

fun chunks :: "nat \<Rightarrow> nat \<Rightarrow> 'a list \<Rightarrow> 'a list list" where
  \<comment> \<open>the first \<open>k\<close> chunks of length \<open>n\<close>\<close>
  "chunks 0 n xs = []"
| "chunks (Suc k) n xs = take n xs # chunks k n (drop n xs)"

definition sha_pad :: "bytes \<Rightarrow> bytes" where
  "sha_pad m = m @ [128] @ replicate ((119 - length m mod 64) mod 64) 0 @ be64 (8 * length m)"

definition sha_k :: "32 word list" where
  "sha_k =
     [1116352408, 1899447441, 3049323471, 3921009573, 961987163, 1508970993, 2453635748, 2870763221,
      3624381080, 310598401, 607225278, 1426881987, 1925078388, 2162078206, 2614888103, 3248222580,
      3835390401, 4022224774, 264347078, 604807628, 770255983, 1249150122, 1555081692, 1996064986,
      2554220882, 2821834349, 2952996808, 3210313671, 3336571891, 3584528711, 113926993, 338241895,
      666307205, 773529912, 1294757372, 1396182291, 1695183700, 1986661051, 2177026350, 2456956037,
      2730485921, 2820302411, 3259730800, 3345764771, 3516065817, 3600352804, 4094571909, 275423344,
      430227734, 506948616, 659060556, 883997877, 958139571, 1322822218, 1537002063, 1747873779,
      1955562222, 2024104815, 2227730452, 2361852424, 2428436474, 2756734187, 3204031479, 3329325298]"

definition sha_init :: "32 word list" where
  "sha_init =
     [1779033703, 3144134277, 1013904242, 2773480762, 1359893119, 2600822924, 528734635, 1541459225]"

definition ror32 :: "nat \<Rightarrow> 32 word \<Rightarrow> 32 word" where
  "ror32 n x = (drop_bit n x OR push_bit (32 - n) x)"

definition sigma0 :: "32 word \<Rightarrow> 32 word" where
  "sigma0 x = (ror32 7 x XOR ror32 18 x XOR drop_bit 3 x)"

definition sigma1 :: "32 word \<Rightarrow> 32 word" where
  "sigma1 x = (ror32 17 x XOR ror32 19 x XOR drop_bit 10 x)"

fun sha_extend :: "nat \<Rightarrow> 32 word list \<Rightarrow> 32 word list" where
  \<comment> \<open>the message schedule, with the latest word first\<close>
  "sha_extend 0 ws = ws"
| "sha_extend (Suc n) ws = sha_extend n ((sigma1 (ws ! 1) + ws ! 6 + sigma0 (ws ! 14) + ws ! 15) # ws)"

fun sha_round :: "32 word \<times> 32 word \<Rightarrow> 32 word list \<Rightarrow> 32 word list" where
  "sha_round (k, w) [a, b, c, d, e, f, g, h] =
     (let t1 = h + (ror32 6 e XOR ror32 11 e XOR ror32 25 e) + ((e AND f) XOR (NOT e AND g)) + k + w;
          t2 = (ror32 2 a XOR ror32 13 a XOR ror32 22 a) + ((a AND b) XOR (a AND c) XOR (b AND c))
      in [t1 + t2, a, b, c, d + t1, e, f, g])"
| "sha_round _ st = st"

definition sha_block :: "32 word list \<Rightarrow> bytes \<Rightarrow> 32 word list" where
  "sha_block st blk =
     (let ws = rev (sha_extend 48 (rev (map be32 (chunks 16 4 blk))))
      in map (\<lambda>(x, y). x + y) (zip st (fold sha_round (zip sha_k ws) st)))"

definition sha256 :: "bytes \<Rightarrow> bytes" where
  "sha256 m =
     (let p = sha_pad m
      in concat (map bytes32 (foldl sha_block sha_init (chunks (length p div 64) 64 p))))"

definition hexdigest :: "bytes \<Rightarrow> string" where
  "hexdigest bs = concat (map (\<lambda>b. [hex_digit (b div 16), hex_digit (b mod 16)]) bs)"

definition xor_byte :: "nat \<Rightarrow> nat \<Rightarrow> nat" where
  "xor_byte a b = unat ((word_of_nat a :: 8 word) XOR word_of_nat b)"

definition hmac_sha256 :: "bytes \<Rightarrow> bytes \<Rightarrow> bytes" where
  "hmac_sha256 key msg =
     (let k0 = (if length key > 64 then sha256 key else key);
          k = k0 @ replicate (64 - length k0) 0
      in sha256 (map (xor_byte 92) k @ sha256 (map (xor_byte 54) k @ msg)))"

text \<open>The digest is 64 hexadecimal digits, so always ASCII text of one length.\<close>

lemma length_sha_round: "length st = 8 \<Longrightarrow> length (sha_round kw st) = 8"
  by (cases "(kw, st)" rule: sha_round.cases) (auto simp: Let_def)

lemma length_fold_round: "length st = 8 \<Longrightarrow> length (fold sha_round kws st) = 8"
  by (induction kws arbitrary: st) (auto simp: length_sha_round)

lemma length_sha_block: "length st = 8 \<Longrightarrow> length (sha_block st blk) = 8"
  by (simp add: sha_block_def length_fold_round Let_def)

lemma length_sha_blocks: "length st = 8 \<Longrightarrow> length (foldl sha_block st blks) = 8"
  by (induction blks arbitrary: st) (auto simp: length_sha_block)

lemma length_concat_const: "(\<And>x. length (f x) = n) \<Longrightarrow> length (concat (map f xs)) = n * length xs"
  by (induction xs) auto

lemma length_sha256: "length (sha256 m) = 32"
  using length_sha_blocks [of sha_init "chunks (length (sha_pad m) div 64) 64 (sha_pad m)"]
  by (simp add: sha256_def Let_def length_concat_const [of bytes32 4] bytes32_def sha_init_def)

lemma length_hexdigest: "length (hexdigest bs) = 2 * length bs"
  by (simp add: hexdigest_def length_concat_const [of _ 2])

lemma length_digest_text:
  "length (hexdigest (sha256 m)) = 64" "length (hexdigest (hmac_sha256 k m)) = 64"
  by (simp_all add: length_hexdigest hmac_sha256_def Let_def length_sha256)

lemma bytes32_range: "b \<in> set (bytes32 w) \<Longrightarrow> b < 256"
proof -
  have "unat w < 2 ^ 32" using unsigned_less [of w, where ?'a = nat] by simp
  then have "unat w div 16777216 < 256" by (simp add: div_less_iff_less_mult)
  then show "b \<in> set (bytes32 w) \<Longrightarrow> b < 256" by (auto simp: bytes32_def Let_def)
qed

lemma sha256_range: "b \<in> set (sha256 m) \<Longrightarrow> b < 256"
  by (auto simp: sha256_def Let_def dest: bytes32_range)

lemma hex_digit_ascii: "n < 16 \<Longrightarrow> code (hex_digit n) < 128"
  by (auto simp: hex_digit_def code_def)

lemma hexdigest_ascii:
  assumes "\<forall>b \<in> set bs. b < 256" and "c \<in> set (hexdigest bs)"
  shows "code c < 128"
proof -
  have "b div 16 < 16" if "b < 256" for b :: nat using that by (simp add: div_less_iff_less_mult)
  with assms show ?thesis by (auto simp: hexdigest_def intro!: hex_digit_ascii)
qed

lemma digest_text_ascii:
  "c \<in> set (hexdigest (sha256 m)) \<Longrightarrow> code c < 128"
  "c \<in> set (hexdigest (hmac_sha256 k m)) \<Longrightarrow> code c < 128"
  by (auto simp: hmac_sha256_def Let_def dest!: hexdigest_ascii [rotated] dest: sha256_range)

end
