(* ===== verification/Decoded.thy ===== *)
theory Decoded
  imports Errors
begin

section \<open>Decoded JSON as Python reads it\<close>

text \<open>
  Indexing, \<open>get\<close>, equality and \<open>int\<close> on values whose type nobody checked. \<open>json.loads\<close> itself is
  an argument of the code that calls it: the value, or the text of its \<open>JSONDecodeError\<close>.
\<close>

type_synonym json_loads = "string \<Rightarrow> string + pyv"

fun py_index :: "pyv \<Rightarrow> string \<Rightarrow> exn + pyv" where
  \<comment> \<open>\<open>v[k]\<close> for a string \<open>k\<close>\<close>
  "py_index (PDict d) k = (case dict_get d k of Some v \<Rightarrow> Inr v | None \<Rightarrow> Inl (KeyError k))"
| "py_index (PList xs) k = Inl (TypeError ''list indices must be integers or slices, not str'')"
| "py_index (PStr s) k = Inl (TypeError ''string indices must be integers, not str'')"
| "py_index v k = Inl (TypeError (repr_str (type_name v) @ '' object is not subscriptable''))"

fun py_get :: "pyv \<Rightarrow> string \<Rightarrow> exn + pyv" where
  \<comment> \<open>\<open>v.get(k)\<close>\<close>
  "py_get (PDict d) k = Inr (dget d k)"
| "py_get v k = Inl (AttributeError (repr_str (type_name v) @ '' object has no attribute '' @ repr_str ''get''))"

definition as_value_error :: "string \<Rightarrow> exn + 'a \<Rightarrow> exn + 'a" where
  \<comment> \<open>\<open>except (KeyError, TypeError) as exc: raise ValueError(...)\<close>\<close>
  "as_value_error text m =
     (case m of
        Inl e \<Rightarrow> (case e of
                    KeyError k \<Rightarrow> Inl (ValueError (text @ exn_str e))
                  | TypeError t \<Rightarrow> Inl (ValueError (text @ exn_str e))
                  | _ \<Rightarrow> Inl e)
      | Inr x \<Rightarrow> Inr x)"

lemma py_index_Inr: "py_index v k = Inr x \<longleftrightarrow> (\<exists>d. v = PDict d \<and> dict_get d k = Some x)"
  by (cases v) (auto split: option.splits)

lemma py_index_Inl: "py_index v k = Inl e \<Longrightarrow> (\<exists>j. e = KeyError j) \<or> (\<exists>t. e = TypeError t)"
  by (cases v) (auto split: option.splits)

lemma as_value_error_Inr [simp]: "as_value_error t m = Inr x \<longleftrightarrow> m = Inr x"
  by (cases m) (auto simp: as_value_error_def split: exn.splits)

lemma as_value_error_Inl:
  "as_value_error t m = Inl e \<Longrightarrow> (\<And>e'. m = Inl e' \<Longrightarrow> (\<exists>j. e' = KeyError j) \<or> (\<exists>t. e' = TypeError t))
     \<Longrightarrow> \<exists>text. e = ValueError text"
  by (cases m) (auto simp: as_value_error_def)

subsection \<open>Equality\<close>

fun num_of :: "pyv \<Rightarrow> pyfloat option" where
  "num_of (PBool b) = Some (Fin (if b then 1 else 0))"
| "num_of (PInt i) = Some (Fin (of_int i))"
| "num_of (PFloat f) = Some f"
| "num_of v = None"

lemma size_zip [termination_simp]: "(x, y) \<in> set (zip xs ys) \<Longrightarrow> size x < Suc (size_list size xs)"
  by (meson le_imp_less_Suc order_refl set_zip_leftD size_list_estimation')

fun py_eq :: "pyv \<Rightarrow> pyv \<Rightarrow> bool" where
  \<comment> \<open>\<open>a == b\<close>: numbers by value, NaN equal to nothing; inside a list or a dictionary the identical
     object counts as equal, and decoded NaN is one object\<close>
  "py_eq (PList xs) b = (case b of
       PList ys \<Rightarrow> length xs = length ys \<and> list_all (\<lambda>(x, y). x = y \<or> py_eq x y) (zip xs ys)
     | _ \<Rightarrow> False)"
| "py_eq (PDict xs) b = (case b of
       PDict ys \<Rightarrow> length xs = length ys
         \<and> list_all (\<lambda>(k, x). case map_of ys k of None \<Rightarrow> False | Some y \<Rightarrow> x = y \<or> py_eq x y) xs
     | _ \<Rightarrow> False)"
| "py_eq (PStr s) b = (b = PStr s)"
| "py_eq PNone b = (b = PNone)"
| "py_eq a b = (case (num_of a, num_of b) of (Some x, Some y) \<Rightarrow> x = y \<and> x \<noteq> NaN | _ \<Rightarrow> False)"

lemma py_eq_str: "py_eq (PStr a) v \<longleftrightarrow> v = PStr a" "py_eq v (PStr a) \<longleftrightarrow> v = PStr a"
  by (cases v; auto)+

subsection \<open>int\<close>

definition unsupported_int :: "pyv \<Rightarrow> exn" where
  "unsupported_int v =
     TypeError (''int() argument must be a string, a bytes-like object or a real number, not '' @ repr_str (type_name v))"

fun digits_val :: "bool \<Rightarrow> nat \<Rightarrow> string \<Rightarrow> nat option" where
  \<comment> \<open>decimal digits with single underscores between them; the flag says that a digit came before\<close>
  "digits_val d n [] = (if d then Some n else None)"
| "digits_val d n (c # cs) =
     (if is_digit c then digits_val True (10 * n + (code c - 48)) cs
      else if c = CHR ''_'' \<and> d \<and> cs \<noteq> [] then digits_val False n cs
      else None)"

definition parse_int :: "string \<Rightarrow> int option" where
  \<comment> \<open>\<open>int(s)\<close>: blanks around, one sign, at most 4300 digits\<close>
  "parse_int s =
     (let t = strip s;
          neg = (case t of c # _ \<Rightarrow> c = CHR ''-'' | [] \<Rightarrow> False);
          body = (case t of c # cs \<Rightarrow> if c = CHR ''-'' \<or> c = CHR ''+'' then cs else t | [] \<Rightarrow> [])
      in if 4300 < length (filter is_digit body) then None
         else map_option (\<lambda>n. if neg then - int n else int n) (digits_val False 0 body))"

fun py_int :: "pyv \<Rightarrow> exn + int" where
  "py_int (PBool b) = Inr (if b then 1 else 0)"
| "py_int (PInt i) = Inr i"
| "py_int (PFloat f) = (case f of
       Fin q \<Rightarrow> Inr (if 0 \<le> q then floor q else - floor (- q))
     | NaN \<Rightarrow> Inl (ValueError ''cannot convert float NaN to integer'')
     | _ \<Rightarrow> Inl (OverflowError ''cannot convert float infinity to integer''))"
| "py_int (PStr s) = (case parse_int s of
       Some i \<Rightarrow> Inr i
     | None \<Rightarrow> Inl (ValueError (''invalid literal for int() with base 10: '' @ repr_str s)))"
| "py_int v = Inl (unsupported_int v)"

end
