(* ===== verification/Channels.thy ===== *)
theory Channels
  imports Gateway Identity Sha256 Decoded
begin

section \<open>Channels\<close>

text \<open>
  \<open>engine/channels\<close> and the two channel adapters. A channel is a record of operations over its
  state; the locale \<open>messaging_gateway\<close> states what the runner needs of one. \<open>json.loads\<close> is an
  argument: the value, or the text of its \<open>JSONDecodeError\<close>; so is the text of a float.
\<close>

subsection \<open>Contracts\<close>

record incoming_message =
  im_channel :: string
  im_raw_user_ref :: string
  im_thread_key :: string
  im_text :: string
  im_message_id :: pyv
  im_attachments :: "string list"
  im_is_command :: bool

record route_decision =
  rd_workspace_id :: string
  rd_user_id :: "string option"

record reply_target =
  rt_channel :: string
  rt_thread_key :: string
  rt_raw_user_ref :: string

record progress_state =
  ps_message :: string
  ps_fraction :: "pyfloat option"

record 'c messaging_ops =
  mg_verify_inbound :: "string \<Rightarrow> string dict \<Rightarrow> exn + unit"
  mg_parse_inbound :: "string \<Rightarrow> exn + incoming_message"
  mg_send_text :: "reply_target \<Rightarrow> pyv \<Rightarrow> 'c \<Rightarrow> (exn + unit) \<times> 'c"
  mg_send_attachments :: "reply_target \<Rightarrow> string list \<Rightarrow> 'c \<Rightarrow> (exn + unit) \<times> 'c"
  mg_start_progress :: "reply_target \<Rightarrow> string list \<Rightarrow> 'c \<Rightarrow> (exn + string) \<times> 'c"
  mg_update_progress :: "string \<Rightarrow> progress_state \<Rightarrow> 'c \<Rightarrow> (exn + unit) \<times> 'c"

type_synonym workspace_router = "incoming_message \<Rightarrow> exn + route_decision"

subsection \<open>Routers\<close>

definition static_route :: "string \<Rightarrow> workspace_router" where
  "static_route ws msg = Inr \<lparr>rd_workspace_id = ws, rd_user_id = None\<rparr>"

definition identity_route :: "identity_ops \<Rightarrow> workspace_router" where
  "identity_route I msg =
     res_bind (ip_resolve_user I (im_raw_user_ref msg))
       (\<lambda>u. case default_workspace u of
          None \<Rightarrow> Inl (WorkspaceRouteError (user_id u))
        | Some ws \<Rightarrow>
            (if \<not> ip_can_access_workspace I u ws then Inl (WorkspaceAccessDenied (user_id u) ws)
             else Inr \<lparr>rd_workspace_id = ws, rd_user_id = Some (user_id u)\<rparr>))"

lemma identity_route_iff:
  "identity_route I msg = Inr d \<longleftrightarrow>
     (\<exists>u ws. ip_resolve_user I (im_raw_user_ref msg) = Inr u \<and> default_workspace u = Some ws
        \<and> ip_can_access_workspace I u ws \<and> d = \<lparr>rd_workspace_id = ws, rd_user_id = Some (user_id u)\<rparr>)"
  by (auto simp: identity_route_def split: option.splits if_splits)

subsection \<open>ChannelRunner\<close>

record ('c, 's, 't) run_world =
  rn_channel :: 'c
  rn_conv :: "('s, 't) conv_world"

definition reply_to :: "incoming_message \<Rightarrow> reply_target" where
  "reply_to msg = \<lparr>rt_channel = im_channel msg, rt_thread_key = im_thread_key msg, rt_raw_user_ref = im_raw_user_ref msg\<rparr>"

definition gateway_args_of :: "string \<Rightarrow> incoming_message \<Rightarrow> route_decision \<Rightarrow> gateway_args" where
  "gateway_args_of default_backend msg d =
     \<lparr>ga_workspace_id = rd_workspace_id d, ga_channel = im_channel msg, ga_thread_key = im_thread_key msg,
      ga_text = im_text msg, ga_backend_name = default_backend, ga_message_id = im_message_id msg,
      ga_model = None, ga_user_id = rd_user_id d\<rparr>"

definition admit :: "'c messaging_ops \<Rightarrow> workspace_router \<Rightarrow> string \<Rightarrow> string dict \<Rightarrow> exn + incoming_message \<times> route_decision" where
  \<comment> \<open>verify, parse, route: the part before the conversation\<close>
  "admit M route raw headers =
     res_bind (mg_verify_inbound M raw headers)
       (\<lambda>_. res_bind (mg_parse_inbound M raw)
         (\<lambda>msg. res_bind (route msg) (\<lambda>d. Inr (msg, d))))"

definition handle_raw :: "'c messaging_ops \<Rightarrow> workspace_router \<Rightarrow> workspace_resolver \<Rightarrow> 's session_store_ops
    \<Rightarrow> ('t, 'sp) tracer_ops \<Rightarrow> engine_registry \<Rightarrow> string \<Rightarrow> string \<Rightarrow> rat \<Rightarrow> string \<Rightarrow> string dict
    \<Rightarrow> ('c, 's, 't) run_world \<Rightarrow> (exn + agent_run_result) \<times> ('c, 's, 't) run_world" where
  "handle_raw M route rs S T reg default_backend uuid now raw headers w =
     (case admit M route raw headers of
        Inl e \<Rightarrow> (Inl e, w)
      | Inr (msg, d) \<Rightarrow>
          (case gateway_handle rs S T reg uuid now (gateway_args_of default_backend msg d) (rn_conv w) of
             (Inl e, cw) \<Rightarrow> (Inl e, w\<lparr>rn_conv := cw\<rparr>)
           | (Inr r, cw) \<Rightarrow>
               (case mg_send_text M (reply_to msg) (final_text r) (rn_channel w) of
                  (Inl e, c) \<Rightarrow> (Inl e, w\<lparr>rn_conv := cw, rn_channel := c\<rparr>)
                | (Inr _, c) \<Rightarrow> (Inr r, w\<lparr>rn_conv := cw, rn_channel := c\<rparr>))))"

locale messaging_gateway =
  fixes M :: "'c messaging_ops" and texts :: "'c \<Rightarrow> (reply_target \<times> pyv) list"
  assumes send_text: "mg_send_text M tgt x c = (u, c') \<Longrightarrow> u = Inr () \<and> texts c' = texts c @ [(tgt, x)]"
    and send_attachments: "mg_send_attachments M tgt fs c = (u, c') \<Longrightarrow> texts c' = texts c"
    and start_progress: "mg_start_progress M tgt steps c = (h, c') \<Longrightarrow> texts c' = texts c"
    and update_progress: "mg_update_progress M handle p c = (u, c') \<Longrightarrow> texts c' = texts c"
begin

text \<open>A message is answered once when its turn returns, and not at all when anything raises.\<close>

lemma answered_once:
  assumes "handle_raw M route rs S T reg db uuid now raw headers w = (out, w')"
  shows "case out of
      Inl e \<Rightarrow> rn_channel w' = rn_channel w
    | Inr r \<Rightarrow> (\<exists>msg d. admit M route raw headers = Inr (msg, d)
        \<and> texts (rn_channel w') = texts (rn_channel w) @ [(reply_to msg, final_text r)])"
proof (cases "admit M route raw headers")
  case (Inl e)
  with assms show ?thesis by (auto simp: handle_raw_def)
next
  case (Inr md)
  obtain msg d where md: "md = (msg, d)" by (cases md)
  obtain g cw where g: "gateway_handle rs S T reg uuid now (gateway_args_of db msg d) (rn_conv w) = (g, cw)" by fastforce
  show ?thesis
  proof (cases g)
    case (Inl e)
    with assms Inr g md show ?thesis by (auto simp: handle_raw_def)
  next
    case (Inr r)
    obtain u c where s: "mg_send_text M (reply_to msg) (final_text r) (rn_channel w) = (u, c)" by fastforce
    from send_text [OF this] s assms Inr \<open>admit M route raw headers = Inr md\<close> g md show ?thesis
      by (auto simp: handle_raw_def)
  qed
qed

end

subsection \<open>Signatures\<close>

definition lower_headers :: "string dict \<Rightarrow> string dict" where
  "lower_headers headers = dict_of (List.map (\<lambda>(k, v). (lower k, v)) headers)"

definition compare_digest :: "string \<Rightarrow> string \<Rightarrow> exn + bool" where
  \<comment> \<open>\<open>hmac.compare_digest\<close> on strings, which must be ASCII\<close>
  "compare_digest a b =
     (if list_ex (\<lambda>c. 128 \<le> code c) (a @ b)
      then Inl (TypeError ''comparing strings with non-ASCII characters is not supported'')
      else Inr (a = b))"

definition verify_signature :: "string \<Rightarrow> string \<Rightarrow> string \<Rightarrow> string dict \<Rightarrow> exn + unit" where
  \<comment> \<open>the part both channels share: find the header, compare it with the digest\<close>
  "verify_signature header shown expected headers =
     (case dict_get (lower_headers headers) header of
        None \<Rightarrow> Inl (InboundAuthError (''missing '' @ shown))
      | Some sig \<Rightarrow>
          (if sig = [] then Inl (InboundAuthError (''missing '' @ shown))
           else res_bind (compare_digest sig expected)
             (\<lambda>ok. if ok then Inr () else Inl (InboundAuthError ''signature mismatch''))))"

lemma verify_signature_iff:
  assumes "expected \<noteq> []" and "\<forall>c \<in> set expected. code c < 128"
  shows "verify_signature header shown expected headers = Inr ()
    \<longleftrightarrow> dict_get (lower_headers headers) header = Some expected"
  using assms
  by (force simp: verify_signature_def compare_digest_def list_ex_iff split: option.splits if_splits)

record channel_state =
  sent_texts :: "(reply_target \<times> pyv) list"
  sent_attachments :: "(reply_target \<times> string list) list"
  progress_started :: "(reply_target \<times> string list \<times> string) list"
  progress_updates :: "(string \<times> progress_state) list"

definition new_channel :: channel_state where
  "new_channel = \<lparr>sent_texts = [], sent_attachments = [], progress_started = [], progress_updates = []\<rparr>"

definition ch_send_text :: "reply_target \<Rightarrow> pyv \<Rightarrow> channel_state \<Rightarrow> (exn + unit) \<times> channel_state" where
  "ch_send_text tgt text c = (Inr (), c\<lparr>sent_texts := sent_texts c @ [(tgt, text)]\<rparr>)"

definition ch_send_attachments :: "reply_target \<Rightarrow> string list \<Rightarrow> channel_state \<Rightarrow> (exn + unit) \<times> channel_state" where
  "ch_send_attachments tgt files c = (Inr (), c\<lparr>sent_attachments := sent_attachments c @ [(tgt, files)]\<rparr>)"

definition ch_start_progress ::
  "string \<Rightarrow> reply_target \<Rightarrow> string list \<Rightarrow> channel_state \<Rightarrow> (exn + string) \<times> channel_state" where
  "ch_start_progress pre tgt steps c =
     (let h = pre @ rt_thread_key tgt in
      (Inr h, c\<lparr>progress_started := progress_started c @ [(tgt, steps, h)]\<rparr>))"

definition ch_update_progress :: "string \<Rightarrow> progress_state \<Rightarrow> channel_state \<Rightarrow> (exn + unit) \<times> channel_state" where
  "ch_update_progress h st c = (Inr (), c\<lparr>progress_updates := progress_updates c @ [(h, st)]\<rparr>)"

subsection \<open>WebhookChannel\<close>

definition webhook_signature :: "string \<Rightarrow> string \<Rightarrow> string" where
  "webhook_signature secret raw = hexdigest (hmac_sha256 (utf8 secret) (utf8 raw))"

definition webhook_verify :: "string \<Rightarrow> string \<Rightarrow> string dict \<Rightarrow> exn + unit" where
  "webhook_verify secret raw headers =
     verify_signature ''x-signature'' ''X-Signature'' (webhook_signature secret raw) headers"

definition webhook_fields :: "pyv \<Rightarrow> exn + pyv \<times> pyv \<times> pyv" where
  "webhook_fields payload =
     as_value_error ''webhook payload is missing a required field: ''
       (res_bind (py_index payload ''user'')
         (\<lambda>user. res_bind (py_index payload ''thread'')
           (\<lambda>thread. res_bind (py_index payload ''text'') (\<lambda>text. Inr (user, thread, text)))))"

definition webhook_attachments :: "pyv \<Rightarrow> exn + pyv list" where
  \<comment> \<open>\<open>payload.get("attachments", []) or []\<close>, then the type check\<close>
  "webhook_attachments payload =
     res_bind (py_get payload ''attachments'')
       (\<lambda>v. if \<not> truthy v then Inr []
            else (case v of
                    PList xs \<Rightarrow> Inr xs
                  | _ \<Rightarrow> Inl (ValueError (''attachments must be a list/tuple, got '' @ type_name v))))"

definition webhook_parse :: "(pyfloat \<Rightarrow> string) \<Rightarrow> json_loads \<Rightarrow> string \<Rightarrow> exn + incoming_message" where
  "webhook_parse fr loads raw =
     (case loads raw of
        Inl t \<Rightarrow> Inl (ValueError (''malformed webhook body: '' @ t))
      | Inr payload \<Rightarrow>
          res_bind (webhook_fields payload)
            (\<lambda>(user, thread, text). res_bind (webhook_attachments payload)
              (\<lambda>atts. res_bind (py_get payload ''message_id'')
                (\<lambda>mid. Inr \<lparr>im_channel = ''webhook'', im_raw_user_ref = py_str fr user,
                            im_thread_key = py_str fr thread, im_text = py_str fr text, im_message_id = mid,
                            im_attachments = List.map (py_str fr) atts,
                            im_is_command = starts_with ''/'' (py_str fr text)\<rparr>))))"

definition webhook_ops :: "(pyfloat \<Rightarrow> string) \<Rightarrow> json_loads \<Rightarrow> string \<Rightarrow> channel_state messaging_ops" where
  "webhook_ops fr loads secret =
     \<lparr>mg_verify_inbound = webhook_verify secret, mg_parse_inbound = webhook_parse fr loads,
      mg_send_text = ch_send_text, mg_send_attachments = ch_send_attachments,
      mg_start_progress = ch_start_progress ''prog-'', mg_update_progress = ch_update_progress\<rparr>"

subsection \<open>SeaTalkChannel\<close>

definition seatalk_signature :: "string \<Rightarrow> string \<Rightarrow> string" where
  "seatalk_signature secret raw = hexdigest (sha256 (utf8 (raw @ secret)))"

definition seatalk_verify :: "string \<Rightarrow> string \<Rightarrow> string dict \<Rightarrow> exn + unit" where
  "seatalk_verify secret raw headers =
     verify_signature ''signature'' ''Signature'' (seatalk_signature secret raw) headers"

definition seatalk_event :: "pyv \<Rightarrow> exn + pyv \<times> pyv" where
  "seatalk_event payload =
     as_value_error ''SeaTalk payload is missing event/message: ''
       (res_bind (py_index payload ''event'')
         (\<lambda>event. res_bind (py_index event ''message'') (\<lambda>message. Inr (event, message))))"

definition seatalk_fields :: "pyv \<Rightarrow> pyv \<Rightarrow> exn + pyv \<times> pyv \<times> pyv" where
  "seatalk_fields event message =
     as_value_error ''SeaTalk payload is missing a required field: ''
       (res_bind (py_index message ''text'')
         (\<lambda>t. res_bind (py_index t ''plain_text'')
           (\<lambda>text. res_bind (py_index event ''sender'')
             (\<lambda>s. res_bind (py_index s ''email'')
               (\<lambda>email. res_bind (py_index event ''thread_id'') (\<lambda>thread. Inr (text, email, thread)))))))"

definition seatalk_parse :: "(pyfloat \<Rightarrow> string) \<Rightarrow> json_loads \<Rightarrow> string \<Rightarrow> exn + incoming_message" where
  "seatalk_parse fr loads raw =
     (case loads raw of
        Inl t \<Rightarrow> Inl (ValueError (''malformed SeaTalk body: '' @ t))
      | Inr payload \<Rightarrow>
          res_bind (py_get payload ''event_type'')
            (\<lambda>ty. if ty \<noteq> PStr ''message_from_bot_subscriber''
                  then Inl (ValueError (''unsupported SeaTalk event_type: '' @ py_repr fr ty))
                  else res_bind (seatalk_event payload)
                    (\<lambda>(event, message). res_bind (py_get message ''tag'')
                      (\<lambda>tag. if tag \<noteq> PStr ''text''
                             then Inl (ValueError (''unsupported SeaTalk message tag: '' @ py_repr fr tag))
                             else res_bind (seatalk_fields event message)
                               (\<lambda>(text, email, thread). res_bind (py_get event ''message_id'')
                                 (\<lambda>mid. Inr \<lparr>im_channel = ''seatalk'', im_raw_user_ref = py_str fr email,
                                             im_thread_key = py_str fr thread, im_text = py_str fr text,
                                             im_message_id = mid, im_attachments = [],
                                             im_is_command = starts_with ''/'' (py_str fr text)\<rparr>))))))"

definition seatalk_ops :: "(pyfloat \<Rightarrow> string) \<Rightarrow> json_loads \<Rightarrow> string \<Rightarrow> channel_state messaging_ops" where
  "seatalk_ops fr loads secret =
     \<lparr>mg_verify_inbound = seatalk_verify secret, mg_parse_inbound = seatalk_parse fr loads,
      mg_send_text = ch_send_text, mg_send_attachments = ch_send_attachments,
      mg_start_progress = ch_start_progress ''st-prog-'', mg_update_progress = ch_update_progress\<rparr>"

lemma channel_ops_sel [simp]:
  "mg_verify_inbound (webhook_ops fr loads k) = webhook_verify k"
  "mg_parse_inbound (webhook_ops fr loads k) = webhook_parse fr loads"
  "mg_send_text (webhook_ops fr loads k) = ch_send_text"
  "mg_verify_inbound (seatalk_ops fr loads k) = seatalk_verify k"
  "mg_parse_inbound (seatalk_ops fr loads k) = seatalk_parse fr loads"
  "mg_send_text (seatalk_ops fr loads k) = ch_send_text"
  by (simp_all add: webhook_ops_def seatalk_ops_def)

interpretation webhook: messaging_gateway "webhook_ops fr loads secret" sent_texts
  by unfold_locales
    (auto simp: webhook_ops_def ch_send_text_def ch_send_attachments_def ch_start_progress_def ch_update_progress_def Let_def)

interpretation seatalk: messaging_gateway "seatalk_ops fr loads secret" sent_texts
  by unfold_locales
    (auto simp: seatalk_ops_def ch_send_text_def ch_send_attachments_def ch_start_progress_def ch_update_progress_def Let_def)

lemma webhook_verify_iff:
  "webhook_verify secret raw headers = Inr ()
     \<longleftrightarrow> dict_get (lower_headers headers) ''x-signature'' = Some (webhook_signature secret raw)"
  unfolding webhook_verify_def
proof (rule verify_signature_iff)
  show "webhook_signature secret raw \<noteq> []"
    using length_digest_text(2) [of "utf8 secret" "utf8 raw"] by (auto simp: webhook_signature_def)
  show "\<forall>c \<in> set (webhook_signature secret raw). code c < 128"
    using digest_text_ascii by (auto simp: webhook_signature_def)
qed

lemma seatalk_verify_iff:
  "seatalk_verify secret raw headers = Inr ()
     \<longleftrightarrow> dict_get (lower_headers headers) ''signature'' = Some (seatalk_signature secret raw)"
  unfolding seatalk_verify_def
proof (rule verify_signature_iff)
  show "seatalk_signature secret raw \<noteq> []"
    using length_digest_text(1) [of "utf8 (raw @ secret)"] by (auto simp: seatalk_signature_def)
  show "\<forall>c \<in> set (seatalk_signature secret raw). code c < 128"
    using digest_text_ascii by (auto simp: seatalk_signature_def)
qed

end
