(* ===== verification/Channel_Properties.thy ===== *)
theory Channel_Properties
  imports Channels Context_Properties Engine_Trace Conversation_History
begin

section \<open>Properties of the inbound path\<close>

text \<open>
  From the raw body of a message to the reply: who gets a turn, how often a message is answered,
  and what of the secrets can be seen.
\<close>

lemma conv_handle_runs:
  "es_runs (cw_engine (snd (conv_handle S T reg uuid now a w))) = es_runs (cw_engine w)
   \<or> (\<exists>name req. es_runs (cw_engine (snd (conv_handle S T reg uuid now a w))) = es_runs (cw_engine w) @ [(name, req)]
        \<and> req_cwd req = ca_cwd a \<and> req_env req = ca_env a \<and> req_prompt req = ca_text a)"
proof -
  have "es_runs (snd (run_turn T reg (turn_args_of x a) (cw_engine w))) = es_runs (cw_engine w)
      \<or> (\<exists>name req. es_runs (snd (run_turn T reg (turn_args_of x a) (cw_engine w))) = es_runs (cw_engine w) @ [(name, req)]
        \<and> req_cwd req = ca_cwd a \<and> req_env req = ca_env a \<and> req_prompt req = ca_text a)" for x
    by (auto simp: run_turn_runs turn_args_of_def turn_request_def split: sum.splits)
  then show ?thesis
    by (auto simp: conv_handle_def split: prod.splits sum.splits bool.splits) (metis snd_conv)+
qed

lemma gateway_handle_runs:
  assumes "resolve rs (ga_workspace_id g) (ga_user_id g) = Inr ws"
    and "(name, req) \<in> set (drop (length (es_runs (cw_engine w))) (es_runs (cw_engine (snd (gateway_handle rs S T reg uuid now g w)))))"
  shows "req_cwd req = rw_cwd ws \<and> req_env req = rw_env ws \<and> req_prompt req = ga_text g"
  using conv_handle_runs [of S T reg uuid now "conv_args_of g ws" w] assms
  by (auto simp: gateway_handle_def conv_args_of_def)

lemma gateway_handle_secrets:
  assumes rs: "resolver_sources rs" "resolver_sources (rs\<lparr>rs_secrets := get\<rparr>)"
    and same: "same_names (rs_secrets rs (ga_workspace_id g)) (get (ga_workspace_id g))"
    and blind: "env_blind reg"
  shows "fst (gateway_handle (rs\<lparr>rs_secrets := get\<rparr>) S T reg uuid now g w) = fst (gateway_handle rs S T reg uuid now g w)
    \<and> cw_store (snd (gateway_handle (rs\<lparr>rs_secrets := get\<rparr>) S T reg uuid now g w)) = cw_store (snd (gateway_handle rs S T reg uuid now g w))
    \<and> same_but_runs (cw_engine (snd (gateway_handle (rs\<lparr>rs_secrets := get\<rparr>) S T reg uuid now g w)))
        (cw_engine (snd (gateway_handle rs S T reg uuid now g w)))"
proof (rule secret_values_irrelevant [OF rs same, of "ga_user_id g"])
  fix ws env
  assume "resolve rs (ga_workspace_id g) (ga_user_id g) = Inr ws"
    and "resolve (rs\<lparr>rs_secrets := get\<rparr>) (ga_workspace_id g) (ga_user_id g) = Inr (ws\<lparr>rw_env := env\<rparr>)"
    and red: "redacted_env (ws\<lparr>rw_env := env\<rparr>) = redacted_env ws"
  moreover have "conv_args_of g (ws\<lparr>rw_env := env\<rparr>) = (conv_args_of g ws)\<lparr>ca_env := env\<rparr>"
    by (simp add: conv_args_of_def red)
  moreover have "same_but_runs (cw_engine w) (cw_engine w)" by (simp add: same_but_runs_def)
  ultimately show ?thesis
    using conv_handle_env [OF blind refl, where v = w and S = S and T = T and uuid = uuid and now = now
        and a = "conv_args_of g ws" and env = env]
    by (simp add: gateway_handle_def)
qed (simp add: gateway_handle_def same_but_runs_def)

subsection \<open>A world for the witnesses\<close>

definition demo_identity :: memory_identity where
  "demo_identity =
     \<lparr>mi_users = [''alice'' \<mapsto> \<lparr>user_id = ''u1'', display_name = ''Alice'', roles = [], default_workspace = Some ''ws1''\<rparr>],
      mi_authorized = [''u1'' \<mapsto> [''ws1'']], mi_denied_skills = Map.empty, mi_denied_workflows = Map.empty\<rparr>"

definition demo_float :: "pyfloat \<Rightarrow> string" where
  "demo_float f = ''0.5''"

definition demo_body :: pyv where
  "demo_body = PDict [(''user'', PStr ''alice''), (''thread'', PStr ''t1''), (''text'', PStr ''hi'')]"

definition demo_loads :: json_loads where
  "demo_loads raw = Inr demo_body"

abbreviation (input) demo_webhook :: "channel_state messaging_ops" where
  "demo_webhook \<equiv> webhook_ops demo_float demo_loads ''k''"

definition demo_headers :: "string \<Rightarrow> string dict" where
  "demo_headers raw = [(''X-Signature'', webhook_signature ''k'' raw)]"

definition demo_run_world :: "(channel_state, memory_store, memory_tracer) run_world" where
  "demo_run_world = \<lparr>rn_channel = new_channel, rn_conv = \<lparr>cw_store = mem_init, cw_engine = demo_state\<rparr>\<rparr>"

definition demo_handle :: "string \<Rightarrow> (exn + agent_run_result) \<times> (channel_state, memory_store, memory_tracer) run_world" where
  "demo_handle secret =
     handle_raw demo_webhook (identity_route (memory_identity_ops demo_identity)) (demo_resolver secret) memory_store_ops
       memory_tracer_ops demo_registry ''fake'' ''s1'' 1 ''{...}'' (demo_headers ''{...}'') demo_run_world"

lemma demo_admit:
  "admit demo_webhook (identity_route (memory_identity_ops demo_identity)) raw (demo_headers raw)
     = Inr (\<lparr>im_channel = ''webhook'', im_raw_user_ref = ''alice'', im_thread_key = ''t1'', im_text = ''hi'',
              im_message_id = PNone, im_attachments = [], im_is_command = False\<rparr>,
            \<lparr>rd_workspace_id = ''ws1'', rd_user_id = Some ''u1''\<rparr>)"
proof -
  have "lower ''X-Signature'' = ''x-signature''" by code_simp
  then have "webhook_verify ''k'' raw (demo_headers raw) = Inr ()"
    by (simp add: webhook_verify_iff demo_headers_def lower_headers_def dict_of_def dict_set_def dict_get_def)
  moreover have "webhook_parse demo_float demo_loads raw = Inr \<lparr>im_channel = ''webhook'', im_raw_user_ref = ''alice'',
      im_thread_key = ''t1'', im_text = ''hi'', im_message_id = PNone, im_attachments = [], im_is_command = False\<rparr>"
    by (simp add: webhook_parse_def demo_loads_def demo_body_def webhook_fields_def webhook_attachments_def
        as_value_error_def dict_get_def dget_def starts_with_def)
  ultimately show ?thesis
    by (simp add: admit_def identity_route_def demo_identity_def mi_resolve_user_def mi_can_access_workspace_def
        mi_authorized_workspaces_def get_or_def)
qed

lemma demo_outcome: "fst (demo_handle secret) = Inr (agent_run_result PNone (PStr ''echo: hi'') no_usage)"
proof -
  obtain ws where ws: "resolve (demo_resolver secret) ''ws1'' (Some ''u1'') = Inr ws" using demo_resolves by blast
  have "rw_backend_name ws = None" and "rw_max_rounds ws = None"
    using ws by (auto simp: resolve_def demo_resolver_def demo_specs_def default_spec_def Let_def)
  with ws show ?thesis
    by (simp add: demo_handle_def handle_raw_def demo_admit gateway_handle_def gateway_args_of_def demo_run_world_def
        conv_args_of_def backend_or_def rounds_or_def DEFAULT_MAX_ROUNDS_def conv_handle_def mem_get_or_create_def mem_init_def
        already_processed_def ca_key_def Let_def turn_args_of_def run_turn_def demo_registry_def turn_request_def
        echo_run_def turn_body_def leave_span_def new_session_def record_turn_def mem_save_def ch_send_text_def
        mem_start_trace_def note_tool_def split: prod.splits)
qed

subsection \<open>Properties\<close>

text \<open>C16. On the webhook channel with identity routing, a message has an effect - a result, or any
  change of the channel, the store, the traces or the started runs - only if it carries the HMAC of
  its body, its sender resolves to a user with a default workspace, that user may access it and
  the workspace resolves; every run it starts has that workspace's directory and environment and
  the message's text.\<close>

theorem webhook_turn_is_authorised:
  assumes "handle_raw (webhook_ops fr loads secret) (identity_route I) rs S T reg db uuid now raw headers w = (out, w')"
    and "succeeded out \<or> w' \<noteq> w"
  shows "\<exists>msg u ws rw.
      dict_get (lower_headers headers) ''x-signature'' = Some (webhook_signature secret raw)
    \<and> webhook_parse fr loads raw = Inr msg
    \<and> ip_resolve_user I (im_raw_user_ref msg) = Inr u \<and> default_workspace u = Some ws
    \<and> ip_can_access_workspace I u ws \<and> resolve rs ws (Some (user_id u)) = Inr rw
    \<and> (\<forall>(name, req) \<in> set (drop (length (es_runs (cw_engine (rn_conv w)))) (es_runs (cw_engine (rn_conv w')))).
          req_cwd req = rw_cwd rw \<and> req_env req = rw_env rw \<and> req_prompt req = im_text msg)"
proof -
  let ?M = "webhook_ops fr loads secret"
  obtain md where adm: "admit ?M (identity_route I) raw headers = Inr md"
    using assms by (cases "admit ?M (identity_route I) raw headers") (auto simp: handle_raw_def)
  obtain msg d where md: "md = (msg, d)" by (cases md)
  from adm obtain u ws where sig: "webhook_verify secret raw headers = Inr ()"
    and parse: "webhook_parse fr loads raw = Inr msg"
    and u: "ip_resolve_user I (im_raw_user_ref msg) = Inr u" "default_workspace u = Some ws" "ip_can_access_workspace I u ws"
    and d: "d = \<lparr>rd_workspace_id = ws, rd_user_id = Some (user_id u)\<rparr>"
    by (auto simp: admit_def md identity_route_iff)
  let ?g = "gateway_args_of db msg d"
  obtain g cw where g: "gateway_handle rs S T reg uuid now ?g (rn_conv w) = (g, cw)" by fastforce
  have conv: "rn_conv w' = cw"
    using assms(1) adm g by (auto simp: handle_raw_def md ch_send_text_def split: sum.splits)
  have "\<exists>rw. resolve rs ws (Some (user_id u)) = Inr rw"
  proof (rule ccontr)
    assume "\<nexists>rw. resolve rs ws (Some (user_id u)) = Inr rw"
    then obtain e where "resolve rs ws (Some (user_id u)) = Inl e" by (cases "resolve rs ws (Some (user_id u))") auto
    with g have "g = Inl e" "cw = rn_conv w" by (auto simp: gateway_handle_def gateway_args_of_def d)
    with assms adm g show False by (auto simp: handle_raw_def md)
  qed
  then obtain rw where rw: "resolve rs ws (Some (user_id u)) = Inr rw" ..
  have "req_cwd req = rw_cwd rw \<and> req_env req = rw_env rw \<and> req_prompt req = im_text msg"
    if "(name, req) \<in> set (drop (length (es_runs (cw_engine (rn_conv w)))) (es_runs (cw_engine (rn_conv w'))))" for name req
    using gateway_handle_runs [of rs ?g rw name req "rn_conv w" S T reg uuid now] rw that g conv
    by (simp add: gateway_args_of_def d)
  with sig parse u rw show ?thesis by (auto simp: webhook_verify_iff)
qed

theorem webhook_turn_is_authorised_witness:
  "dict_get (lower_headers (demo_headers ''{...}'')) ''x-signature'' = Some (webhook_signature ''k'' ''{...}'')
   \<and> succeeded (fst (demo_handle ''s3cret''))"
proof -
  obtain out w' where h: "demo_handle ''s3cret'' = (out, w')" by fastforce
  with demo_outcome [of "''s3cret''"] have "succeeded out" by auto
  then have "succeeded out \<or> w' \<noteq> demo_run_world" by simp
  from webhook_turn_is_authorised [OF h [unfolded demo_handle_def] this] \<open>succeeded out\<close> h
  show ?thesis by auto
qed

text \<open>C17. On either channel a message whose handling returns is answered with exactly one text, the
  final text of its turn, to the channel, thread and sender it came from; a message whose handling
  raises, for whatever reason, is not answered.\<close>

theorem message_answered_once:
  assumes "M = webhook_ops fr loads secret \<or> M = seatalk_ops fr loads secret"
    and "handle_raw M route rs S T reg db uuid now raw headers w = (out, w')"
  shows "case out of
      Inl e \<Rightarrow> rn_channel w' = rn_channel w
    | Inr r \<Rightarrow> (\<exists>msg. mg_parse_inbound M raw = Inr msg
        \<and> sent_texts (rn_channel w') = sent_texts (rn_channel w)
            @ [(\<lparr>rt_channel = im_channel msg, rt_thread_key = im_thread_key msg, rt_raw_user_ref = im_raw_user_ref msg\<rparr>,
                final_text r)])"
proof -
  have "case out of
      Inl e \<Rightarrow> rn_channel w' = rn_channel w
    | Inr r \<Rightarrow> (\<exists>msg d. admit M route raw headers = Inr (msg, d)
        \<and> sent_texts (rn_channel w') = sent_texts (rn_channel w) @ [(reply_to msg, final_text r)])"
    using assms(1)
  proof
    assume M: "M = webhook_ops fr loads secret"
    show ?thesis using webhook.answered_once [OF assms(2) [unfolded M]] by (simp only: M)
  next
    assume M: "M = seatalk_ops fr loads secret"
    show ?thesis using seatalk.answered_once [OF assms(2) [unfolded M]] by (simp only: M)
  qed
  then show ?thesis by (cases out) (auto simp: admit_def reply_to_def)
qed

theorem message_answered_once_witness:
  "\<exists>tgt. sent_texts (rn_channel (snd (demo_handle ''s3cret''))) = [(tgt, PStr ''echo: hi'')]"
proof -
  obtain out w' where h: "demo_handle ''s3cret'' = (out, w')" by fastforce
  with demo_outcome [of "''s3cret''"] have "out = Inr (agent_run_result PNone (PStr ''echo: hi'') no_usage)" by simp
  moreover have "sent_texts (rn_channel demo_run_world) = []" by (simp add: demo_run_world_def new_channel_def)
  ultimately show ?thesis
    using message_answered_once [OF disjI1 [OF refl] h [unfolded demo_handle_def]] h by auto
qed

text \<open>C18. End to end, secret values reach nothing but the environment of the child process: handling
  the same message with two secret providers that define the same names for every workspace, over
  backends whose events do not depend on the environment, gives the same outcome, the same
  replies, the same stored sessions and the same traces.\<close>

theorem secrets_reach_only_the_child:
  assumes "resolver_sources rs" and "resolver_sources (rs\<lparr>rs_secrets := get\<rparr>)"
    and "\<forall>ws. same_names (rs_secrets rs ws) (get ws)" and "env_blind reg"
    and "handle_raw M route rs S T reg db uuid now raw headers w = (out1, w1)"
    and "handle_raw M route (rs\<lparr>rs_secrets := get\<rparr>) S T reg db uuid now raw headers w = (out2, w2)"
  shows "out1 = out2 \<and> rn_channel w1 = rn_channel w2 \<and> cw_store (rn_conv w1) = cw_store (rn_conv w2)
    \<and> es_tracer (cw_engine (rn_conv w1)) = es_tracer (cw_engine (rn_conv w2))"
proof (cases "admit M route raw headers")
  case (Inl e)
  with assms(5,6) show ?thesis by (auto simp: handle_raw_def)
next
  case (Inr md)
  obtain msg d where md: "md = (msg, d)" by (cases md)
  let ?g = "gateway_args_of db msg d"
  obtain g1 c1 where g1: "gateway_handle rs S T reg uuid now ?g (rn_conv w) = (g1, c1)" by fastforce
  obtain g2 c2 where g2: "gateway_handle (rs\<lparr>rs_secrets := get\<rparr>) S T reg uuid now ?g (rn_conv w) = (g2, c2)" by fastforce
  have same: "g2 = g1 \<and> cw_store c2 = cw_store c1 \<and> es_tracer (cw_engine c2) = es_tracer (cw_engine c1)"
    using gateway_handle_secrets [OF assms(1,2) _ assms(4), of ?g S T uuid now "rn_conv w"] assms(3) g1 g2
    by (auto simp: same_but_runs_def)
  obtain u c where send: "mg_send_text M (reply_to msg) (final_text (projr g1)) (rn_channel w) = (u, c)" by fastforce
  with assms(5,6) Inr g1 g2 same md show ?thesis
    by (cases g1; cases u) (auto simp: handle_raw_def)
qed

theorem secrets_reach_only_the_child_witness:
  "fst (demo_handle ''s3cret'') = fst (demo_handle ''other'')
   \<and> es_tracer (cw_engine (rn_conv (snd (demo_handle ''s3cret'')))) = es_tracer (cw_engine (rn_conv (snd (demo_handle ''other''))))"
proof -
  obtain o1 w1 where h1: "demo_handle ''s3cret'' = (o1, w1)" by fastforce
  obtain o2 w2 where h2: "demo_handle ''other'' = (o2, w2)" by fastforce
  let ?get = "memory_get_secrets (demo_secrets ''other'')"
  have upd: "(demo_resolver ''s3cret'')\<lparr>rs_secrets := ?get\<rparr> = demo_resolver ''other''"
    by (simp add: demo_resolver_def memory_resolver_def)
  have src: "resolver_sources (demo_resolver v)" for v
    unfolding demo_resolver_def by (rule memres.resolver_sources_axioms)
  have src': "resolver_sources ((demo_resolver ''s3cret'')\<lparr>rs_secrets := ?get\<rparr>)"
    unfolding upd by (rule src)
  have names: "\<forall>ws. same_names (rs_secrets (demo_resolver ''s3cret'') ws) (?get ws)"
    by (simp add: demo_resolver_def memory_get_secrets_def demo_secrets_def same_names_def dict_or_empty_def
        dict_of_def dict_set_def dict_keys_def)
  have blind: "env_blind demo_registry"
    by (auto simp: env_blind_def demo_registry_def echo_run_def Let_def split: if_splits)
  show ?thesis
    using secrets_reach_only_the_child [OF src src' names blind h1 [unfolded demo_handle_def]
        h2 [unfolded demo_handle_def upd [symmetric]]] h1 h2 by simp
qed

fun is_dict :: "pyv \<Rightarrow> bool" where
  "is_dict (PDict d) = True"
| "is_dict v = False"

lemma py_get_Inl: "py_get v k = Inl e \<longleftrightarrow> \<not> is_dict v
    \<and> e = AttributeError (repr_str (type_name v) @ '' object has no attribute '' @ repr_str ''get'')"
  by (cases v) auto

lemma webhook_fields_Inl: "webhook_fields v = Inl e \<Longrightarrow> \<exists>t. e = ValueError t"
  unfolding webhook_fields_def by (erule as_value_error_Inl) (auto dest: py_index_Inl)

lemma webhook_fields_dict: "webhook_fields v = Inr x \<Longrightarrow> is_dict v"
  by (auto simp: webhook_fields_def py_index_Inr)

lemma webhook_attachments_Inl: "webhook_attachments v = Inl e \<Longrightarrow> is_dict v \<Longrightarrow> \<exists>t. e = ValueError t"
  by (auto simp: webhook_attachments_def py_get_Inl split: if_splits pyv.splits)

lemma seatalk_event_Inl: "seatalk_event v = Inl e \<Longrightarrow> \<exists>t. e = ValueError t"
  unfolding seatalk_event_def by (erule as_value_error_Inl) (auto dest: py_index_Inl)

lemma seatalk_fields_Inl: "seatalk_fields ev m = Inl e \<Longrightarrow> \<exists>t. e = ValueError t"
  unfolding seatalk_fields_def by (erule as_value_error_Inl) (auto dest: py_index_Inl)

lemma seatalk_event_Inr:
  "seatalk_event v = Inr (x, m) \<longleftrightarrow>
     (\<exists>d ev. v = PDict d \<and> x = PDict ev \<and> dict_get d ''event'' = Some (PDict ev) \<and> dict_get ev ''message'' = Some m)"
  by (auto simp: seatalk_event_def py_index_Inr)

text \<open>C19. A webhook body that does not parse always ends as \<open>ValueError\<close>, whatever JSON it holds. A
  SeaTalk body ends as \<open>ValueError\<close> too, with one exception: an \<open>AttributeError\<close> escapes exactly
  when the body is JSON but not an object, or an object whose \<open>event_type\<close> is that of a message and
  whose event is an object with a message that is not one.\<close>

theorem inbound_parse_errors:
  shows "(webhook_parse fr loads raw = Inl e \<longrightarrow> (\<exists>t. e = ValueError t))
    \<and> (seatalk_parse fr loads raw = Inl e \<longrightarrow> (\<exists>t. e = ValueError t) \<or> (\<exists>t. e = AttributeError t))
    \<and> ((\<exists>t. seatalk_parse fr loads raw = Inl (AttributeError t)) \<longleftrightarrow>
        (\<exists>payload. loads raw = Inr payload
           \<and> (\<not> is_dict payload
              \<or> (\<exists>d ev m. payload = PDict d \<and> dget d ''event_type'' = PStr ''message_from_bot_subscriber''
                   \<and> dict_get d ''event'' = Some (PDict ev) \<and> dict_get ev ''message'' = Some m \<and> \<not> is_dict m))))"
    (is "?web \<and> ?sea \<and> (?attr \<longleftrightarrow> ?why)")
proof -
  have ?web
    by (auto simp: webhook_parse_def py_get_Inl split: sum.splits
        dest: webhook_fields_Inl webhook_fields_dict webhook_attachments_Inl)
  moreover have seen: "(\<exists>t. x = ValueError t) \<or> (\<exists>t. x = AttributeError t) \<and> ?why"
    if "seatalk_parse fr loads raw = Inl x" for x
  proof (cases "loads raw")
    case (Inr payload)
    show ?thesis
    proof (cases payload)
      case (PDict d)
      with that Inr show ?thesis
        by (fastforce simp: seatalk_parse_def py_get_Inl seatalk_event_Inr split: sum.splits if_splits
            dest: seatalk_event_Inl seatalk_fields_Inl)
    qed (use that Inr in \<open>auto simp: seatalk_parse_def\<close>)
  qed (use that in \<open>auto simp: seatalk_parse_def\<close>)
  moreover have ?attr if ?why
  proof -
    from that obtain payload where p: "loads raw = Inr payload" and
      "\<not> is_dict payload
        \<or> (\<exists>d ev m. payload = PDict d \<and> dget d ''event_type'' = PStr ''message_from_bot_subscriber''
             \<and> dict_get d ''event'' = Some (PDict ev) \<and> dict_get ev ''message'' = Some m \<and> \<not> is_dict m)" by blast
    then consider "\<not> is_dict payload"
      | d ev m where "payload = PDict d" "dget d ''event_type'' = PStr ''message_from_bot_subscriber''"
        "dict_get d ''event'' = Some (PDict ev)" "dict_get ev ''message'' = Some m" "\<not> is_dict m" by blast
    then show ?thesis
    proof cases
      case 1
      then show ?thesis using p by (auto simp: seatalk_parse_def py_get_Inl)
    next
      case 2
      then have "seatalk_event payload = Inr (PDict ev, m)" by (simp add: seatalk_event_Inr)
      with 2 p show ?thesis by (cases m) (simp_all add: seatalk_parse_def)
    qed
  qed
  ultimately show ?thesis by blast
qed

theorem inbound_parse_errors_witness:
  "\<exists>t. seatalk_parse demo_float (\<lambda>_. Inr (PDict [(''event_type'', PStr ''message_from_bot_subscriber''),
      (''event'', PDict [(''message'', PInt 7)])])) ''body'' = Inl (AttributeError t)"
  using inbound_parse_errors [of demo_float "\<lambda>_. Inr (PDict [(''event_type'', PStr ''message_from_bot_subscriber''),
      (''event'', PDict [(''message'', PInt 7)])])" "''body''"]
  by (simp add: dget_def dict_get_def)

end
