(* ===== verification/Bridge_Properties.thy ===== *)
theory Bridge_Properties
  imports Bridge Workflow_Properties Channel_Properties
begin

section \<open>Properties of the workflow bridge\<close>

text \<open>
  What a principal can start and read, whatever the policy was before and is now; and the effect
  of a Casbin rule on runs that exist already.
\<close>

subsection \<open>A principal for the witnesses\<close>

definition demo_user :: user where
  "demo_user = \<lparr>user_id = ''u1'', display_name = ''Alice'', roles = [], default_workspace = Some ''ws1''\<rparr>"

definition demo_principal :: principal where
  "demo_principal = \<lparr>pr_user = demo_user, pr_workspace_id = ''ws1''\<rparr>"

definition ping_specs :: "string \<Rightarrow> workspace_spec option" where
  "ping_specs = [''ws1'' \<mapsto> default_spec\<lparr>sp_allowed_workflows := [''ping'']\<rparr>]"

definition ping_resolver :: workspace_resolver where
  "ping_resolver = memory_resolver demo_layers (demo_secrets ''s'') ''/srv/ws'' ping_specs None"

lemma ping_resolves:
  "\<exists>ws. resolve ping_resolver ''ws1'' uid = Inr ws \<and> rw_allowed_workflows ws = [''ping'']"
  by (cases uid) (simp_all add: resolve_def validate_workspace_id_def is_id_char_def is_alpha_def is_digit_def code_def
      ping_resolver_def ping_specs_def base_env_def layered_get_env_def memory_get_secrets_def Let_def)

lemma ping_permitted:
  "ip_can_access_workspace I demo_user ''ws1'' \<Longrightarrow> ip_can_run_workflow I demo_user ''ws1'' ''ping''
     \<Longrightarrow> permits I ping_resolver demo_principal ''ping''"
  using ping_resolves [of "Some ''u1''"] by (auto simp: permits_def demo_principal_def demo_user_def)

lemma ping_permitted_memory: "permits (memory_identity_ops demo_identity) ping_resolver demo_principal ''ping''"
  by (rule ping_permitted)
    (simp_all add: mi_can_access_workspace_def mi_authorized_workspaces_def mi_can_run_workflow_def get_or_def
      demo_identity_def demo_user_def)

subsection \<open>What a permitted invocation starts\<close>

lemma inline_invoke:
  assumes "permits I rs pr name"
    and "bridge_invoke I rs (inline_service E MWF reg uuid) name params pr w = (out, w')"
  shows "case resolve_workflow reg name of
            Inl e \<Rightarrow> out = Inl e \<and> w' = w
          | Inr handler \<Rightarrow> \<exists>r. get_run MWF uuid w' = Inr r \<and> wr_name r = name \<and> wr_owner r = Some (pr_workspace_id pr)
              \<and> (case escaped (outcome E (handler (case params of None \<Rightarrow> [] | Some d \<Rightarrow> dict_of d))) of
                   None \<Rightarrow> out = Inr \<lparr>ti_run_id = uuid, ti_status = wr_status r\<rparr> \<and> terminal (wr_status r)
                 | Some e \<Rightarrow> out = Inl e)"
proof -
  note inv = bridge_invoke_run [OF assms(1), of "inline_service E MWF reg uuid" params w]
  show ?thesis
  proof (cases "resolve_workflow reg name")
    case (Inl e)
    with assms inv show ?thesis by (auto simp: inline_service_def inline_run_def service_run_def)
  next
    case (Inr h)
    let ?d = "case params of None \<Rightarrow> [] | Some d \<Rightarrow> dict_of d"
    from memwf.inline_effect [OF Inr refl, of E uuid params None "Some (pr_workspace_id pr)" w]
    obtain w1 r where run: "inline_run E MWF reg uuid name params None (Some (pr_workspace_id pr)) w
        = ((case escaped (outcome E (h ?d)) of None \<Rightarrow> Inr r | Some e \<Rightarrow> Inl e), w1)"
      and r: "get_run MWF uuid w1 = Inr r"
      and er: "erase_run r = finished_run E (h ?d) (with_status RUNNING 0 (new_run uuid name (length (wf_heap w)) None (Some (pr_workspace_id pr))))"
      by auto
    note sel = arg_cong [OF er, of wr_id] arg_cong [OF er, of wr_name] arg_cong [OF er, of wr_owner] arg_cong [OF er, of wr_status]
    have "wr_id r = uuid \<and> wr_name r = name \<and> wr_owner r = Some (pr_workspace_id pr)
        \<and> (escaped (outcome E (h ?d)) = None \<longrightarrow> terminal (wr_status r))"
      using sel by (cases "outcome E (h ?d)")
        (auto simp: finished_run_def settle_def add_reports_def with_result_def with_error_def with_status_def new_run_def
          terminal_def escaped_def split: if_splits)
    with assms inv run r Inr show ?thesis
      by (cases "escaped (outcome E (h ?d))") (auto simp: inline_service_def)
  qed
qed

lemma pool_invoke:
  assumes "permits I rs pr name" and "wf_reach E MWF reg p" and "get_run MWF uuid (pl_world p) = Inl x"
    and "bridge_invoke I rs (thread_service E MWF is reg uuid) name params pr p = (out, p')"
  shows "case resolve_workflow reg name of
            Inl e \<Rightarrow> out = Inl e \<and> p' = p
          | Inr handler \<Rightarrow> \<exists>r. get_run MWF uuid (pl_world p') = Inr r \<and> wr_name r = name \<and> wr_owner r = Some (pr_workspace_id pr)
              \<and> (if pl_shutdown p then (\<exists>t. out = Inl (RuntimeError t)) \<and> wr_status r = PENDING \<and> pl_tasks p' = pl_tasks p
                 else out = Inr \<lparr>ti_run_id = uuid, ti_status = wr_status r\<rparr>)"
proof (cases "resolve_workflow reg name")
  case (Inl e)
  with assms(4) show ?thesis
    by (auto simp: bridge_invoke_run [OF assms(1)] thread_service_def thread_run_def service_run_def)
next
  case (Inr h)
  let ?ws = "Some (pr_workspace_id pr)"
  let ?c = "p\<lparr>pl_world := create_run MWF uuid name params None ?ws (pl_world p)\<rparr>"
  note new = memwf.create_effect(1) [of uuid name params None ?ws "pl_world p"]
  note inv = assms(4) [unfolded bridge_invoke_run [OF assms(1)] thread_service_def thread_run_def service_run_def Inr thread_submit_def]
  show ?thesis
  proof (cases "pl_shutdown p")
    case True
    then have "p' = ?c" "\<exists>t. out = Inl (RuntimeError t)" using inv by (auto simp: pool_submit_def)
    then show ?thesis using Inr True new by simp
  next
    case False
    let ?q = "?c\<lparr>pl_tasks := pl_tasks p @ [TStart uuid h]\<rparr>"
    have sub: "pool_submit uuid h ?c = (Inr (), ?q)" using False by (simp add: pool_submit_def)
    obtain os where "life_ok MWF os p" using memwf.reach_life [OF assms(2)] by blast
    from memwf.create_life [OF this assms(3) sub, of E] obtain os1 where "life_ok MWF os1 ?q" by (auto simp: extends_def)
    from memwf.schedule_extends [OF this, of E "is"] have "kept MWF (pl_world ?q) (pl_world (run_schedule E MWF is ?q))"
      by (simp add: extends_def)
    with new obtain r where r: "get_run MWF uuid (pl_world (run_schedule E MWF is ?q)) = Inr r"
      "grows (new_run uuid name (length (wf_heap (pl_world p))) None ?ws) r" unfolding kept_def by fastforce
    with inv sub have "out = Inr \<lparr>ti_run_id = wr_id r, ti_status = wr_status r\<rparr>" "p' = run_schedule E MWF is ?q" by auto
    with r Inr False show ?thesis by (auto simp: grows_def new_run_def)
  qed
qed

subsection \<open>Properties\<close>

text \<open>C20. A run is started only for a principal who may access the workspace, on a workflow that
  its allow-list names and that the user is not denied: otherwise \<open>invoke\<close> raises and nothing
  changes, whichever service runs the workflows. When permitted it raises WorkflowNotRegistered for
  a name without a workflow, and else stores a run of that name that the workspace owns. Over the
  inline executor it answers the run's id and final status, or raises the exception that left the
  handler if that is no \<open>Exception\<close>. Over the thread executor (in any reachable pool, with a fresh
  id) it answers the id and the status of the moment; but after \<open>shutdown\<close> it raises RuntimeError,
  and the run it stored stays behind PENDING, without a task.\<close>

theorem bridge_invoke_gate:
  assumes "bridge_invoke I rs any_service name params pr v = (out, v')"
    and "bridge_invoke I rs (inline_service E MWF reg uuid) name params pr w = (out1, w')"
    and "wf_reach E MWF reg p" and "get_run MWF uuid (pl_world p) = Inl x"
    and "bridge_invoke I rs (thread_service E MWF is reg uuid) name params pr p = (out2, p')"
  shows "if permits I rs pr name
    then (case resolve_workflow reg name of
            Inl e \<Rightarrow> out1 = Inl e \<and> w' = w \<and> out2 = Inl e \<and> p' = p
          | Inr handler \<Rightarrow>
              (\<exists>r. get_run MWF uuid w' = Inr r \<and> wr_name r = name \<and> wr_owner r = Some (pr_workspace_id pr)
                \<and> (case escaped (outcome E (handler (case params of None \<Rightarrow> [] | Some d \<Rightarrow> dict_of d))) of
                     None \<Rightarrow> out1 = Inr \<lparr>ti_run_id = uuid, ti_status = wr_status r\<rparr> \<and> terminal (wr_status r)
                   | Some e \<Rightarrow> out1 = Inl e))
              \<and> (\<exists>r. get_run MWF uuid (pl_world p') = Inr r \<and> wr_name r = name \<and> wr_owner r = Some (pr_workspace_id pr)
                \<and> (if pl_shutdown p
                   then (\<exists>t. out2 = Inl (RuntimeError t)) \<and> wr_status r = PENDING \<and> pl_tasks p' = pl_tasks p
                   else out2 = Inr \<lparr>ti_run_id = uuid, ti_status = wr_status r\<rparr>)))
    else (\<exists>e. out = Inl e) \<and> v' = v"
proof (cases "permits I rs pr name")
  case False
  from bridge_invoke_refused [OF this, of any_service params v] assms(1) False show ?thesis by auto
next
  case True
  from inline_invoke [OF True assms(2)] pool_invoke [OF True assms(3,4,5)] True show ?thesis
    by (cases "resolve_workflow reg name") simp_all
qed

theorem bridge_invoke_gate_witness:
  "(\<exists>r :: workflow_run. fst (bridge_invoke (memory_identity_ops demo_identity) ping_resolver
        (inline_service demo_env MWF ping_workflows ''r1'') ''ping'' None demo_principal demo_wf_world)
      = Inr \<lparr>ti_run_id = ''r1'', ti_status = wr_status r\<rparr> \<and> terminal (wr_status r))
   \<and> (\<exists>t. fst (bridge_invoke (memory_identity_ops demo_identity) ping_resolver
        (thread_service demo_env MWF [] ping_workflows ''r1'') ''ping'' None demo_principal (pool_shutdown demo_pool))
      = Inl (RuntimeError t))"
proof -
  let ?inline = "inline_service demo_env MWF ping_workflows ''r1''" and ?p = "pool_shutdown demo_pool"
  obtain out w' where i: "bridge_invoke (memory_identity_ops demo_identity) ping_resolver ?inline ''ping'' None
      demo_principal demo_wf_world = (out, w')" by fastforce
  obtain out2 p' where t: "bridge_invoke (memory_identity_ops demo_identity) ping_resolver
      (thread_service demo_env MWF [] ping_workflows ''r1'') ''ping'' None demo_principal ?p = (out2, p')" by fastforce
  have reach: "wf_reach demo_env MWF ping_workflows ?p"
    using demo_pool_reach next_shutdown unfolding wf_reach_def by (meson rtranclp.rtrancl_into_rtrancl)
  have fresh: "get_run MWF ''r1'' (pl_world ?p) = Inl (WorkflowRunNotFound ''r1'')"
    using demo_fresh by (simp add: pool_shutdown_def)
  have "pl_shutdown ?p" by (simp add: pool_shutdown_def)
  with bridge_invoke_gate [OF i i reach fresh t]
  have "\<exists>r :: workflow_run. out = Inr \<lparr>ti_run_id = ''r1'', ti_status = wr_status r\<rparr> \<and> terminal (wr_status r)"
    and "\<exists>t. out2 = Inl (RuntimeError t)"
    by (simp_all add: ping_permitted_memory ping_resolve_workflow ping_handler_def escaped_def) blast+
  then show ?thesis by (simp add: i t)
qed

text \<open>C12. A principal reads only runs of their own workspace that their current permissions cover,
  and every such run was started through the bridge by someone of that workspace who was permitted
  to when they did: this holds after any history of invocations under changing policies,
  worker steps and shutdown.\<close>

theorem bridge_isolation:
  assumes "bridge_hist E MWF reg p ivs" and "bridge_get I rs MWF rid pr (pl_world p) = Inr r"
  shows "wr_owner r = Some (pr_workspace_id pr) \<and> permits I rs pr (wr_name r)
    \<and> (\<exists>iv \<in> set ivs. iv_run_id iv = rid \<and> iv_name iv = wr_name r
         \<and> pr_workspace_id (iv_principal iv) = pr_workspace_id pr
         \<and> permits (iv_identity iv) (iv_resolver iv) (iv_principal iv) (wr_name r))"
proof -
  from assms(2) have r: "get_run MWF rid (pl_world p) = Inr r" and o: "wr_owner r = Some (pr_workspace_id pr)"
    and now: "permits I rs pr (wr_name r)" by (auto simp: bridge_get_iff)
  from memwf.hist_answers [OF assms(1)] r obtain iv where "iv \<in> set ivs" "answers iv r" "wr_id r = rid" by blast
  then have "iv_run_id iv = rid" "iv_name iv = wr_name r" "Some (pr_workspace_id (iv_principal iv)) = wr_owner r"
    "permits (iv_identity iv) (iv_resolver iv) (iv_principal iv) (iv_name iv)"
    unfolding answers_def by blast+
  then show ?thesis
    using o now \<open>iv \<in> set ivs\<close> by (intro conjI bexI [of _ iv]) auto
qed

theorem bridge_isolation_witness:
  "\<exists>p r. bridge_get (memory_identity_ops demo_identity) ping_resolver MWF ''r1'' demo_principal p = Inr r
     \<and> wr_owner r = Some ''ws1'' \<and> permits (memory_identity_ops demo_identity) ping_resolver demo_principal (wr_name r)"
proof -
  let ?I = "memory_identity_ops demo_identity"
  let ?run = "thread_service demo_env MWF [] ping_workflows ''r1''"
  obtain out p' where i: "bridge_invoke ?I ping_resolver ?run ''ping'' None demo_principal demo_pool = (out, p')" by fastforce
  have "bridge_hist demo_env MWF ping_workflows demo_pool []"
    unfolding demo_pool_def by (rule hist_start) (simp add: memwf_get_def)
  from hist_invoke [OF this demo_fresh i]
  have h: "bridge_hist demo_env MWF ping_workflows p'
      ([] @ [\<lparr>iv_identity = ?I, iv_resolver = ping_resolver, iv_principal = demo_principal, iv_name = ''ping'', iv_run_id = ''r1''\<rparr>])" .
  have "\<exists>r. get_run MWF ''r1'' (pl_world p') = Inr r \<and> wr_name r = ''ping'' \<and> wr_owner r = Some ''ws1''"
    using i unfolding bridge_invoke_run [OF ping_permitted_memory]
    by (simp add: thread_service_def thread_run_def service_run_def ping_resolve_workflow thread_submit_def pool_submit_def
        run_schedule_def memwf.create_effect(1) demo_pool_def empty_pool_def demo_principal_def) (auto simp: memwf.create_effect(1))
  then obtain r where r: "get_run MWF ''r1'' (pl_world p') = Inr r" "wr_name r = ''ping''" "wr_owner r = Some ''ws1''" by blast
  then have g: "bridge_get ?I ping_resolver MWF ''r1'' demo_principal (pl_world p') = Inr r"
    using ping_permitted_memory by (simp add: bridge_get_iff demo_principal_def)
  from bridge_isolation [OF h g] g r show ?thesis by (intro exI [of _ "pl_world p'"] exI [of _ r]) simp
qed

text \<open>C21. Denying a workflow takes effect on runs that exist already: after \<open>add_policy\<close> of a new
  rule that denies it, \<open>get\<close> of a run of that workflow raises for the user, and after
  \<open>remove_policy\<close> of the rule \<open>get\<close> answers as before the two calls.\<close>

theorem denied_run_is_hidden:
  assumes "casbin_documented L rules" and "cb_add_policy L p c = (Inr True, c1)" and "cb_remove_policy L p c1 = (x, c2)"
    and "get_run S rid w = Inr r" and "denies p (pr_user pr) (pr_workspace_id pr) (wr_name r) ''run''"
  shows "(\<exists>e. bridge_get (casbin_identity_ops L c1) rs S rid pr w = Inl e)
    \<and> bridge_get (casbin_identity_ops L c2) rs S rid pr w = bridge_get (casbin_identity_ops L c) rs S rid pr w"
proof -
  note lib = casbin_documentedD [OF assms(1)]
  let ?e1 = "snd (cl_add_policy L p (cb_enforcer c))"
  from assms(2) have "p_eft p \<in> set allowed_effects" "fst (cl_add_policy L p (cb_enforcer c))" and c1: "c1 = c\<lparr>cb_enforcer := ?e1\<rparr>"
    by (auto simp: cb_add_policy_def split: if_splits prod.splits)
  then have new: "p \<notin> set (rules (cb_enforcer c))" and r1: "rules ?e1 = rules (cb_enforcer c) @ [p]" by (simp_all add: lib(2,3))
  let ?e2 = "snd (cl_remove_policy L p ?e1)"
  have c2: "c2 = c\<lparr>cb_enforcer := ?e2\<rparr>"
    using assms(3) \<open>p_eft p \<in> set allowed_effects\<close> by (auto simp: cb_remove_policy_def c1 split: prod.splits)
  have restored: "rules ?e2 = rules (cb_enforcer c)" using new by (simp add: lib(5) r1 remove1_append)
  have "\<not> ip_can_run_workflow (casbin_identity_ops L c1) (pr_user pr) (pr_workspace_id pr) (wr_name r)"
    using assms(5) by (simp add: cb_can_run_workflow_def c1 lib(1) r1 model_enforce_append denies_def)
  then have "\<not> permits (casbin_identity_ops L c1) rs pr (wr_name r)" by (simp add: permits_def)
  then have hidden: "bridge_get (casbin_identity_ops L c1) rs S rid pr w \<noteq> Inr r'" for r'
    using assms(4) by (auto simp: bridge_get_iff)
  have same: "ip_can_run_workflow (casbin_identity_ops L c2) = ip_can_run_workflow (casbin_identity_ops L c)"
    and "ip_can_access_workspace (casbin_identity_ops L c2) = ip_can_access_workspace (casbin_identity_ops L c)"
    by (simp_all add: cb_can_run_workflow_def c2 lib(1) restored fun_eq_iff)
  then have "bridge_get (casbin_identity_ops L c2) rs S rid pr w = bridge_get (casbin_identity_ops L c) rs S rid pr w"
    unfolding bridge_get_def check_workflow_def by (simp only: same)
  with hidden show ?thesis by (meson sum.exhaust)
qed

theorem denied_run_is_hidden_witness:
  "\<exists>w e. let p = \<lparr>p_sub = ''u1'', p_ws = ''*'', p_obj = ''ping'', p_act = ''run'', p_eft = ''deny''\<rparr>;
       c = \<lparr>cb_base = memory_identity_ops demo_identity, cb_model_path = ''m'', cb_policy_path = ''p'', cb_enforcer = []\<rparr>;
       c1 = snd (cb_add_policy demo_casbin_lib p c)
   in bridge_get (casbin_identity_ops demo_casbin_lib c1) ping_resolver MWF ''r1'' demo_principal w = Inl e
      \<and> (\<exists>r. bridge_get (casbin_identity_ops demo_casbin_lib (snd (cb_remove_policy demo_casbin_lib p c1)))
            ping_resolver MWF ''r1'' demo_principal w = Inr r)"
proof -
  let ?p = "\<lparr>p_sub = ''u1'', p_ws = ''*'', p_obj = ''ping'', p_act = ''run'', p_eft = ''deny''\<rparr>"
  let ?c = "\<lparr>cb_base = memory_identity_ops demo_identity, cb_model_path = ''m'', cb_policy_path = ''p'', cb_enforcer = []\<rparr>"
  let ?c1 = "?c\<lparr>cb_enforcer := [?p]\<rparr>"
  let ?w = "create_run MWF ''r1'' ''ping'' None None (Some ''ws1'') demo_wf_world"
  let ?r = "new_run ''r1'' ''ping'' 0 None (Some ''ws1'')"
  have add: "cb_add_policy demo_casbin_lib ?p ?c = (Inr True, ?c1)"
    by (simp add: cb_add_policy_def allowed_effects_def demo_casbin_lib_def)
  obtain x c2 where rem: "cb_remove_policy demo_casbin_lib ?p ?c1 = (x, c2)" by fastforce
  have r: "get_run MWF ''r1'' ?w = Inr ?r" by (simp add: memwf.create_effect(1) demo_wf_world_def)
  have "denies ?p (pr_user demo_principal) (pr_workspace_id demo_principal) (wr_name ?r) ''run''"
    by (simp add: denies_def rule_matches_def field_matches_def demo_principal_def demo_user_def)
  from denied_run_is_hidden [OF demo_casbin_documented add rem r this, of ping_resolver] obtain e where
    e: "bridge_get (casbin_identity_ops demo_casbin_lib ?c1) ping_resolver MWF ''r1'' demo_principal ?w = Inl e"
    and same: "bridge_get (casbin_identity_ops demo_casbin_lib c2) ping_resolver MWF ''r1'' demo_principal ?w
      = bridge_get (casbin_identity_ops demo_casbin_lib ?c) ping_resolver MWF ''r1'' demo_principal ?w"
    by blast
  have "permits (casbin_identity_ops demo_casbin_lib ?c) ping_resolver demo_principal ''ping''"
    by (rule ping_permitted) (simp_all add: mi_can_access_workspace_def mi_authorized_workspaces_def get_or_def demo_identity_def
        demo_user_def cb_can_run_workflow_def demo_casbin_lib_def model_enforce_def)
  then have "bridge_get (casbin_identity_ops demo_casbin_lib ?c) ping_resolver MWF ''r1'' demo_principal ?w = Inr ?r"
    using r by (simp add: bridge_get_iff demo_principal_def)
  with e same show ?thesis
    by (intro exI [of _ ?w] exI [of _ e]) (simp only: Let_def add rem snd_conv, blast)
qed

end
