(* ===== verification/Backends.thy ===== *)
theory Backends
  imports Channels Echo Observability Engine
begin

section \<open>Command-line backends\<close>

text \<open>
  \<open>adapters/backends\<close>: the subprocess runner with its watchdog, the error events, and the Codex and
  Claude backends, which turn the lines of the child's output into events. A child, once spawned,
  is what its output iterator yields, the exception it ends with, and what \<open>returncode()\<close> does.
  The text of decoding a line is \<open>loads\<close>, the text of a float \<open>fr\<close>, the search path \<open>which\<close>.
\<close>

subsection \<open>Children\<close>

record child =
  ch_lines :: "string list"
  ch_end :: "exn option"
  ch_code :: "exn + int"

type_synonym spawn_fn = "pyv list \<Rightarrow> string \<Rightarrow> string dict \<Rightarrow> int \<Rightarrow> exn + child"

text \<open>A process of the operating system, by the time it is killed at, if it is: the lines its output
  holds, when the output ends, its exit code. \<open>popen\<close> starts one or raises.\<close>

record os_process =
  op_lines :: "int option \<Rightarrow> string list"
  op_eof :: "int option \<Rightarrow> int option"
  op_code :: "int option \<Rightarrow> int"

definition default_spawn :: "(pyv list \<Rightarrow> string \<Rightarrow> string dict \<Rightarrow> exn + os_process) \<Rightarrow> spawn_fn" where
  \<comment> \<open>the watchdog kills at \<open>timeout_s\<close>, unless the output ended and cancelled it before; a killed
     process closes its output\<close>
  "default_spawn popen argv cwd env timeout_s =
     res_bind (popen argv cwd (dict_of env))
       (\<lambda>p. let timed_out = (case op_eof p None of None \<Rightarrow> True | Some t \<Rightarrow> timeout_s \<le> t);
                killed = (if timed_out then Some timeout_s else None)
            in Inr \<lparr>ch_lines = List.map (rstrip_char (char_of (10 :: nat))) (op_lines p killed),
                    ch_end = (if timed_out then Some (TimeoutExpired (py_repr no_float (PList argv)) timeout_s) else None),
                    ch_code = Inr (op_code p killed)\<rparr>)"

subsection \<open>Error events\<close>

definition err_event :: "agent_error_kind \<Rightarrow> string \<Rightarrow> bool \<Rightarrow> pyv option \<Rightarrow> agent_event" where
  "err_event kind message retriable raw =
     (agent_event ERROR)\<lparr>ev_error := Some \<lparr>err_kind = kind, err_message = message, err_retriable = retriable, err_raw = raw\<rparr>\<rparr>"

definition protocol_error :: "string \<Rightarrow> pyv option \<Rightarrow> agent_event" where
  "protocol_error message raw = err_event PROTOCOL message False raw"

definition timeout_error :: "string \<Rightarrow> agent_event" where
  "timeout_error message = err_event TIMEOUT message True None"

definition crash_error :: "string \<Rightarrow> agent_event" where
  "crash_error message = err_event BACKEND_CRASH message False None"

subsection \<open>The shape of both generators\<close>

text \<open>How a piece of a generator ends: it returned, it raised, or it goes on with its locals.\<close>

datatype 's run_end = Returned | Raised exn | Going 's

fun gen_loop :: "('i \<Rightarrow> 's \<Rightarrow> agent_event list \<times> 's run_end) \<Rightarrow> 'i list \<Rightarrow> 's \<Rightarrow> agent_event list \<times> 's run_end" where
  \<comment> \<open>a \<open>for\<close> loop over items whose body may yield, return or raise\<close>
  "gen_loop body [] s = ([], Going s)"
| "gen_loop body (x # xs) s =
     (case body x s of
        (evs, Going s') \<Rightarrow> (let (evs', r) = gen_loop body xs s' in (evs @ evs', r))
      | (evs, r) \<Rightarrow> (evs, r))"

fun run_caught :: "string \<Rightarrow> int \<Rightarrow> exn \<Rightarrow> event_stream" where
  \<comment> \<open>the two \<open>except\<close> clauses, for the backend called \<open>name\<close>\<close>
  "run_caught name timeout_s (TimeoutExpired c t) =
     ([timeout_error (name @ '' read timed out ('' @ int_str timeout_s @ ''s)'')], None)"
| "run_caught name timeout_s (OSError c m) = ([crash_error (name @ '' subprocess failed: '' @ m)], None)"
| "run_caught name timeout_s (SubprocessError m) = ([crash_error (name @ '' subprocess failed: '' @ m)], None)"
| "run_caught name timeout_s e = ([], Some e)"

definition run_child :: "string \<Rightarrow> int \<Rightarrow> (string \<Rightarrow> 's \<Rightarrow> agent_event list \<times> 's run_end) \<Rightarrow> (int \<Rightarrow> 's \<Rightarrow> agent_event)
    \<Rightarrow> child \<Rightarrow> 's \<Rightarrow> event_stream" where
  \<comment> \<open>the \<open>try\<close> block over the lines and \<open>returncode()\<close>, its \<open>except\<close> clauses, and the last event\<close>
  "run_child name timeout_s body finish c s =
     (case gen_loop body (ch_lines c) s of
        (evs, Returned) \<Rightarrow> (evs, None)
      | (evs, Raised e) \<Rightarrow> (let (evs', tail) = run_caught name timeout_s e in (evs @ evs', tail))
      | (evs, Going s') \<Rightarrow>
          (case (case ch_end c of Some e \<Rightarrow> Inl e | None \<Rightarrow> ch_code c) of
             Inl e \<Rightarrow> (let (evs', tail) = run_caught name timeout_s e in (evs @ evs', tail))
           | Inr rc \<Rightarrow> (evs @ [finish rc s'], None)))"

definition decode_line :: "json_loads \<Rightarrow> string \<Rightarrow> string \<Rightarrow> agent_event option + pyv" where
  \<comment> \<open>a blank line is skipped (None), a line that is no JSON ends the run with an event\<close>
  "decode_line loads name line =
     (if strip line = [] then Inl None
      else (case loads line of
              Inl t \<Rightarrow> Inl (Some (protocol_error (''cannot parse '' @ name @ '' output line: '' @ repr_str (take 200 line)) None))
            | Inr evt \<Rightarrow> Inr evt))"

definition on_line :: "json_loads \<Rightarrow> string \<Rightarrow> (pyv \<Rightarrow> 's \<Rightarrow> agent_event list \<times> 's run_end)
    \<Rightarrow> string \<Rightarrow> 's \<Rightarrow> agent_event list \<times> 's run_end" where
  "on_line loads name handle line s =
     (case decode_line loads name line of
        Inl None \<Rightarrow> ([], Going s)
      | Inl (Some ev) \<Rightarrow> ([ev], Returned)
      | Inr evt \<Rightarrow> handle evt s)"

type_synonym run_locals = "pyv \<times> pyv"
  \<comment> \<open>the thread (session) id and the final text so far\<close>

subsection \<open>Codex\<close>

definition codex_argv :: "string \<Rightarrow> agent_run_request \<Rightarrow> pyv list" where
  "codex_argv command req =
     [PStr command, PStr ''exec'']
     @ (if truthy (req_backend_thread_id req) then [PStr ''resume'', req_backend_thread_id req] else [])
     @ [PStr ''--dangerously-bypass-approvals-and-sandbox'', PStr ''--json'']
     @ (case req_model req of None \<Rightarrow> [] | Some m \<Rightarrow> if m = [] then [] else [PStr ''--model'', PStr m])
     @ [PStr (req_prompt req)]"

definition codex_item :: "pyv \<Rightarrow> run_locals \<Rightarrow> agent_event list \<times> run_locals run_end" where
  \<comment> \<open>\<open>item.completed\<close>\<close>
  "codex_item evt s =
     (case py_get evt ''item'' of
        Inl e \<Rightarrow> ([], Raised e)
      | Inr (PDict item) \<Rightarrow>
          (let itype = dget item ''type'' in
           if \<not> truthy itype then ([protocol_error ''item.completed lacks item.type'' (Some evt)], Returned)
           else if itype = PStr ''tool_call''
           then (if \<not> truthy (dget item ''name'') then ([protocol_error ''tool_call lacks name'' (Some evt)], Returned)
                 else ([(agent_event TOOL_CALL_COMPLETED)\<lparr>
                          ev_tool := Some \<lparr>tool_name = dget item ''name'', tool_input = dget item ''input'',
                                           tool_output = dget item ''output'', tool_skill = None\<rparr>,
                          ev_raw := Some evt\<rparr>], Going s))
           else if itype = PStr ''agent_message''
           then (if dict_get item ''text'' = None then ([protocol_error ''agent_message lacks text'' (Some evt)], Returned)
                 else let text = py_or (dget item ''text'') (PStr '''') in
                      ([(agent_event MESSAGE_COMPLETED)\<lparr>ev_text := text, ev_raw := Some evt\<rparr>], Going (fst s, text)))
           else ([], Going s))
      | Inr _ \<Rightarrow> ([protocol_error ''item.completed lacks item.type'' (Some evt)], Returned))"

definition codex_event :: "pyv \<Rightarrow> run_locals \<Rightarrow> agent_event list \<times> run_locals run_end" where
  "codex_event evt s =
     (case py_get evt ''type'' of
        Inl e \<Rightarrow> ([], Raised e)
      | Inr etype \<Rightarrow>
          (if etype = PStr ''thread.started''
           then (case py_get evt ''thread_id'' of
                   Inl e \<Rightarrow> ([], Raised e)
                 | Inr tid \<Rightarrow>
                     (if \<not> truthy tid then ([protocol_error ''thread.started lacks thread_id'' (Some evt)], Returned)
                      else ([(agent_event THREAD_STARTED)\<lparr>ev_backend_thread_id := tid, ev_raw := Some evt\<rparr>], Going (tid, snd s))))
           else if etype = PStr ''item.completed'' then codex_item evt s
           else ([], Going s)))"

definition codex_finish :: "int \<Rightarrow> run_locals \<Rightarrow> agent_event" where
  "codex_finish rc s =
     (if rc \<noteq> 0 then crash_error (''codex exited with '' @ int_str rc)
      else (agent_event TURN_COMPLETED)\<lparr>ev_backend_thread_id := fst s,
             ev_result := Some (agent_run_result (fst s) (snd s) no_usage)\<rparr>)"

definition codex_run :: "json_loads \<Rightarrow> string \<Rightarrow> spawn_fn \<Rightarrow> agent_run_request \<Rightarrow> event_stream" where
  "codex_run loads command spawn req =
     (case spawn (codex_argv command req) (req_cwd req) (req_env req) (req_timeout_s req) of
        Inl e \<Rightarrow> ([], Some e)
      | Inr c \<Rightarrow> run_child ''codex'' (req_timeout_s req) (on_line loads ''codex'' codex_event) codex_finish c
                   (req_backend_thread_id req, PStr ''''))"

definition codex_backend :: "json_loads \<Rightarrow> (string \<Rightarrow> string option) \<Rightarrow> string \<Rightarrow> spawn_fn \<Rightarrow> backend" where
  "codex_backend loads which command spawn =
     \<lparr>be_name = ''codex'',
      be_capabilities = \<lparr>supports_resume = True, supports_streaming = False, supports_tools = True,
                         supports_mcp = True, auth_modes = [''api_key'', ''cli_login'']\<rparr>,
      be_run = codex_run loads command spawn,
      be_healthcheck = \<lparr>health_ok = (which command \<noteq> None),
        health_detail = (if which command = None \<or> which command = Some '''' then ''codex not on PATH'' else '''')\<rparr>\<rparr>"

subsection \<open>Claude\<close>

definition claude_argv :: "string \<Rightarrow> agent_run_request \<Rightarrow> pyv list" where
  "claude_argv command req =
     [PStr command, PStr ''-p'', PStr (req_prompt req), PStr ''--output-format'', PStr ''stream-json'', PStr ''--verbose'',
      PStr ''--dangerously-skip-permissions'']
     @ (if truthy (req_backend_thread_id req) then [PStr ''--resume'', req_backend_thread_id req] else [])
     @ (case req_model req of None \<Rightarrow> [] | Some m \<Rightarrow> if m = [] then [] else [PStr ''--model'', PStr m])"

fun claude_block :: "pyv \<Rightarrow> pyv \<Rightarrow> run_locals \<Rightarrow> agent_event list \<times> run_locals run_end" where
  \<comment> \<open>one block of an assistant message\<close>
  "claude_block evt (PDict block) s =
     (let btype = dget block ''type'' in
      if btype = PStr ''text''
      then (if dict_get block ''text'' = None then ([protocol_error ''text block lacks text'' (Some evt)], Returned)
            else let text = py_or (dget block ''text'') (PStr '''') in
                 ([(agent_event MESSAGE_COMPLETED)\<lparr>ev_text := text, ev_raw := Some evt\<rparr>], Going (fst s, text)))
      else if btype = PStr ''tool_use''
      then (if \<not> truthy (dget block ''name'') then ([protocol_error ''tool_use lacks name'' (Some evt)], Returned)
            else ([(agent_event TOOL_CALL_COMPLETED)\<lparr>
                     ev_tool := Some \<lparr>tool_name = dget block ''name'', tool_input = dget block ''input'',
                                      tool_output = PNone, tool_skill = None\<rparr>,
                     ev_raw := Some evt\<rparr>], Going s))
      else ([], Going s))"
| "claude_block evt v s = ([], Going s)"

definition claude_assistant :: "pyv dict \<Rightarrow> run_locals \<Rightarrow> agent_event list \<times> run_locals run_end" where
  "claude_assistant d s =
     (case dget d ''message'' of
        PDict m \<Rightarrow>
          (case dget m ''content'' of
             PList blocks \<Rightarrow> gen_loop (claude_block (PDict d)) blocks s
           | _ \<Rightarrow> ([protocol_error ''assistant lacks message.content'' (Some (PDict d))], Returned))
      | _ \<Rightarrow> ([protocol_error ''assistant lacks message.content'' (Some (PDict d))], Returned))"

definition usage_count :: "pyv \<Rightarrow> string \<Rightarrow> exn + int" where
  \<comment> \<open>\<open>int(usage.get(k, 0) or 0)\<close>\<close>
  "usage_count usage k = res_bind (py_get usage k) (\<lambda>v. py_int (py_or v (PInt 0)))"

definition claude_usage :: "pyv dict \<Rightarrow> exn + token_usage" where
  "claude_usage d =
     (let usage = py_or (dget d ''usage'') (PDict []) in
      res_bind (usage_count usage ''input_tokens'')
        (\<lambda>i. res_bind (usage_count usage ''output_tokens'')
          (\<lambda>n. Inr \<lparr>input_tokens = i, output_tokens = n\<rparr>)))"

definition claude_result :: "(pyfloat \<Rightarrow> string) \<Rightarrow> pyv dict \<Rightarrow> run_locals \<Rightarrow> agent_event list \<times> run_locals run_end" where
  "claude_result fr d s =
     (let evt = PDict d; rsid = dget d ''session_id'' in
      if truthy (dget d ''is_error'')
      then ([crash_error (''claude result error: '' @
               py_str fr (case dict_get d ''subtype'' of None \<Rightarrow> PStr ''unknown'' | Some v \<Rightarrow> v))], Returned)
      else if dict_get d ''result'' = None then ([protocol_error ''result(success) lacks the result text'' (Some evt)], Returned)
      else if \<not> truthy rsid then ([protocol_error ''result lacks session_id'' (Some evt)], Returned)
      else if fst s \<noteq> PNone \<and> \<not> py_eq rsid (fst s)
      then ([protocol_error (''result.session_id differs from init: '' @ py_repr fr rsid @ '' != '' @ py_repr fr (fst s))
               (Some evt)], Returned)
      else (case claude_usage d of
              Inl e \<Rightarrow> ([], Raised e)
            | Inr u \<Rightarrow>
                ([(agent_event TURN_COMPLETED)\<lparr>ev_backend_thread_id := rsid,
                    ev_result := Some (agent_run_result rsid (py_or (dget d ''result'') (snd s)) u)\<rparr>], Returned)))"

definition claude_init :: "pyv dict \<Rightarrow> run_locals \<Rightarrow> agent_event list \<times> run_locals run_end" where
  "claude_init d s =
     (let sid = dget d ''session_id'' in
      if \<not> truthy sid then ([protocol_error ''system/init lacks session_id'' (Some (PDict d))], Returned)
      else ([(agent_event THREAD_STARTED)\<lparr>ev_backend_thread_id := sid, ev_raw := Some (PDict d)\<rparr>], Going (sid, snd s)))"

definition claude_event :: "(pyfloat \<Rightarrow> string) \<Rightarrow> pyv \<Rightarrow> run_locals \<Rightarrow> agent_event list \<times> run_locals run_end" where
  "claude_event fr evt s =
     (case evt of
        PDict d \<Rightarrow>
          (let etype = dget d ''type'' in
           if etype = PStr ''system'' \<and> dget d ''subtype'' = PStr ''init'' then claude_init d s
           else if etype = PStr ''assistant'' then claude_assistant d s
           else if etype = PStr ''result'' then claude_result fr d s
           else ([], Going s))
      | _ \<Rightarrow> ([], Raised (AttributeError (repr_str (type_name evt) @ '' object has no attribute '' @ repr_str ''get''))))"

definition claude_finish :: "int \<Rightarrow> run_locals \<Rightarrow> agent_event" where
  \<comment> \<open>the output ended without a result\<close>
  "claude_finish rc s =
     (if rc \<noteq> 0 then crash_error (''claude exited with '' @ int_str rc)
      else protocol_error ''claude output ended without a result event'' None)"

definition claude_run :: "(pyfloat \<Rightarrow> string) \<Rightarrow> json_loads \<Rightarrow> string \<Rightarrow> spawn_fn \<Rightarrow> agent_run_request \<Rightarrow> event_stream" where
  "claude_run fr loads command spawn req =
     (case spawn (claude_argv command req) (req_cwd req) (req_env req) (req_timeout_s req) of
        Inl e \<Rightarrow> ([], Some e)
      | Inr c \<Rightarrow> run_child ''claude'' (req_timeout_s req) (on_line loads ''claude'' (claude_event fr)) claude_finish c
                   (req_backend_thread_id req, PStr ''''))"

definition claude_backend :: "(pyfloat \<Rightarrow> string) \<Rightarrow> json_loads \<Rightarrow> (string \<Rightarrow> string option) \<Rightarrow> string \<Rightarrow> spawn_fn \<Rightarrow> backend" where
  "claude_backend fr loads which command spawn =
     \<lparr>be_name = ''claude'',
      be_capabilities = \<lparr>supports_resume = True, supports_streaming = False, supports_tools = True,
                         supports_mcp = False, auth_modes = [''api_key'', ''cli_login'']\<rparr>,
      be_run = claude_run fr loads command spawn,
      be_healthcheck = \<lparr>health_ok = (which command \<noteq> None),
        health_detail = (if which command \<noteq> None then '''' else ''claude not on PATH'')\<rparr>\<rparr>"

subsection \<open>The command line entry\<close>

text \<open>\<open>claw_engine/__main__.py\<close>, from the namespace that \<open>argparse\<close> returns. The machine is what the
  program finds around it; what \<open>print\<close> writes is a list of lines.\<close>

record machine =
  mc_popen :: "pyv list \<Rightarrow> string \<Rightarrow> string dict \<Rightarrow> exn + os_process"
  mc_which :: "string \<Rightarrow> string option"
  mc_loads :: json_loads
  mc_float :: "pyfloat \<Rightarrow> string"
  mc_environ :: "string dict"
  mc_getcwd :: string

record cli_args =
  cli_backend :: string
  cli_prompt :: string
  cli_cwd :: string

definition default_cli_args :: "machine \<Rightarrow> string \<Rightarrow> cli_args" where
  \<comment> \<open>only \<open>--prompt\<close> is required\<close>
  "default_cli_args M prompt = \<lparr>cli_backend = ''codex'', cli_prompt = prompt, cli_cwd = mc_getcwd M\<rparr>"

definition build_registry :: "machine \<Rightarrow> engine_registry" where
  "build_registry M =
     (let spawn = default_spawn (mc_popen M) in
      register_backend ''fake'' (\<lambda>_. Inr echo_backend)
        (register_backend ''claude'' (\<lambda>_. Inr (claude_backend (mc_float M) (mc_loads M) (mc_which M) ''claude'' spawn))
          (register_backend ''codex'' (\<lambda>_. Inr (codex_backend (mc_loads M) (mc_which M) ''codex'' spawn)) empty_registry)))"

record console =
  con_stdout :: "string list"
  con_stderr :: "string list"

definition cli_turn_args :: "machine \<Rightarrow> cli_args \<Rightarrow> turn_args" where
  "cli_turn_args M a =
     \<lparr>ta_backend_name = cli_backend a, ta_prompt = cli_prompt a, ta_cwd = cli_cwd a, ta_env = dict_of (mc_environ M),
      ta_backend_thread_id = PNone, ta_model = None, ta_metadata = None, ta_trace_metadata = None, ta_on_event = None\<rparr>"

definition cli_main :: "machine \<Rightarrow> cli_args \<Rightarrow> (exn + int) \<times> console" where
  "cli_main M a =
     (case fst (run_turn noop_tracer_ops (build_registry M) (cli_turn_args M a) \<lparr>es_tracer = (), es_runs = [], es_seen = []\<rparr>) of
        Inr r \<Rightarrow> (Inr 0, \<lparr>con_stdout = [py_str (mc_float M) (final_text r)], con_stderr = []\<rparr>)
      | Inl (AgentRunFailed er) \<Rightarrow> (Inr 1, \<lparr>con_stdout = [], con_stderr = [''[error] '' @ exn_str (AgentRunFailed er)]\<rparr>)
      | Inl e \<Rightarrow> (Inl e, \<lparr>con_stdout = [], con_stderr = []\<rparr>))"

end
