(* ===== verification/Backend_Properties.thy ===== *)
theory Backend_Properties
  imports Backends
begin

section \<open>Properties of the command-line backends\<close>

text \<open>
  The locale \<open>event_generator\<close> states what a piece of a generator promises: plain events while it
  goes on, one well-formed terminal event when it returns. The loop and the \<open>try\<close> block keep it,
  so each backend keeps the event-stream contract unless an exception leaves the generator, and
  the properties say which those are.
\<close>

definition escapes :: "exn \<Rightarrow> bool" where
  \<comment> \<open>neither \<open>except\<close> clause of \<open>run\<close> catches it\<close>
  "escapes e \<longleftrightarrow> snd (run_caught '''' 0 e) = Some e"

lemma escapes_simps [simp]:
  "\<not> escapes (TimeoutExpired c t)" "\<not> escapes (OSError c m)" "\<not> escapes (SubprocessError m)"
  "escapes (AttributeError m)" "escapes (TypeError m)" "escapes (ValueError m)" "escapes (OverflowError m)"
  by (simp_all add: escapes_def)

fun track :: "run_locals \<Rightarrow> agent_event list \<Rightarrow> run_locals" where
  \<comment> \<open>the last thread id and the last text that the events carry\<close>
  "track s [] = s"
| "track s (e # evs) =
     track (if ev_kind e = THREAD_STARTED then (ev_backend_thread_id e, snd s)
            else if ev_kind e = MESSAGE_COMPLETED then (fst s, ev_text e) else s) evs"

lemma track_append: "track s (a @ b) = track (track s a) b"
  by (induction s a rule: track.induct) simp_all

type_synonym completion = "run_locals \<Rightarrow> agent_run_result \<Rightarrow> bool"
  \<comment> \<open>what a completed run owes to the events before\<close>

definition ends_well :: "completion \<Rightarrow> run_locals \<Rightarrow> agent_event list \<Rightarrow> bool" where
  "ends_well D s evs \<longleftrightarrow> (\<exists>pre t. evs = pre @ [t] \<and> list_all plain_event pre \<and> good_terminal t
     \<and> (\<forall>r. ev_result t = Some r \<longrightarrow> D (track s pre) r))"

lemma ends_well_single: "good_terminal t \<Longrightarrow> (\<And>r. ev_result t = Some r \<Longrightarrow> D s r) \<Longrightarrow> ends_well D s [t]"
  by (auto simp: ends_well_def intro!: exI [of _ "[]"])

lemma ends_well_append: "list_all plain_event pre \<Longrightarrow> ends_well D (track s pre) evs \<Longrightarrow> ends_well D s (pre @ evs)"
  unfolding ends_well_def by (metis append.assoc list_all_append track_append)

lemma ends_well_mono: "ends_well D s evs \<Longrightarrow> (\<And>s r. D s r \<Longrightarrow> D' s r) \<Longrightarrow> ends_well D' s evs"
  unfolding ends_well_def by blast

lemma ends_well_valid: "ends_well D s evs \<Longrightarrow> assert_valid_event_stream evs = Inr ()"
  by (auto simp: ends_well_def valid_stream_iff)

lemma error_events [simp]:
  "good_terminal (err_event k m r raw)" "good_terminal (protocol_error m x)" "good_terminal (timeout_error m)"
  "good_terminal (crash_error m)"
  by (simp_all add: good_terminal_def err_event_def protocol_error_def timeout_error_def crash_error_def)

lemma completed_event [simp]:
  "good_terminal ((agent_event TURN_COMPLETED)\<lparr>ev_backend_thread_id := i, ev_result := Some r\<rparr>)"
  by (simp add: good_terminal_def)

lemma error_single [simp]:
  "ends_well D s [protocol_error m x]" "ends_well D s [timeout_error m]" "ends_well D s [crash_error m]"
  by (auto intro!: ends_well_single simp: err_event_def protocol_error_def timeout_error_def crash_error_def good_terminal_def)

lemma completed_single [simp]:
  "ends_well D s [(agent_event TURN_COMPLETED)\<lparr>ev_backend_thread_id := i, ev_result := Some r\<rparr>] \<longleftrightarrow> D s r"
  by (auto simp: ends_well_def)

lemma run_caught_cases:
  "run_caught n t e = (evs, tail) \<Longrightarrow> (if escapes e then evs = [] \<and> tail = Some e else ends_well D s evs \<and> tail = None)"
  by (cases e) (auto simp: escapes_def)

text \<open>The piece of a generator that handles one item: what it owes when it goes on, returns or raises.
  What a completed run owes may depend on the item that ended it.\<close>

locale event_generator =
  fixes body :: "'i \<Rightarrow> run_locals \<Rightarrow> agent_event list \<times> run_locals run_end" and reason :: "'i \<Rightarrow> exn \<Rightarrow> bool"
    and D :: "'i \<Rightarrow> completion"
  assumes going: "body x s = (evs, Going s') \<Longrightarrow> list_all plain_event evs \<and> s' = track s evs"
    and returned: "body x s = (evs, Returned) \<Longrightarrow> ends_well (D x) s evs"
    and raised: "body x s = (evs, Raised e) \<Longrightarrow> list_all plain_event evs \<and> escapes e \<and> reason x e"
begin

definition went_on :: "'i \<Rightarrow> bool" where
  "went_on x \<longleftrightarrow> (\<exists>s evs s'. body x s = (evs, Going s'))"

definition ended_at :: "'i list \<Rightarrow> run_locals \<Rightarrow> agent_event list \<Rightarrow> bool" where
  \<comment> \<open>one of the items ended the run, and the ones before it did not\<close>
  "ended_at xs s evs \<longleftrightarrow> (\<exists>pre x post. xs = pre @ x # post \<and> list_all went_on pre \<and> ends_well (D x) s evs)"

lemma ended_at_Cons:
  assumes "went_on x" and "list_all plain_event evs1" and "ended_at xs (track s evs1) evs"
  shows "ended_at (x # xs) s (evs1 @ evs)"
proof -
  obtain pre y post where "xs = pre @ y # post" "list_all went_on pre" "ends_well (D y) (track s evs1) evs"
    using assms(3) unfolding ended_at_def by blast
  then have "x # xs = (x # pre) @ y # post" "list_all went_on (x # pre)" "ends_well (D y) s (evs1 @ evs)"
    using assms(1,2) by (simp_all add: ends_well_append)
  then show ?thesis unfolding ended_at_def by blast
qed

lemma loop:
  "(\<forall>s'. gen_loop body xs s = (evs, Going s') \<longrightarrow> list_all plain_event evs \<and> s' = track s evs)
   \<and> (gen_loop body xs s = (evs, Returned) \<longrightarrow> ended_at xs s evs)
   \<and> (\<forall>e. gen_loop body xs s = (evs, Raised e) \<longrightarrow> list_all plain_event evs \<and> escapes e \<and> (\<exists>x \<in> set xs. reason x e))"
proof (induction xs arbitrary: s evs)
  case Nil
  then show ?case by simp
next
  case (Cons x xs)
  obtain evs1 r where b: "body x s = (evs1, r)" by fastforce
  show ?case
  proof (cases r)
    case (Going s1)
    obtain evs2 r2 where l: "gen_loop body xs s1 = (evs2, r2)" by fastforce
    have "went_on x" using b Going unfolding went_on_def by blast
    with l Cons.IH [of s1 evs2] going [OF b [unfolded Going]] show ?thesis
      by (auto simp: b Going track_append intro: ended_at_Cons)
  next
    case Returned
    have "ended_at (x # xs) s evs1"
      unfolding ended_at_def using returned [OF b [unfolded Returned]] by (intro exI [of _ "[]"]) auto
    with b Returned show ?thesis by auto
  qed (use b raised [of x s evs1] in auto)
qed

end

text \<open>A generator over the lines of a child.\<close>

locale child_generator = event_generator body reason D
  for body :: "string \<Rightarrow> run_locals \<Rightarrow> agent_event list \<times> run_locals run_end" and reason :: "string \<Rightarrow> exn \<Rightarrow> bool" and D
begin

lemma child:
  assumes "run_child name T body finish c s = (evs, tail)"
    and finishes: "\<And>rc s. ch_end c = None \<Longrightarrow> ch_code c = Inr rc \<Longrightarrow> ends_well F s [finish rc s]"
  shows "case tail of
      None \<Rightarrow> ended_at (ch_lines c) s evs \<or> ends_well F s evs
    | Some e \<Rightarrow> list_all plain_event evs \<and> escapes e
        \<and> (ch_end c = Some e \<or> ch_end c = None \<and> ch_code c = Inl e \<or> (\<exists>x \<in> set (ch_lines c). reason x e))"
proof -
  obtain evs1 r where l: "gen_loop body (ch_lines c) s = (evs1, r)" by fastforce
  note lp = loop [of "ch_lines c" s evs1]
  show ?thesis
  proof (cases r)
    case Returned
    with assms(1) l lp show ?thesis by (auto simp: run_child_def)
  next
    case (Raised e)
    with l lp have e: "list_all plain_event evs1" "escapes e" "\<exists>x \<in> set (ch_lines c). reason x e" by auto
    obtain evs2 t2 where r: "run_caught name T e = (evs2, t2)" by fastforce
    with run_caught_cases [OF r, of F s] assms(1) l e Raised show ?thesis by (auto simp: run_child_def)
  next
    case (Going s1)
    with l lp have p: "list_all plain_event evs1" "s1 = track s evs1" by auto
    let ?code = "case ch_end c of Some e \<Rightarrow> Inl e | None \<Rightarrow> ch_code c"
    show ?thesis
    proof (cases ?code)
      case (Inr rc)
      with assms(1) l p Going finishes [of rc s1] show ?thesis
        by (auto simp: run_child_def intro!: ends_well_append split: option.splits)
    next
      case (Inl e)
      obtain evs2 t2 where r: "run_caught name T e = (evs2, t2)" by fastforce
      with run_caught_cases [OF r, of F s1] assms(1) l p Going Inl show ?thesis
        by (cases "escapes e") (auto simp: run_child_def intro: ends_well_append split: option.splits)
    qed
  qed
qed

lemma ended_mono:
  assumes "ended_at xs s evs" and "\<And>pre x post s r. xs = pre @ x # post \<Longrightarrow> list_all went_on pre \<Longrightarrow> D x s r \<Longrightarrow> D' s r"
  shows "ends_well D' s evs"
  using assms unfolding ended_at_def by (blast intro: ends_well_mono)

end

subsection \<open>The two backends\<close>

fun no_object :: "json_loads \<Rightarrow> string \<Rightarrow> exn \<Rightarrow> bool" where
  \<comment> \<open>the line is JSON, but no object\<close>
  "no_object loads line e \<longleftrightarrow> (\<exists>v. loads line = Inr v \<and> (\<forall>d. v \<noteq> PDict d) \<and> py_get v ''type'' = Inl e)"

definition bad_usage :: "json_loads \<Rightarrow> string \<Rightarrow> exn \<Rightarrow> bool" where
  \<comment> \<open>a result whose token counts are no numbers\<close>
  "bad_usage loads line e \<longleftrightarrow> (\<exists>d. loads line = Inr (PDict d) \<and> dget d ''type'' = PStr ''result'' \<and> claude_usage d = Inl e)"

lemma plain_kinds [simp]: "\<not> terminal_kind THREAD_STARTED" "\<not> terminal_kind MESSAGE_COMPLETED" "\<not> terminal_kind TOOL_CALL_COMPLETED"
  by (simp_all add: terminal_kind_def)

lemma plain_event_upd [simp]:
  "plain_event (e\<lparr>ev_text := x\<rparr>) = plain_event e" "plain_event (e\<lparr>ev_tool := t\<rparr>) = plain_event e"
  "plain_event (e\<lparr>ev_raw := w\<rparr>) = plain_event e" "plain_event (e\<lparr>ev_backend_thread_id := i\<rparr>) = plain_event e"
  by (simp_all add: plain_event_def)

lemma usage_escapes: "claude_usage d = Inl e \<Longrightarrow> escapes e"
proof -
  have get: "py_get v k = Inl e \<Longrightarrow> escapes e" for v k by (cases v) auto
  have int: "py_int v = Inl e \<Longrightarrow> escapes e" for v
    by (cases v) (auto simp: unsupported_int_def split: pyfloat.splits option.splits)
  assume "claude_usage d = Inl e"
  then show ?thesis using get int by (auto simp: claude_usage_def usage_count_def Let_def)
qed

definition codex_completion :: "child \<Rightarrow> completion" where
  \<comment> \<open>the child ended by itself with code 0; the last thread id (or the request's) and the last message\<close>
  "codex_completion c s r \<longleftrightarrow> ch_end c = None \<and> ch_code c = Inr 0 \<and> r = agent_run_result (fst s) (snd s) no_usage"

definition claude_answer :: "pyv dict \<Rightarrow> completion" where
  \<comment> \<open>the run that a result event completes: the id it names, which is not empty and is that of the
    session that was opened; its text, or the last message if that is empty; its token counts\<close>
  "claude_answer d s r \<longleftrightarrow> \<not> truthy (dget d ''is_error'') \<and> truthy (dget d ''session_id'')
     \<and> (fst s = PNone \<or> py_eq (dget d ''session_id'') (fst s))
     \<and> (\<exists>v u. dict_get d ''result'' = Some v \<and> claude_usage d = Inr u
          \<and> r = agent_run_result (dget d ''session_id'') (py_or v (snd s)) u)"

definition result_line :: "json_loads \<Rightarrow> string \<Rightarrow> pyv dict \<Rightarrow> bool" where
  "result_line loads line d \<longleftrightarrow> strip line \<noteq> [] \<and> loads line = Inr (PDict d) \<and> dget d ''type'' = PStr ''result''"

definition claude_completion :: "json_loads \<Rightarrow> child \<Rightarrow> completion" where
  \<comment> \<open>the first result event that the child printed completes the run\<close>
  "claude_completion loads c s r \<longleftrightarrow>
     (\<exists>pre line post d. ch_lines c = pre @ line # post \<and> (\<forall>x \<in> set pre. \<forall>d. \<not> result_line loads x d)
        \<and> result_line loads line d \<and> claude_answer d s r)"

lemma claude_block_shape:
  assumes "claude_block evt x s = (evs, r)"
  shows "case r of Going s' \<Rightarrow> list_all plain_event evs \<and> s' = track s evs | Returned \<Rightarrow> ends_well D s evs | Raised e \<Rightarrow> False"
  using assms by (cases x) (auto simp: Let_def split: if_splits)

interpretation claude_blocks: event_generator "claude_block evt" "\<lambda>_ _. False" "\<lambda>_. D" for evt D
  by unfold_locales (auto dest: claude_block_shape)

lemma codex_event_shape:
  assumes "codex_event evt s = (evs, r)"
  shows "case r of
      Going s' \<Rightarrow> list_all plain_event evs \<and> s' = track s evs
    | Returned \<Rightarrow> ends_well D s evs
    | Raised e \<Rightarrow> evs = [] \<and> (\<forall>d. evt \<noteq> PDict d) \<and> py_get evt ''type'' = Inl e"
proof (cases evt)
  case (PDict d)
  show ?thesis
  proof (cases "dget d ''item''")
    case (PDict item)
    with assms \<open>evt = PDict d\<close> show ?thesis
      by (auto simp: codex_event_def codex_item_def Let_def split: if_splits)
  qed (use assms PDict in \<open>auto simp: codex_event_def codex_item_def split: if_splits\<close>)
qed (use assms in \<open>auto simp: codex_event_def\<close>)

lemma claude_event_shape:
  assumes "claude_event fr evt s = (evs, r)"
  shows "case r of
      Going s' \<Rightarrow> list_all plain_event evs \<and> s' = track s evs \<and> (\<forall>d. evt = PDict d \<longrightarrow> dget d ''type'' \<noteq> PStr ''result'')
    | Returned \<Rightarrow> ends_well (\<lambda>s r. \<exists>d. evt = PDict d \<and> dget d ''type'' = PStr ''result'' \<and> claude_answer d s r) s evs
    | Raised e \<Rightarrow> evs = [] \<and> ((\<forall>d. evt \<noteq> PDict d) \<and> py_get evt ''type'' = Inl e
        \<or> (\<exists>d. evt = PDict d \<and> dget d ''type'' = PStr ''result'' \<and> claude_usage d = Inl e))"
proof (cases evt)
  case (PDict d)
  have assistant: "case r of Going s' \<Rightarrow> list_all plain_event evs \<and> s' = track s evs
      | Returned \<Rightarrow> ends_well D s evs | Raised e \<Rightarrow> False"
    if "claude_assistant d s = (evs, r)" for D
    using that claude_blocks.loop [of "PDict d" _ s evs D]
    by (cases r) (auto simp: claude_assistant_def claude_blocks.ended_at_def split: pyv.splits)
  have result: "case r of Going s' \<Rightarrow> False | Returned \<Rightarrow> ends_well (claude_answer d) s evs
      | Raised e \<Rightarrow> evs = [] \<and> claude_usage d = Inl e"
    if "claude_result fr d s = (evs, r)"
    using that
    by (auto simp: claude_result_def claude_answer_def dget_def dict_get_def Let_def split: if_splits sum.splits option.splits)
  show ?thesis
  proof (cases "dget d ''type'' = PStr ''result''")
    case True
    with assms PDict result show ?thesis by (cases r) (auto simp: claude_event_def)
  next
    case False
    then show ?thesis
      using assms PDict assistant
      by (auto simp: claude_event_def claude_init_def Let_def split: if_splits run_end.splits)
  qed
qed (use assms in \<open>auto simp: claude_event_def\<close>)

lemma on_line_cases:
  assumes "on_line loads name handle line s = (evs, r)"
  obtains (blank) "strip line = []" "evs = []" "r = Going s"
    | (malformed) t m where "loads line = Inl t" "evs = [protocol_error m None]" "r = Returned"
    | (event) evt where "loads line = Inr evt" "handle evt s = (evs, r)" "strip line \<noteq> []"
  using assms by (auto simp: on_line_def decode_line_def split: if_splits sum.splits)

interpretation codex_lines: child_generator "on_line loads ''codex'' codex_event" "no_object loads" "\<lambda>_. codex_completion c"
  for loads c
proof unfold_locales
  fix x s evs s'
  assume "on_line loads ''codex'' codex_event x s = (evs, Going s')"
  then show "list_all plain_event evs \<and> s' = track s evs" by (cases rule: on_line_cases) (auto dest: codex_event_shape)
next
  fix x s evs
  assume "on_line loads ''codex'' codex_event x s = (evs, Returned)"
  then show "ends_well (codex_completion c) s evs" by (cases rule: on_line_cases) (auto dest: codex_event_shape)
next
  fix x s evs e
  assume "on_line loads ''codex'' codex_event x s = (evs, Raised e)"
  then show "list_all plain_event evs \<and> escapes e \<and> no_object loads x e"
  proof (cases rule: on_line_cases)
    case (event evt)
    with codex_event_shape [OF event(2)] show ?thesis by (cases evt) auto
  qed auto
qed

interpretation claude_lines: child_generator "on_line loads ''claude'' (claude_event fr)"
  "\<lambda>line e. no_object loads line e \<or> bad_usage loads line e"
  "\<lambda>line s r. \<exists>d. result_line loads line d \<and> claude_answer d s r"
  for loads fr
proof unfold_locales
  fix x s evs s'
  assume "on_line loads ''claude'' (claude_event fr) x s = (evs, Going s')"
  then show "list_all plain_event evs \<and> s' = track s evs" by (cases rule: on_line_cases) (auto dest: claude_event_shape)
next
  fix x s evs
  assume r: "on_line loads ''claude'' (claude_event fr) x s = (evs, Returned)"
  then show "ends_well (\<lambda>s r. \<exists>d. result_line loads x d \<and> claude_answer d s r) s evs"
  proof (cases rule: on_line_cases)
    case (event evt)
    from event claude_event_shape [OF event(2)] show ?thesis
      by (auto simp: result_line_def elim: ends_well_mono)
  qed auto
next
  fix x s evs e
  assume "on_line loads ''claude'' (claude_event fr) x s = (evs, Raised e)"
  then show "list_all plain_event evs \<and> escapes e \<and> (no_object loads x e \<or> bad_usage loads x e)"
  proof (cases rule: on_line_cases)
    case (event evt)
    with claude_event_shape [OF event(2)] usage_escapes show ?thesis
      by (cases evt) (auto simp: bad_usage_def)
  qed auto
qed

lemma claude_went_on: "claude_lines.went_on loads fr x \<Longrightarrow> \<not> result_line loads x d"
  unfolding claude_lines.went_on_def
proof (elim exE)
  fix s evs s'
  assume "on_line loads ''claude'' (claude_event fr) x s = (evs, Going s')"
  then show "\<not> result_line loads x d"
    by (cases rule: on_line_cases) (auto simp: result_line_def dest: claude_event_shape)
qed

lemma codex_stream:
  assumes "codex_run loads command spawn req = (evs, tail)"
    and "spawn (codex_argv command req) (req_cwd req) (req_env req) (req_timeout_s req) = Inr c"
  shows "case tail of
      None \<Rightarrow> ends_well (codex_completion c) (req_backend_thread_id req, PStr '''') evs
    | Some e \<Rightarrow> list_all plain_event evs \<and> escapes e
        \<and> (ch_end c = Some e \<or> ch_end c = None \<and> ch_code c = Inl e \<or> (\<exists>x \<in> set (ch_lines c). no_object loads x e))"
proof -
  have "run_child ''codex'' (req_timeout_s req) (on_line loads ''codex'' codex_event) codex_finish c
      (req_backend_thread_id req, PStr '''') = (evs, tail)"
    using assms by (simp add: codex_run_def)
  moreover have "ends_well (codex_completion c) s [codex_finish rc s]" if "ch_end c = None" "ch_code c = Inr rc" for rc s
    using that by (auto simp: codex_finish_def codex_completion_def)
  ultimately have "case tail of
      None \<Rightarrow> codex_lines.ended_at loads c (ch_lines c) (req_backend_thread_id req, PStr []) evs
        \<or> ends_well (codex_completion c) (req_backend_thread_id req, PStr []) evs
    | Some e \<Rightarrow> list_all plain_event evs \<and> escapes e
        \<and> (ch_end c = Some e \<or> ch_end c = None \<and> ch_code c = Inl e \<or> (\<exists>x \<in> set (ch_lines c). no_object loads x e))"
    by (rule codex_lines.child)
  then show ?thesis by (cases tail) (auto simp: codex_lines.ended_at_def)
qed

lemma claude_stream:
  assumes "claude_run fr loads command spawn req = (evs, tail)"
    and "spawn (claude_argv command req) (req_cwd req) (req_env req) (req_timeout_s req) = Inr c"
  shows "case tail of
      None \<Rightarrow> ends_well (claude_completion loads c) (req_backend_thread_id req, PStr '''') evs
    | Some e \<Rightarrow> list_all plain_event evs \<and> escapes e
        \<and> (ch_end c = Some e \<or> ch_end c = None \<and> ch_code c = Inl e
           \<or> (\<exists>x \<in> set (ch_lines c). no_object loads x e \<or> bad_usage loads x e))"
proof -
  have run: "run_child ''claude'' (req_timeout_s req) (on_line loads ''claude'' (claude_event fr)) claude_finish c
      (req_backend_thread_id req, PStr '''') = (evs, tail)"
    using assms by (simp add: claude_run_def)
  have "ends_well (claude_completion loads c) s evs" if "claude_lines.ended_at loads fr (ch_lines c) s evs" for s
    using that
  proof (rule claude_lines.ended_mono)
    fix pre x post s r
    assume "ch_lines c = pre @ x # post" "list_all (claude_lines.went_on loads fr) pre"
      "\<exists>d. result_line loads x d \<and> claude_answer d s r"
    then show "claude_completion loads c s r"
      unfolding claude_completion_def list_all_iff using claude_went_on by blast
  qed
  moreover have "ends_well (claude_completion loads c) s [claude_finish rc s]" for rc s
    by (simp add: claude_finish_def)
  note claude_lines.child [OF run this]
  ultimately show ?thesis by (cases tail) auto
qed

lemma ends_well_completed:
  "ends_well D s evs \<Longrightarrow> ev \<in> set evs \<Longrightarrow> ev_kind ev = TURN_COMPLETED \<Longrightarrow> ev_result ev = Some r
     \<Longrightarrow> ev = last evs \<and> D (track s (butlast evs)) r"
  by (auto simp: ends_well_def list_all_iff plain_event_def terminal_kind_def)

subsection \<open>Properties\<close>

text \<open>A child for the witnesses: it opens a thread, calls a tool and answers.\<close>

definition demo_loads :: json_loads where
  "demo_loads line =
     (if line = ''thread'' then Inr (PDict [(''type'', PStr ''thread.started''), (''thread_id'', PStr ''t1'')])
      else if line = ''message'' then Inr (PDict [(''type'', PStr ''item.completed''),
        (''item'', PDict [(''type'', PStr ''agent_message''), (''text'', PStr ''done'')])])
      else if line = ''init'' then Inr (PDict [(''type'', PStr ''system''), (''subtype'', PStr ''init''), (''session_id'', PStr ''s1'')])
      else if line = ''result'' then Inr (PDict [(''type'', PStr ''result''), (''session_id'', PStr ''s1''), (''result'', PStr ''done''),
        (''usage'', PDict [(''input_tokens'', PInt 3)])])
      else if line = ''7'' then Inr (PInt 7)
      else Inl ''Expecting value'')"

definition demo_spawn :: "string list \<Rightarrow> spawn_fn" where
  "demo_spawn ls argv cwd env t = Inr \<lparr>ch_lines = ls, ch_end = None, ch_code = Inr 0\<rparr>"

definition demo_request :: agent_run_request where
  "demo_request = agent_run_request ''hi'' ''/srv'' [] PNone None []"

text \<open>C23. \<open>CodexCliBackend.run\<close> keeps the event-stream contract: when it raises nothing, its events
  are non-terminal ones and then exactly one well-formed terminal event, and it completes only if
  the child ended by itself with exit code 0, with the last thread id and text that the events
  showed. What can leave it instead: the exception of a spawn that failed, one of the child's output
  or exit status outside the two families it catches, or the AttributeError of a line that is JSON
  but no object.\<close>

theorem codex_stream_contract:
  assumes "codex_run loads command spawn req = (evs, tail)"
  shows "case tail of
      None \<Rightarrow> assert_valid_event_stream evs = Inr ()
        \<and> (\<forall>r. ev_result (last evs) = Some r \<longrightarrow>
             (\<exists>c. spawn (codex_argv command req) (req_cwd req) (req_env req) (req_timeout_s req) = Inr c
                \<and> codex_completion c (track (req_backend_thread_id req, PStr '''') (butlast evs)) r))
    | Some e \<Rightarrow> list_all plain_event evs
        \<and> (spawn (codex_argv command req) (req_cwd req) (req_env req) (req_timeout_s req) = Inl e
           \<or> (\<exists>c. spawn (codex_argv command req) (req_cwd req) (req_env req) (req_timeout_s req) = Inr c \<and> escapes e
                \<and> (ch_end c = Some e \<or> ch_end c = None \<and> ch_code c = Inl e
                   \<or> (\<exists>line \<in> set (ch_lines c). no_object loads line e))))"
proof (cases "spawn (codex_argv command req) (req_cwd req) (req_env req) (req_timeout_s req)")
  case (Inl e)
  with assms show ?thesis by (auto simp: codex_run_def)
next
  case (Inr c)
  show ?thesis
  proof (cases tail)
    case None
    with codex_stream [OF assms Inr] have w: "ends_well (codex_completion c) (req_backend_thread_id req, PStr '''') evs" by simp
    then have "ev_result (last evs) = Some r \<longrightarrow> codex_completion c (track (req_backend_thread_id req, PStr '''') (butlast evs)) r" for r
      by (auto simp: ends_well_def)
    with ends_well_valid [OF w] Inr None show ?thesis by auto
  next
    case (Some e)
    with codex_stream [OF assms Inr] Inr show ?thesis by auto
  qed
qed

theorem codex_stream_contract_witness:
  "assert_valid_event_stream (fst (codex_run demo_loads ''codex'' (demo_spawn [''thread'', ''message'']) demo_request)) = Inr ()
     \<and> snd (codex_run demo_loads ''codex'' (demo_spawn [''7'']) demo_request) \<noteq> None"
proof -
  obtain evs tail where a: "codex_run demo_loads ''codex'' (demo_spawn [''thread'', ''message'']) demo_request = (evs, tail)" by fastforce
  have "snd (codex_run demo_loads ''codex'' (demo_spawn [''thread'', ''message'']) demo_request) = None" by code_simp
  with codex_stream_contract [OF a] have "assert_valid_event_stream evs = Inr ()" by (simp add: a)
  moreover have "snd (codex_run demo_loads ''codex'' (demo_spawn [''7'']) demo_request) \<noteq> None" by code_simp
  ultimately show ?thesis by (simp add: a)
qed

text \<open>C24. \<open>ClaudeCodeBackend.run\<close> keeps the event-stream contract too: without an exception its stream
  is valid, and it completes only on the first result event that the child printed, if that is no
  error: it answers the event's session id, which is not empty and equals the one that init (or the
  request) named, with the event's \<open>result\<close> text or, if that is empty, the last message, and with
  the event's token counts. What can leave it instead is what can leave the Codex backend, or the
  exception of reading the token counts of a result event.\<close>

theorem claude_stream_contract:
  assumes "claude_run fr loads command spawn req = (evs, tail)"
  shows "case tail of
      None \<Rightarrow> assert_valid_event_stream evs = Inr ()
        \<and> (\<forall>r. ev_result (last evs) = Some r \<longrightarrow>
             (\<exists>c. spawn (claude_argv command req) (req_cwd req) (req_env req) (req_timeout_s req) = Inr c
                \<and> claude_completion loads c (track (req_backend_thread_id req, PStr '''') (butlast evs)) r))
    | Some e \<Rightarrow> list_all plain_event evs
        \<and> (spawn (claude_argv command req) (req_cwd req) (req_env req) (req_timeout_s req) = Inl e
           \<or> (\<exists>c. spawn (claude_argv command req) (req_cwd req) (req_env req) (req_timeout_s req) = Inr c \<and> escapes e
                \<and> (ch_end c = Some e \<or> ch_end c = None \<and> ch_code c = Inl e
                   \<or> (\<exists>line \<in> set (ch_lines c). no_object loads line e \<or> bad_usage loads line e))))"
proof (cases "spawn (claude_argv command req) (req_cwd req) (req_env req) (req_timeout_s req)")
  case (Inl e)
  with assms show ?thesis by (auto simp: claude_run_def)
next
  case (Inr c)
  show ?thesis
  proof (cases tail)
    case None
    with claude_stream [OF assms Inr]
    have w: "ends_well (claude_completion loads c) (req_backend_thread_id req, PStr '''') evs" by simp
    then have "ev_result (last evs) = Some r \<longrightarrow>
        claude_completion loads c (track (req_backend_thread_id req, PStr '''') (butlast evs)) r" for r
      by (auto simp: ends_well_def)
    with ends_well_valid [OF w] Inr None show ?thesis by auto
  next
    case (Some e)
    with claude_stream [OF assms Inr] Inr show ?thesis by auto
  qed
qed

theorem claude_stream_contract_witness:
  "\<exists>evs r. claude_run (\<lambda>_. '''') demo_loads ''claude'' (demo_spawn [''init'', ''result'']) demo_request = (evs, None)
     \<and> assert_valid_event_stream evs = Inr () \<and> ev_result (last evs) = Some r
     \<and> claude_completion demo_loads \<lparr>ch_lines = [''init'', ''result''], ch_end = None, ch_code = Inr 0\<rparr>
          (track (PNone, PStr '''') (butlast evs)) r"
proof -
  let ?run = "claude_run (\<lambda>_. '''') demo_loads ''claude'' (demo_spawn [''init'', ''result'']) demo_request"
  have none: "snd ?run = None" by code_simp
  then obtain evs where a: "?run = (evs, None)" by (metis prod.collapse)
  have "ev_result (last (fst ?run)) \<noteq> None" by code_simp
  then obtain r where r: "ev_result (last evs) = Some r" by (auto simp: a)
  have id: "req_backend_thread_id demo_request = PNone" by (simp add: demo_request_def agent_run_request_def)
  from claude_stream_contract [OF a] r a show ?thesis by (simp add: demo_spawn_def id)
qed

text \<open>C25. End to end on the default backend: if the command line program exits with 0, a codex
  process was started in the given directory with the program's environment, it closed its output
  before the time limit of 1800 seconds without being killed, and its exit code was 0; there is one
  \<open>print\<close> to stdout and nothing goes to stderr.\<close>

theorem cli_success_is_real:
  assumes "cli_main M a = (Inr 0, con)" and "cli_backend a = ''codex''"
  shows "\<exists>p t. mc_popen M [PStr ''codex'', PStr ''exec'', PStr ''--dangerously-bypass-approvals-and-sandbox'', PStr ''--json'',
                          PStr (cli_prompt a)] (cli_cwd a) (dict_of (dict_of (mc_environ M))) = Inr p
    \<and> op_eof p None = Some t \<and> t < 1800 \<and> op_code p None = 0 \<and> length (con_stdout con) = 1 \<and> con_stderr con = []"
proof -
  let ?st = "\<lparr>es_tracer = (), es_runs = [], es_seen = []\<rparr> :: unit engine_state"
  obtain out s' where rt: "run_turn noop_tracer_ops (build_registry M) (cli_turn_args M a) ?st = (out, s')" by fastforce
  obtain r where r: "out = Inr r" and con: "length (con_stdout con) = 1" "con_stderr con = []"
    using assms(1) by (cases out) (auto simp: cli_main_def rt split: exn.splits)
  let ?be = "codex_backend (mc_loads M) (mc_which M) ''codex'' (default_spawn (mc_popen M))"
  let ?req = "turn_request (be_capabilities ?be) (cli_turn_args M a)"
  have be: "resolve_backend (build_registry M) (ta_backend_name (cli_turn_args M a)) = Inr ?be"
    using assms(2) by (simp add: build_registry_def Let_def cli_turn_args_def)
  from run_turn_result_event [OF rt [unfolded r]] be obtain evs ev where
    run: "be_run ?be ?req = (evs, None)" and ev: "ev \<in> set evs" "ev_kind ev = TURN_COMPLETED" "ev_result ev = Some r"
    by auto
  have req: "req_cwd ?req = cli_cwd a" "req_env ?req = dict_of (mc_environ M)" "req_timeout_s ?req = 1800"
    "req_backend_thread_id ?req = PNone" "req_model ?req = None" "req_prompt ?req = cli_prompt a"
    by (simp_all add: turn_request_def cli_turn_args_def)
  have argv: "codex_argv ''codex'' ?req = [PStr ''codex'', PStr ''exec'', PStr ''--dangerously-bypass-approvals-and-sandbox'',
      PStr ''--json'', PStr (cli_prompt a)]" by (simp add: codex_argv_def req)
  have go: "codex_run (mc_loads M) ''codex'' (default_spawn (mc_popen M)) ?req = (evs, None)"
    using run by (simp add: codex_backend_def)
  then obtain c where c: "default_spawn (mc_popen M) (codex_argv ''codex'' ?req) (req_cwd ?req) (req_env ?req) (req_timeout_s ?req) = Inr c"
    by (auto simp: codex_run_def split: sum.splits)
  from codex_stream [OF go c] have "ends_well (codex_completion c) (req_backend_thread_id ?req, PStr '''') evs" by simp
  from ends_well_completed [OF this ev] have "ch_end c = None" "ch_code c = Inr 0" by (auto simp: codex_completion_def)
  with c con show ?thesis
    by (auto simp: default_spawn_def argv req Let_def split: option.splits if_splits)
qed

definition demo_machine :: machine where
  "demo_machine =
     \<lparr>mc_popen = (\<lambda>argv cwd env. Inr \<lparr>op_lines = (\<lambda>k. [''thread'', ''message'']), op_eof = (\<lambda>k. Some 5), op_code = (\<lambda>k. 0)\<rparr>),
      mc_which = (\<lambda>_. None), mc_loads = demo_loads, mc_float = (\<lambda>_. ''''), mc_environ = [(''PATH'', ''/bin'')], mc_getcwd = ''/srv''\<rparr>"

theorem cli_success_is_real_witness:
  "fst (cli_main demo_machine (default_cli_args demo_machine ''hi'')) = Inr 0
     \<and> (\<exists>p t. mc_popen demo_machine [PStr ''codex'', PStr ''exec'', PStr ''--dangerously-bypass-approvals-and-sandbox'', PStr ''--json'',
                          PStr ''hi''] ''/srv'' (dict_of (dict_of (mc_environ demo_machine))) = Inr p \<and> op_eof p None = Some t \<and> t < 1800)"
proof -
  let ?a = "default_cli_args demo_machine ''hi''"
  obtain out con where m: "cli_main demo_machine ?a = (out, con)" by fastforce
  have "fst (cli_main demo_machine ?a) = Inr 0" by code_simp
  with m have m0: "cli_main demo_machine ?a = (Inr 0, con)" by simp
  have a: "cli_backend ?a = ''codex''" "cli_prompt ?a = ''hi''" "cli_cwd ?a = ''/srv''"
    by (simp_all add: default_cli_args_def demo_machine_def)
  from cli_success_is_real [OF m0 a(1)] m0 a(2,3) show ?thesis by auto
qed

end
