(* ===== verification/Filesystem.thy ===== *)
theory Filesystem
  imports Context
begin

section \<open>The file system\<close>

text \<open>
  What the program uses of \<open>os\<close>, \<open>os.path\<close>, \<open>shutil\<close> and \<open>open\<close>. A file system is the list of its
  entries by physical path (the list of names from the root); a directory has an entry of its own,
  and the order of the list is the order in which directories are listed. A path is text; the kernel
  walks its components (\<open>path_parts\<close>: empty ones and single dots are no step) from the root, and
  follows symbolic links, at most 40 of them. Permissions, disk faults and
  races with other processes are not modelled.
\<close>

type_synonym fpath = "string list"

datatype fs_node = FFile string | FDir | FLink string

type_synonym fs = "(fpath \<times> fs_node) list"

definition stat :: "fs \<Rightarrow> fpath \<Rightarrow> fs_node option" where
  "stat fs p = (if p = [] then Some FDir else map_of fs p)"

definition fs_put :: "fpath \<Rightarrow> fs_node \<Rightarrow> fs \<Rightarrow> fs" where
  "fs_put p n fs = AList.update p n fs"

definition fs_del :: "fpath \<Rightarrow> fs \<Rightarrow> fs" where
  \<comment> \<open>the entry and everything below it\<close>
  "fs_del p fs = filter (\<lambda>(q, _). \<not> prefix p q) fs"

definition fs_children :: "fs \<Rightarrow> fpath \<Rightarrow> string list" where
  "fs_children fs d = List.map (\<lambda>(q, _). last q) (filter (\<lambda>(q, _). q \<noteq> [] \<and> butlast q = d) fs)"

subsection \<open>Walking a path\<close>

definition is_absolute :: "string \<Rightarrow> bool" where
  "is_absolute p \<longleftrightarrow> starts_with ''/'' p"

definition link_start :: "string \<Rightarrow> fpath \<Rightarrow> fpath" where
  "link_start target cur = (if is_absolute target then [] else cur)"

definition not_found :: exn where
  "not_found = OSError ''FileNotFoundError'' ''No such file or directory''"

definition not_a_directory :: exn where
  "not_a_directory = OSError ''NotADirectoryError'' ''Not a directory''"

definition link_loop :: exn where
  "link_loop = OSError ''OSError'' ''Too many levels of symbolic links''"

function (sequential) walk :: "nat \<Rightarrow> fs \<Rightarrow> fpath \<Rightarrow> string list \<Rightarrow> exn + fpath" where
  \<comment> \<open>the kernel's walk; the last component need not exist\<close>
  "walk n fs cur [] = Inr cur"
| "walk n fs cur (c # cs) =
     (if stat fs cur \<noteq> Some FDir then Inl (if stat fs cur = None then not_found else not_a_directory)
      else if c = ''..'' then walk n fs (butlast cur) cs
      else (case stat fs (cur @ [c]) of
              Some (FLink t) \<Rightarrow>
                (case n of 0 \<Rightarrow> Inl link_loop | Suc m \<Rightarrow> walk m fs (link_start t cur) (path_parts t @ cs))
            | _ \<Rightarrow> walk n fs (cur @ [c]) cs))"
  by pat_completeness auto
termination
  by (relation "measures [\<lambda>(n, _). n, \<lambda>(_, _, _, cs). length cs]") auto

function (sequential) real_walk :: "nat \<Rightarrow> fs \<Rightarrow> fpath \<Rightarrow> string list \<Rightarrow> fpath" where
  \<comment> \<open>\<open>os.path.realpath\<close>: what does not exist is kept as it is written\<close>
  "real_walk n fs cur [] = cur"
| "real_walk n fs cur (c # cs) =
     (if c = ''..'' then real_walk n fs (butlast cur) cs
      else (case stat fs (cur @ [c]) of
              Some (FLink t) \<Rightarrow>
                (case n of 0 \<Rightarrow> cur @ c # cs | Suc m \<Rightarrow> real_walk m fs (link_start t cur) (path_parts t @ cs))
            | _ \<Rightarrow> real_walk n fs (cur @ [c]) cs))"
  by pat_completeness auto
termination
  by (relation "measures [\<lambda>(n, _). n, \<lambda>(_, _, _, cs). length cs]") auto

declare walk.simps(2) [simp del] real_walk.simps(2) [simp del]

definition link_limit :: nat where
  "link_limit = 40"

definition locate :: "fs \<Rightarrow> string list \<Rightarrow> exn + fpath" where
  \<comment> \<open>from the root: paths of the program are absolute\<close>
  "locate fs cs = walk link_limit fs [] cs"

definition realpath :: "fs \<Rightarrow> string list \<Rightarrow> fpath" where
  "realpath fs cs = real_walk link_limit fs [] cs"

definition stat_follow :: "fs \<Rightarrow> string list \<Rightarrow> fs_node option" where
  "stat_follow fs cs = (case locate fs cs of Inl e \<Rightarrow> None | Inr p \<Rightarrow> stat fs p)"

definition isdir :: "fs \<Rightarrow> string list \<Rightarrow> bool" where
  "isdir fs cs \<longleftrightarrow> stat_follow fs cs = Some FDir"

definition isfile :: "fs \<Rightarrow> string list \<Rightarrow> bool" where
  "isfile fs cs \<longleftrightarrow> (case stat_follow fs cs of Some (FFile t) \<Rightarrow> True | _ \<Rightarrow> False)"

definition lstat :: "fs \<Rightarrow> string list \<Rightarrow> fs_node option" where
  \<comment> \<open>the last component is not followed\<close>
  "lstat fs cs = (case locate fs (butlast cs) of Inl e \<Rightarrow> None
     | Inr d \<Rightarrow> if stat fs d = Some FDir then stat fs (d @ [last cs]) else None)"

subsection \<open>Changing it\<close>

definition mkdir :: "string list \<Rightarrow> fs \<Rightarrow> (exn + unit) \<times> fs" where
  "mkdir cs fs =
     (case locate fs (butlast cs) of
        Inl e \<Rightarrow> (Inl e, fs)
      | Inr d \<Rightarrow>
          (if stat fs d \<noteq> Some FDir then (Inl (if stat fs d = None then not_found else not_a_directory), fs)
           else if stat fs (d @ [last cs]) \<noteq> None then (Inl (OSError ''FileExistsError'' ''File exists''), fs)
           else (Inr (), fs_put (d @ [last cs]) FDir fs)))"

definition mkdir_ok :: "string list \<Rightarrow> fs \<Rightarrow> (exn + unit) \<times> fs" where
  \<comment> \<open>with \<open>exist_ok\<close>: an existing directory is fine\<close>
  "mkdir_ok cs fs = (if isdir fs cs then (Inr (), fs) else mkdir cs fs)"

fun makedirs_from :: "string list \<Rightarrow> string list \<Rightarrow> fs \<Rightarrow> (exn + unit) \<times> fs" where
  \<comment> \<open>a parent that exists, or that some file stands in the way of, is left to the next step\<close>
  "makedirs_from done_cs [] fs = (Inr (), fs)"
| "makedirs_from done_cs (c # cs) fs =
     (if cs \<noteq> [] \<and> stat_follow fs (done_cs @ [c]) \<noteq> None then makedirs_from (done_cs @ [c]) cs fs
      else (case mkdir_ok (done_cs @ [c]) fs of
              (Inl e, fs1) \<Rightarrow>
                (if cs \<noteq> [] \<and> exn_type e = ''FileExistsError'' then makedirs_from (done_cs @ [c]) cs fs1 else (Inl e, fs1))
            | (Inr _, fs1) \<Rightarrow> makedirs_from (done_cs @ [c]) cs fs1))"

definition makedirs :: "string list \<Rightarrow> fs \<Rightarrow> (exn + unit) \<times> fs" where
  \<comment> \<open>\<open>os.makedirs(path, exist_ok=True)\<close>\<close>
  "makedirs cs fs = makedirs_from [] cs fs"

definition write_file :: "string list \<Rightarrow> string \<Rightarrow> fs \<Rightarrow> (exn + unit) \<times> fs" where
  \<comment> \<open>\<open>open(path, "w")\<close> and one \<open>write\<close>, through links\<close>
  "write_file cs content fs =
     (case locate fs cs of
        Inl e \<Rightarrow> (Inl e, fs)
      | Inr p \<Rightarrow>
          (if stat fs p = Some FDir then (Inl (OSError ''IsADirectoryError'' ''Is a directory''), fs)
           else if stat fs (butlast p) \<noteq> Some FDir then (Inl not_found, fs)
           else (Inr (), fs_put p (FFile content) fs)))"

definition read_file :: "fs \<Rightarrow> string list \<Rightarrow> exn + string" where
  "read_file fs cs =
     res_bind (locate fs cs)
       (\<lambda>p. case stat fs p of
          None \<Rightarrow> Inl not_found
        | Some (FFile t) \<Rightarrow> Inr t
        | Some _ \<Rightarrow> Inl (OSError ''IsADirectoryError'' ''Is a directory''))"

text \<open>\<open>shutil.copytree\<close>: links of the source are replaced by what they lead to; an entry that cannot
  be copied does not stop the others, and one error is raised at the end. What is to be copied is read
  before anything is written (the program never copies a directory into itself).\<close>

definition follow_entry :: "fs \<Rightarrow> fpath \<Rightarrow> fs_node \<Rightarrow> fs_node option \<times> fpath option" where
  \<comment> \<open>what an entry is once links are followed (None: nothing to read), and the directory a link led to\<close>
  "follow_entry fs q node =
     (case node of
        FLink t \<Rightarrow>
          (case walk link_limit fs (link_start t (butlast q)) (path_parts t) of
             Inl e \<Rightarrow> (None, None)
           | Inr q' \<Rightarrow> (stat fs q', if stat fs q' = Some FDir then Some q' else None))
      | _ \<Rightarrow> (Some node, None))"

primrec expand :: "nat \<Rightarrow> fs \<Rightarrow> fpath \<Rightarrow> (fpath \<times> fs_node option) list" where
  \<comment> \<open>what lies below a directory, by path relative to it; at most the given number of directory
     links on one path\<close>
  "expand 0 fs src = []"
| "expand (Suc n) fs src =
     concat (List.map (\<lambda>(q, node).
       let r = drop (length src) q; (x, sub) = follow_entry fs q node in
       (r, x) # (case sub of None \<Rightarrow> [] | Some q' \<Rightarrow> List.map (\<lambda>(r', x'). (r @ r', x')) (expand n fs q')))
     (filter (\<lambda>(q, _). strict_prefix src q) fs))"

definition copy_entry :: "string list \<Rightarrow> fpath \<times> fs_node option \<Rightarrow> bool \<times> fs \<Rightarrow> bool \<times> fs" where
  \<comment> \<open>the flag says that an error was collected\<close>
  "copy_entry dst e s =
     (case snd e of
        Some FDir \<Rightarrow> (case mkdir_ok (dst @ fst e) (snd s) of (r, fs') \<Rightarrow> (fst s \<or> r \<noteq> Inr (), fs'))
      | Some (FFile t) \<Rightarrow> (case write_file (dst @ fst e) t (snd s) of (r, fs') \<Rightarrow> (fst s \<or> r \<noteq> Inr (), fs'))
      | _ \<Rightarrow> (True, snd s))"

definition copytree :: "string list \<Rightarrow> string list \<Rightarrow> fs \<Rightarrow> (exn + unit) \<times> fs" where
  \<comment> \<open>with \<open>dirs_exist_ok=True\<close>\<close>
  "copytree src dst fs =
     (case locate fs src of
        Inl e \<Rightarrow> (Inl e, fs)
      | Inr p \<Rightarrow>
          (if stat fs p \<noteq> Some FDir then (Inl (if stat fs p = None then not_found else not_a_directory), fs)
           else (case makedirs dst fs of
                   (Inl e, fs1) \<Rightarrow> (Inl e, fs1)
                 | (Inr _, fs1) \<Rightarrow>
                     (case fold (copy_entry dst) (expand link_limit fs p) (False, fs1) of
                        (bad, fs2) \<Rightarrow> (if bad then Inl (OSError ''Error'' ''copytree'') else Inr (), fs2)))))"

definition rmtree :: "fpath \<Rightarrow> fs \<Rightarrow> fs" where
  "rmtree p fs = fs_del p fs"

subsection \<open>Frames\<close>

lemma stat_root [simp]: "stat fs [] = Some FDir"
  by (simp add: stat_def)

lemma stat_put [simp]: "p \<noteq> [] \<Longrightarrow> stat (fs_put p n fs) q = (if q = p then Some n else stat fs q)"
  by (simp add: stat_def fs_put_def update_conv')

lemma map_of_filter_fst: "map_of (filter (\<lambda>(q, _). P q) fs) q = (if P q then map_of fs q else None)"
  by (induction fs) auto

lemma stat_del [simp]: "p \<noteq> [] \<Longrightarrow> stat (fs_del p fs) q = (if prefix p q then None else stat fs q)"
  using map_of_filter_fst [of "\<lambda>q. \<not> prefix p q" fs q] by (auto simp: stat_def fs_del_def)

text \<open>Operations that add: outside the given paths nothing changes, no link is made, directories
  stay, and a new entry has a proper name and a directory that holds it.\<close>

definition adds :: "(fpath \<Rightarrow> bool) \<Rightarrow> fs \<Rightarrow> fs \<Rightarrow> bool" where
  "adds A fs fs' \<longleftrightarrow>
     (\<forall>q. \<not> A q \<longrightarrow> stat fs' q = stat fs q)
     \<and> (\<forall>q t. stat fs' q = Some (FLink t) \<longrightarrow> stat fs q = Some (FLink t))
     \<and> (\<forall>q. stat fs q = Some FDir \<longrightarrow> stat fs' q = Some FDir)
     \<and> (\<forall>q. stat fs' q \<noteq> None \<longrightarrow> stat fs q = None \<longrightarrow> ''..'' \<notin> set q \<and> stat fs' (butlast q) = Some FDir)"

lemma adds_refl [simp]: "adds A fs fs"
  by (auto simp: adds_def)

lemma adds_trans: "adds A a b \<Longrightarrow> adds A b c \<Longrightarrow> adds A a c"
  unfolding adds_def by (elim conjE, intro conjI; metis)

lemma adds_mono: "adds A a b \<Longrightarrow> (\<And>q. A q \<Longrightarrow> B q) \<Longrightarrow> adds B a b"
  unfolding adds_def by blast

lemma adds_put: "p \<noteq> [] \<Longrightarrow> ''..'' \<notin> set p \<Longrightarrow> A p \<Longrightarrow> stat fs p \<noteq> Some FDir \<Longrightarrow> stat fs (butlast p) = Some FDir \<Longrightarrow> (\<And>t. n \<noteq> FLink t) \<Longrightarrow> adds A fs (fs_put p n fs)"
  by (auto simp: adds_def)

definition fs_tree :: "fs \<Rightarrow> bool" where
  \<comment> \<open>every entry has a proper name and lies in a directory\<close>
  "fs_tree fs \<longleftrightarrow> (\<forall>q. q \<noteq> [] \<longrightarrow> stat fs q \<noteq> None \<longrightarrow> ''..'' \<notin> set q \<and> stat fs (butlast q) = Some FDir)"

lemma fs_tree_adds:
  assumes "fs_tree fs" and "adds A fs fs'" shows "fs_tree fs'"
  unfolding fs_tree_def
proof (intro allI impI)
  fix q assume q: "q \<noteq> []" "stat fs' q \<noteq> None"
  show "''..'' \<notin> set q \<and> stat fs' (butlast q) = Some FDir"
  proof (cases "stat fs q = None")
    case True
    with q assms(2) show ?thesis by (auto simp: adds_def)
  next
    case False
    with assms(1) q(1) have "''..'' \<notin> set q \<and> stat fs (butlast q) = Some FDir" by (simp add: fs_tree_def)
    with assms(2) show ?thesis by (simp add: adds_def)
  qed
qed

lemma fs_tree_del: "fs_tree fs \<Longrightarrow> p \<noteq> [] \<Longrightarrow> fs_tree (fs_del p fs)"
  unfolding fs_tree_def by (auto split: if_splits) (meson prefix_order.trans prefixeq_butlast)

lemma fs_tree_prefix:
  assumes "fs_tree fs" and "stat fs q \<noteq> None" and "strict_prefix p q" shows "stat fs p = Some FDir"
  using assms(2,3)
proof (induction q rule: rev_induct)
  case (snoc c q)
  from snoc.prems(1) assms(1) have d: "stat fs q = Some FDir" unfolding fs_tree_def
    by (metis butlast_snoc snoc_eq_iff_butlast)
  from snoc.prems(2) have "p = q \<or> strict_prefix p q" by (auto simp: strict_prefix_def)
  with d snoc.IH show ?case by auto
qed simp

subsection \<open>Paths without links\<close>

definition unlinked :: "fpath \<Rightarrow> fs \<Rightarrow> bool" where
  \<comment> \<open>no link on the way to the path, nor below it, and no step up in it\<close>
  "unlinked d fs \<longleftrightarrow> ''..'' \<notin> set d \<and> (\<forall>q t. stat fs q = Some (FLink t) \<longrightarrow> \<not> prefix q d \<and> \<not> prefix d q)"

lemma unlinked_adds: "unlinked d fs \<Longrightarrow> adds A fs fs' \<Longrightarrow> unlinked d fs'"
  unfolding unlinked_def adds_def by blast

lemma walk_step:
  "c \<noteq> ''..'' \<Longrightarrow> (\<And>t. stat fs (cur @ [c]) \<noteq> Some (FLink t)) \<Longrightarrow> stat fs cur = Some FDir
     \<Longrightarrow> walk n fs cur (c # cs) = walk n fs (cur @ [c]) cs"
  by (auto simp: walk.simps(2) split: option.splits fs_node.splits)

lemma walk_plain:
  "walk n fs cur cs = Inr p \<Longrightarrow> ''..'' \<notin> set cs \<Longrightarrow> (\<And>q t. prefix q (cur @ cs) \<Longrightarrow> stat fs q \<noteq> Some (FLink t)) \<Longrightarrow> p = cur @ cs"
proof (induction cs arbitrary: cur)
  case (Cons c cs)
  have "stat fs (cur @ [c]) \<noteq> Some (FLink t)" for t using Cons.prems(3) [of "cur @ [c]" t] by simp
  moreover have "stat fs cur = Some FDir" using Cons.prems(1) by (auto simp: walk.simps(2) split: if_splits)
  moreover have "c \<noteq> ''..''" using Cons.prems(2) by auto
  ultimately have "walk n fs (cur @ [c]) cs = Inr p" using Cons.prems(1) walk_step [of c fs cur n cs] by simp
  from Cons.IH [OF this] Cons.prems(2,3) show ?case by simp
qed simp

lemma real_walk_step:
  "c \<noteq> ''..'' \<Longrightarrow> (\<And>t. stat fs (cur @ [c]) \<noteq> Some (FLink t)) \<Longrightarrow> real_walk n fs cur (c # cs) = real_walk n fs (cur @ [c]) cs"
  by (auto simp: real_walk.simps(2) split: option.splits fs_node.splits)

lemma real_walk_plain:
  "''..'' \<notin> set cs \<Longrightarrow> (\<And>q t. prefix q (cur @ cs) \<Longrightarrow> stat fs q \<noteq> Some (FLink t)) \<Longrightarrow> real_walk n fs cur cs = cur @ cs"
proof (induction cs arbitrary: cur)
  case (Cons c cs)
  have "stat fs (cur @ [c]) \<noteq> Some (FLink t)" for t using Cons.prems(2) [of "cur @ [c]" t] by simp
  moreover have "c \<noteq> ''..''" using Cons.prems(1) by auto
  ultimately have "real_walk n fs cur (c # cs) = real_walk n fs (cur @ [c]) cs" using real_walk_step [of c fs cur n cs] by simp
  also have "\<dots> = cur @ c # cs" using Cons.IH [of "cur @ [c]"] Cons.prems by simp
  finally show ?case .
qed simp

lemma unlinked_prefix: "unlinked d fs \<Longrightarrow> prefix q (d @ r) \<Longrightarrow> stat fs q \<noteq> Some (FLink t)"
  unfolding unlinked_def by (metis prefix_append prefix_def)

lemma unlinked_steps:
  assumes "unlinked d fs" and "prefix cs (d @ r)" and "''..'' \<notin> set r"
  shows "''..'' \<notin> set cs" and "\<And>q t. prefix q ([] @ cs) \<Longrightarrow> stat fs q \<noteq> Some (FLink t)"
proof -
  show "''..'' \<notin> set cs" using assms set_mono_prefix [OF assms(2)] by (auto simp: unlinked_def)
  show "stat fs q \<noteq> Some (FLink t)" if "prefix q ([] @ cs)" for q t
    using that unlinked_prefix [OF assms(1) prefix_order.trans [OF _ assms(2)]] by simp
qed

lemma locate_plain:
  assumes "unlinked d fs" and "prefix cs (d @ r)" and "''..'' \<notin> set r" and "locate fs cs = Inr p"
  shows "p = cs"
  using walk_plain [OF assms(4) [unfolded locate_def] unlinked_steps [OF assms(1-3)]] by simp

lemma realpath_plain:
  assumes "unlinked d fs" and "prefix cs (d @ r)" and "''..'' \<notin> set r"
  shows "realpath fs cs = cs"
  using real_walk_plain [of cs "[]" fs link_limit, OF unlinked_steps(1) [OF assms] unlinked_steps(2) [OF assms]]
  by (simp add: realpath_def)

subsection \<open>Operations on a path without links\<close>

lemma mkdir_adds:
  assumes u: "unlinked d fs" and cs: "prefix cs (d @ r)" "''..'' \<notin> set r" "cs \<noteq> []"
    and op: "mkdir cs fs = (x, fs')"
  shows "adds (\<lambda>q. q = cs) fs fs' \<and> (x = Inr () \<longrightarrow> stat fs' cs = Some FDir)"
proof (cases "locate fs (butlast cs)")
  case (Inl e)
  with op show ?thesis by (auto simp: mkdir_def)
next
  case (Inr p)
  have "prefix (butlast cs) (d @ r)" using cs(1) prefix_order.trans prefixeq_butlast by blast
  from locate_plain [OF u this cs(2) Inr] have p: "p = butlast cs" .
  have e: "butlast cs @ [last cs] = cs" using cs(3) by simp
  have "''..'' \<notin> set cs" using unlinked_steps(1) [OF u cs(1,2)] .
  then have "adds (\<lambda>q. q = cs) fs (fs_put cs FDir fs)" if "stat fs cs = None" "stat fs (butlast cs) = Some FDir"
    using that cs by (intro adds_put) auto
  with op Inr cs(3) show ?thesis by (auto simp: mkdir_def p e split: if_splits)
qed

lemma isdir_plain: "unlinked d fs \<Longrightarrow> prefix cs (d @ r) \<Longrightarrow> ''..'' \<notin> set r \<Longrightarrow> isdir fs cs \<Longrightarrow> stat fs cs = Some FDir"
  using locate_plain [of d fs cs r] by (auto simp: isdir_def stat_follow_def split: sum.splits)

lemma walk_dirs:
  "''..'' \<notin> set cs \<Longrightarrow> (\<And>q. strict_prefix q (cur @ cs) \<Longrightarrow> stat fs q = Some FDir) \<Longrightarrow> (\<And>t. stat fs (cur @ cs) \<noteq> Some (FLink t))
     \<Longrightarrow> walk n fs cur cs = Inr (cur @ cs)"
proof (induction cs arbitrary: cur)
  case (Cons c cs)
  have nl: "stat fs (cur @ [c]) \<noteq> Some (FLink t)" for t
    using Cons.prems(2) [of "cur @ [c]"] Cons.prems(3) by (cases cs) (auto simp: strict_prefix_def)
  have "stat fs cur = Some FDir" using Cons.prems(2) [of cur] by (simp add: strict_prefix_def)
  moreover have "c \<noteq> ''..''" using Cons.prems(1) by auto
  ultimately have "walk n fs cur (c # cs) = walk n fs (cur @ [c]) cs" using walk_step [of c fs cur n cs] nl by simp
  also have "\<dots> = Inr (cur @ c # cs)" using Cons.IH [of "cur @ [c]"] Cons.prems by simp
  finally show ?case .
qed simp

lemma locate_iff:
  assumes u: "unlinked d fs" and cs: "prefix cs (d @ r)" "''..'' \<notin> set r" and "fs_tree fs" and "stat fs cs \<noteq> None"
  shows "locate fs cs = Inr cs"
  unfolding locate_def
  using walk_dirs [of cs "[]" fs link_limit] unlinked_steps [OF u cs] fs_tree_prefix [OF assms(4,5)] by simp

lemma isdir_iff:
  assumes "unlinked d fs" and "prefix cs (d @ r)" "''..'' \<notin> set r" and "fs_tree fs"
  shows "isdir fs cs \<longleftrightarrow> stat fs cs = Some FDir"
  using isdir_plain [OF assms(1-3)] locate_iff [OF assms] by (auto simp: isdir_def stat_follow_def)

lemma mkdir_ok_adds:
  assumes "unlinked d fs" and "prefix cs (d @ r)" "''..'' \<notin> set r" "cs \<noteq> []" and "mkdir_ok cs fs = (x, fs')"
  shows "adds (\<lambda>q. q = cs) fs fs' \<and> (x = Inr () \<longrightarrow> stat fs' cs = Some FDir)"
  using assms(5) mkdir_adds [OF assms(1-4)] isdir_plain [OF assms(1-3)] by (auto simp: mkdir_ok_def split: if_splits)

definition above :: "fpath \<Rightarrow> fpath \<Rightarrow> bool" where
  "above p q \<longleftrightarrow> prefix q p \<and> q \<noteq> []"

lemma makedirs_from_adds:
  assumes "makedirs_from done_cs cs' fs = (x, fs')" and "prefix (done_cs @ cs') (d @ r)" "''..'' \<notin> set r" and "unlinked d fs"
  shows "adds (above (done_cs @ cs')) fs fs' \<and> (x = Inr () \<longrightarrow> cs' \<noteq> [] \<longrightarrow> stat fs' (done_cs @ cs') = Some FDir)"
  using assms(1,2,4)
proof (induction cs' arbitrary: done_cs fs)
  case (Cons c cs)
  let ?p = "done_cs @ [c]" and ?A = "above (done_cs @ c # cs)"
  have ih: "adds ?A fs1 fs' \<and> (x = Inr () \<longrightarrow> cs \<noteq> [] \<longrightarrow> stat fs' (done_cs @ c # cs) = Some FDir)"
    if "makedirs_from ?p cs fs1 = (x, fs')" "unlinked d fs1" for fs1
    using Cons.IH [OF that(1) _ that(2)] Cons.prems(2) by simp
  have pre: "prefix ?p (d @ r)" using Cons.prems(2) prefix_order.trans [of ?p "done_cs @ c # cs"] by (simp add: prefix_def)
  obtain y fs1 where one: "mkdir_ok ?p fs = (y, fs1)" by fastforce
  from mkdir_ok_adds [OF Cons.prems(3) pre assms(3) _ one]
  have a: "adds (\<lambda>q. q = ?p) fs fs1" "y = Inr () \<longrightarrow> stat fs1 ?p = Some FDir" by simp_all
  from a(1) have a1: "adds ?A fs fs1" by (rule adds_mono) (simp add: above_def prefix_def)
  note u1 = unlinked_adds [OF Cons.prems(3) a1]
  show ?case
  proof (cases "makedirs_from ?p cs fs1 = (x, fs') \<and> (cs = [] \<longrightarrow> y = Inr ())")
    case True
    with ih [of fs1] u1 adds_trans [OF a1] a(2) show ?thesis by (cases cs) auto
  next
    case False
    with Cons.prems(1) one ih [of fs] Cons.prems(3) a1 show ?thesis by (auto split: if_splits sum.splits)
  qed
qed simp

lemma makedirs_adds:
  assumes "unlinked d fs" and "prefix cs (d @ r)" "''..'' \<notin> set r" and "makedirs cs fs = (x, fs')"
  shows "adds (above cs) fs fs' \<and> (x = Inr () \<longrightarrow> stat fs' cs = Some FDir)"
  using makedirs_from_adds [of "[]" cs fs x fs' d r] assms by (cases cs) (auto simp: makedirs_def)

lemma write_adds:
  assumes u: "unlinked d fs" and cs: "prefix cs (d @ r)" "''..'' \<notin> set r" "cs \<noteq> []"
    and op: "write_file cs t fs = (x, fs')"
  shows "adds (\<lambda>q. q = cs) fs fs' \<and> (x = Inr () \<longrightarrow> stat fs' cs = Some (FFile t))"
proof (cases "locate fs cs")
  case (Inl e)
  with op show ?thesis by (auto simp: write_file_def)
next
  case (Inr p)
  from locate_plain [OF u cs(1,2) Inr] have p: "p = cs" .
  have "''..'' \<notin> set cs" using unlinked_steps(1) [OF u cs(1,2)] .
  then have "adds (\<lambda>q. q = cs) fs (fs_put cs (FFile t) fs)" if "stat fs cs \<noteq> Some FDir" "stat fs (butlast cs) = Some FDir"
    using that cs by (intro adds_put) auto
  with op Inr cs(3) show ?thesis by (auto simp: write_file_def p split: if_splits)
qed

lemma fs_tree_drop:
  assumes "fs_tree fs" and "(q, node) \<in> set fs" shows "''..'' \<notin> set (drop k q)"
proof (cases "q = []")
  case False
  from assms(2) have "map_of fs q \<noteq> None" by (metis map_of_eq_None_iff fst_conv image_eqI)
  with assms(1) False have "''..'' \<notin> set q" by (auto simp: fs_tree_def stat_def)
  then show ?thesis by (meson in_set_dropD)
qed simp

lemma expand_names: "fs_tree fs \<Longrightarrow> (r, x) \<in> set (expand n fs p) \<Longrightarrow> ''..'' \<notin> set r"
proof (induction n arbitrary: p r x)
  case (Suc n)
  from Suc.prems(2) obtain q node where q: "(q, node) \<in> set fs"
    and r: "r = drop (length p) q \<or> (\<exists>r' q'. r = drop (length p) q @ r' \<and> (r', x) \<in> set (expand n fs q'))"
    by (fastforce simp: Let_def split: prod.splits option.splits)
  with fs_tree_drop [OF Suc.prems(1) q] Suc.IH [OF Suc.prems(1)] show ?case by auto
qed simp

definition below :: "fpath \<Rightarrow> fpath \<Rightarrow> bool" where
  "below p q \<longleftrightarrow> prefix p q"

lemma copy_entry_adds:
  assumes "unlinked d fs" and "prefix d dst" "''..'' \<notin> set dst" "dst \<noteq> []" and "''..'' \<notin> set (fst e)"
    and "copy_entry dst e (b, fs) = (b', fs')"
  shows "adds (below dst) fs fs'"
proof -
  obtain rel x where e: "e = (rel, x)" by fastforce
  obtain k where dst: "dst = d @ k" using assms(2) by (auto simp: prefix_def)
  have k: "prefix (dst @ rel) (d @ (k @ rel))" "''..'' \<notin> set (k @ rel)" "dst @ rel \<noteq> []"
    using assms(3-5) by (auto simp: e dst)
  have m: "adds (below dst) fs fs1" if "adds (\<lambda>q. q = dst @ rel) fs fs1" for fs1
    using that by (rule adds_mono) (simp add: below_def)
  show ?thesis
  proof (cases "x = Some FDir \<or> (\<exists>t. x = Some (FFile t))")
    case True
    obtain y fs1 where d: "mkdir_ok (dst @ rel) fs = (y, fs1)" by fastforce
    obtain z fs2 where w: "write_file (dst @ rel) (case x of Some (FFile t) \<Rightarrow> t | _ \<Rightarrow> '''') fs = (z, fs2)" by fastforce
    from True assms(6) d w m mkdir_ok_adds [OF assms(1) k d] write_adds [OF assms(1) k w] show ?thesis
      by (auto simp: copy_entry_def e)
  next
    case False
    with assms(6) show ?thesis by (auto simp: copy_entry_def e split: option.splits fs_node.splits)
  qed
qed

lemma copy_entries_adds:
  assumes "unlinked d fs" and "prefix d dst" "''..'' \<notin> set dst" "dst \<noteq> []" and "\<forall>e \<in> set es. ''..'' \<notin> set (fst e)"
  shows "adds (below dst) fs (snd (fold (copy_entry dst) es (b, fs)))"
  using assms(1,5)
proof (induction es arbitrary: b fs)
  case (Cons e es)
  obtain b' fs1 where one: "copy_entry dst e (b, fs) = (b', fs1)" by fastforce
  from copy_entry_adds [OF Cons.prems(1) assms(2-4) _ one] Cons.prems(2) have a: "adds (below dst) fs fs1" by simp
  from adds_trans [OF a Cons.IH [OF unlinked_adds [OF Cons.prems(1) a]]] Cons.prems(2) one show ?case by simp
qed simp

lemma copytree_adds:
  assumes u: "unlinked d fs" and n: "fs_tree fs" and dst: "prefix d dst" "''..'' \<notin> set dst" "dst \<noteq> []"
    and op: "copytree src dst fs = (x, fs')"
  shows "adds (\<lambda>q. above dst q \<or> below dst q) fs fs' \<and> (x = Inr () \<longrightarrow> stat fs' dst = Some FDir)"
proof -
  let ?A = "\<lambda>q. above dst q \<or> below dst q"
  obtain k where k: "dst = d @ k" using dst(1) by (auto simp: prefix_def)
  have pre: "prefix dst (d @ k)" "''..'' \<notin> set k" using dst(2) by (auto simp: k)
  obtain y fs1 where m: "makedirs dst fs = (y, fs1)" by fastforce
  from makedirs_adds [OF u pre m] have a: "adds (above dst) fs fs1" "y = Inr () \<longrightarrow> stat fs1 dst = Some FDir" by simp_all
  have a1: "adds ?A fs fs1" using a(1) by (rule adds_mono) simp
  have all: "adds ?A fs fs2 \<and> (y = Inr () \<longrightarrow> stat fs2 dst = Some FDir)"
    if "fold (copy_entry dst) (expand link_limit fs p) (False, fs1) = (b, fs2)" for p b fs2
  proof -
    have names: "\<forall>e \<in> set (expand link_limit fs p). ''..'' \<notin> set (fst e)"
      using expand_names [OF n, of _ _ link_limit p] by fastforce
    from copy_entries_adds [OF unlinked_adds [OF u a(1)] dst names, of False] that
    have f: "adds (below dst) fs1 fs2" by simp
    have "adds ?A fs1 fs2" using f by (rule adds_mono) simp
    note adds_trans [OF a1 this]
    moreover have "y = Inr () \<longrightarrow> stat fs2 dst = Some FDir" using a(2) f by (simp add: adds_def)
    ultimately show ?thesis ..
  qed
  show ?thesis
  proof (cases "locate fs src")
    case (Inl e)
    with op show ?thesis by (auto simp: copytree_def)
  next
    case (Inr p)
    obtain b fs2 where f: "fold (copy_entry dst) (expand link_limit fs p) (False, fs1) = (b, fs2)" by fastforce
    from all [OF f] a1 op Inr f m show ?thesis by (cases y) (auto simp: copytree_def split: if_splits)
  qed
qed

subsection \<open>Errors\<close>

fun is_oserror :: "exn \<Rightarrow> bool" where
  "is_oserror (OSError c m) = True"
| "is_oserror _ = False"

named_theorems os_errors

lemma walk_oserror [os_errors]: "walk n fs cur cs = Inl e \<Longrightarrow> is_oserror e"
  by (induction n fs cur cs rule: walk.induct)
    (auto simp: walk.simps(2) not_found_def not_a_directory_def link_loop_def split: if_splits option.splits fs_node.splits nat.splits)

lemma mkdir_oserror [os_errors]: "mkdir_ok cs fs = (Inl e, fs') \<Longrightarrow> is_oserror e"
  by (auto simp: mkdir_ok_def mkdir_def locate_def not_found_def not_a_directory_def dest: walk_oserror split: if_splits sum.splits)

lemma makedirs_from_oserror: "makedirs_from d cs fs = (Inl e, fs') \<Longrightarrow> is_oserror e"
  by (induction d cs fs rule: makedirs_from.induct) (auto dest: mkdir_oserror split: if_splits sum.splits prod.splits)

lemma makedirs_oserror [os_errors]: "makedirs cs fs = (Inl e, fs') \<Longrightarrow> is_oserror e"
  by (simp add: makedirs_def makedirs_from_oserror)

lemma write_oserror [os_errors]: "write_file cs t fs = (Inl e, fs') \<Longrightarrow> is_oserror e"
  by (auto simp: write_file_def locate_def not_found_def dest: walk_oserror split: if_splits sum.splits)

lemma read_oserror [os_errors]:
  assumes "read_file fs cs = Inl e" shows "is_oserror e"
proof (cases "locate fs cs")
  case (Inl e')
  with assms walk_oserror [of link_limit fs "[]" cs e'] show ?thesis by (simp add: read_file_def locate_def)
next
  case (Inr p)
  with assms show ?thesis by (cases "stat fs p") (auto simp: read_file_def not_found_def split: fs_node.splits)
qed

lemma copytree_oserror [os_errors]: "copytree src dst fs = (Inl e, fs') \<Longrightarrow> is_oserror e"
  by (auto simp: copytree_def locate_def not_found_def not_a_directory_def dest: walk_oserror makedirs_oserror
      split: if_splits sum.splits prod.splits)

end
