(* ===== verification/Skills.thy ===== *)
theory Skills
  imports Filesystem Identity Decoded "HOL-Library.Char_ord" "HOL-Library.List_Lexorder"
begin

section \<open>Skills\<close>

text \<open>
  \<open>engine/skills\<close>: the check of names, the source over a local directory, and the provisioner that
  copies the permitted skills of a workspace under its directory and keeps a manifest of what it
  manages. A source is a record of operations on the file system; the locale \<open>skill_source\<close> states
  what the provisioner needs of one.
\<close>

subsection \<open>Sources\<close>

definition validate_skill_name :: "string \<Rightarrow> exn + unit" where
  \<comment> \<open>the class is the one of workspace ids\<close>
  "validate_skill_name name =
     (if name = ''.'' \<or> name = ''..'' \<or> \<not> (name \<noteq> [] \<and> list_all is_id_char name) then Inl (InvalidSkillName name)
      else Inr ())"

record skill_source_ops =
  so_has_skill :: "string \<Rightarrow> fs \<Rightarrow> bool"
  so_has_dir :: "string \<Rightarrow> fs \<Rightarrow> bool"
  so_skill_dir :: "string \<Rightarrow> fs \<Rightarrow> exn + string"

locale skill_source =
  fixes S :: skill_source_ops
  assumes has_skill_valid: "so_has_skill S name fs \<Longrightarrow> validate_skill_name name = Inr ()"
    and has_dir_valid: "so_has_dir S name fs \<Longrightarrow> validate_skill_name name = Inr ()"
    and has_skill_dir: "so_has_skill S name fs \<Longrightarrow> so_has_dir S name fs"
    and skill_dir_has: "(\<exists>p. so_skill_dir S name fs = Inr p) \<longleftrightarrow> so_has_skill S name fs"
    and skill_dir_error: "so_skill_dir S name fs = Inl e \<Longrightarrow>
      e = (if validate_skill_name name = Inr () then SkillNotFound name else InvalidSkillName name)"

definition local_has_skill :: "string \<Rightarrow> string \<Rightarrow> fs \<Rightarrow> bool" where
  "local_has_skill dir name fs \<longleftrightarrow>
     validate_skill_name name = Inr ()
     \<and> isdir fs (path_parts (path_join dir name)) \<and> isfile fs (path_parts (path_join (path_join dir name) ''SKILL.md''))"

definition local_has_dir :: "string \<Rightarrow> string \<Rightarrow> fs \<Rightarrow> bool" where
  "local_has_dir dir name fs \<longleftrightarrow> validate_skill_name name = Inr () \<and> isdir fs (path_parts (path_join dir name))"

definition local_skill_dir :: "string \<Rightarrow> string \<Rightarrow> fs \<Rightarrow> exn + string" where
  "local_skill_dir dir name fs =
     res_bind (validate_skill_name name)
       (\<lambda>_. let path = path_join dir name in
            if \<not> (isdir fs (path_parts path) \<and> isfile fs (path_parts (path_join path ''SKILL.md''))) then Inl (SkillNotFound name)
            else Inr path)"

definition local_source :: "string \<Rightarrow> skill_source_ops" where
  \<comment> \<open>\<open>LocalDirSkillSource(root)\<close>\<close>
  "local_source dir =
     \<lparr>so_has_skill = local_has_skill dir, so_has_dir = local_has_dir dir, so_skill_dir = local_skill_dir dir\<rparr>"

lemma local_source_sel [simp]:
  "so_has_skill (local_source dir) = local_has_skill dir" "so_has_dir (local_source dir) = local_has_dir dir"
  "so_skill_dir (local_source dir) = local_skill_dir dir"
  by (simp_all add: local_source_def)

lemma validate_Inl: "validate_skill_name n = Inl e \<Longrightarrow> e = InvalidSkillName n"
  by (auto simp: validate_skill_name_def split: if_splits)

lemma valid_nameD: "validate_skill_name n = Inr () \<Longrightarrow> n \<noteq> [] \<and> n \<noteq> ''.'' \<and> n \<noteq> ''..'' \<and> CHR ''/'' \<notin> set n"
  using id_char_not_slash by (auto simp: validate_skill_name_def split: if_splits)

interpretation localsrc: skill_source "local_source dir"
  by unfold_locales
    (auto simp: local_has_skill_def local_has_dir_def local_skill_dir_def Let_def split: if_splits dest: validate_Inl)

subsection \<open>The manifest\<close>

definition DEFAULT_SKILLS_SUBDIR :: string where
  "DEFAULT_SKILLS_SUBDIR = path_join ''.agents'' ''skills''"

definition MANIFEST_FILE :: string where
  "MANIFEST_FILE = ''.claw_provisioned.json''"

definition quoted :: "string \<Rightarrow> string" where
  "quoted s = [char_of (34 :: nat)] @ s @ [char_of (34 :: nat)]"

definition manifest_text :: "string list \<Rightarrow> string" where
  \<comment> \<open>\<open>json.dump\<close> of the version and the names, which need no escape\<close>
  "manifest_text names =
     ''{'' @ quoted ''version'' @ '': 1, '' @ quoted ''managed'' @ '': ['' @ join_with '', '' (List.map quoted names) @ '']}''"

definition name_set :: "string list \<Rightarrow> string list" where
  \<comment> \<open>\<open>sorted(set(names))\<close>\<close>
  "name_set names = sort (remdups names)"

fun py_iter :: "pyv \<Rightarrow> exn + pyv list" where
  \<comment> \<open>what \<open>for x in v\<close> goes over\<close>
  "py_iter (PList xs) = Inr xs"
| "py_iter (PStr s) = Inr (List.map (\<lambda>c. PStr [c]) s)"
| "py_iter (PDict kvs) = Inr (List.map (\<lambda>kv. PStr (fst kv)) kvs)"
| "py_iter v = Inl (TypeError (repr_str (type_name v) @ '' object is not iterable''))"

fun managed_name :: "pyv \<Rightarrow> string list" where
  \<comment> \<open>an entry that is no string or no valid name is dropped\<close>
  "managed_name (PStr s) = (if validate_skill_name s = Inr () then [s] else [])"
| "managed_name v = []"

definition managed_of :: "pyv \<Rightarrow> exn + string list" where
  "managed_of data =
     (case data of
        PDict d \<Rightarrow>
          (case dict_get d ''managed'' of
             None \<Rightarrow> Inr []
           | Some v \<Rightarrow> res_bind (py_iter v) (\<lambda>xs. Inr (concat (List.map managed_name xs))))
      | _ \<Rightarrow> res_bind (py_get data ''managed'') (\<lambda>_. Inr []))"

text \<open>The content of a file is the list of its bytes, each as the character of that code. A manifest is
  opened with \<open>encoding="utf-8"\<close>, which rejects bytes that are no well-formed UTF-8; the parser of the
  decoded text is \<open>loads\<close>, here a function of the bytes that encode it.\<close>

definition utf8_lead :: "nat \<Rightarrow> (nat \<times> nat) list option" where
  \<comment> \<open>the ranges of the bytes that must follow a first byte; None when it can start no character\<close>
  "utf8_lead b =
     (let c = (128, 191) in
      if b < 128 then Some []
      else if 194 \<le> b \<and> b \<le> 223 then Some [c]
      else if b = 224 then Some [(160, 191), c]
      else if b = 237 then Some [(128, 159), c]
      else if 225 \<le> b \<and> b \<le> 239 then Some [c, c]
      else if b = 240 then Some [(144, 191), c, c]
      else if 241 \<le> b \<and> b \<le> 243 then Some [c, c, c]
      else if b = 244 then Some [(128, 143), c, c]
      else None)"

fun utf8_from :: "(nat \<times> nat) list \<Rightarrow> string \<Rightarrow> bool" where
  \<comment> \<open>well-formed after a character of which the given bytes are still to come\<close>
  "utf8_from pending [] = (pending = [])"
| "utf8_from [] (b # bs) = (case utf8_lead (code b) of None \<Rightarrow> False | Some p \<Rightarrow> utf8_from p bs)"
| "utf8_from ((lo, hi) # p) (b # bs) = (lo \<le> code b \<and> code b \<le> hi \<and> utf8_from p bs)"

definition load_manifest :: "json_loads \<Rightarrow> string \<Rightarrow> exn + string list" where
  \<comment> \<open>\<open>json.load(f)\<close> and the loop over its entries; the text of the decoding error is shortened\<close>
  "load_manifest loads bytes =
     (if \<not> utf8_from [] bytes then Inl (OtherError ''UnicodeDecodeError'' (repr_str ''utf-8'' @ '' codec cannot decode the manifest''))
      else (case loads bytes of
              Inl t \<Rightarrow> Inr []
            | Inr data \<Rightarrow> managed_of data))"

definition read_manifest :: "json_loads \<Rightarrow> string \<Rightarrow> fs \<Rightarrow> exn + string list" where
  \<comment> \<open>of the exceptions only FileNotFoundError and JSONDecodeError are caught\<close>
  "read_manifest loads dest fs =
     (case read_file fs (path_parts (path_join dest MANIFEST_FILE)) of
        Inl e \<Rightarrow> (if exn_type e = ''FileNotFoundError'' then Inr [] else Inl e)
      | Inr bytes \<Rightarrow> load_manifest loads bytes)"

definition write_manifest :: "string \<Rightarrow> string list \<Rightarrow> fs \<Rightarrow> (exn + unit) \<times> fs" where
  "write_manifest dest names fs = write_file (path_parts (path_join dest MANIFEST_FILE)) (manifest_text (name_set names)) fs"

subsection \<open>SkillProvisioner\<close>

record provision_result =
  pv_provisioned :: "string list"
  pv_denied :: "string list"
  pv_missing :: "string list"
  pv_invalid :: "string list"
  pv_revoked :: "string list"

definition empty_result :: provision_result where
  "empty_result = \<lparr>pv_provisioned = [], pv_denied = [], pv_missing = [], pv_invalid = [], pv_revoked = []\<rparr>"

definition provision_one :: "skill_source_ops \<Rightarrow> identity_ops \<Rightarrow> string \<Rightarrow> string \<Rightarrow> user \<Rightarrow> string
    \<Rightarrow> provision_result \<times> fs \<Rightarrow> (exn + provision_result) \<times> fs" where
  "provision_one S I dest ws u skill s =
     (let res = fst s; fs = snd s in
      if validate_skill_name skill \<noteq> Inr () then (Inr (res\<lparr>pv_invalid := pv_invalid res @ [skill]\<rparr>), fs)
      else if \<not> ip_can_use_skill I u ws skill then (Inr (res\<lparr>pv_denied := pv_denied res @ [skill]\<rparr>), fs)
      else if \<not> so_has_skill S skill fs
      then (if so_has_dir S skill fs then (Inr (res\<lparr>pv_invalid := pv_invalid res @ [skill]\<rparr>), fs)
            else (Inr (res\<lparr>pv_missing := pv_missing res @ [skill]\<rparr>), fs))
      else (case so_skill_dir S skill fs of
              Inl e \<Rightarrow> (Inl e, fs)
            | Inr src \<Rightarrow>
                (case copytree (path_parts src) (path_parts (path_join dest skill)) fs of
                   (Inl e, fs') \<Rightarrow> (Inl e, fs')
                 | (Inr _, fs') \<Rightarrow> (Inr (res\<lparr>pv_provisioned := pv_provisioned res @ [skill]\<rparr>), fs'))))"

fun provision_all :: "skill_source_ops \<Rightarrow> identity_ops \<Rightarrow> string \<Rightarrow> string \<Rightarrow> user \<Rightarrow> string list
    \<Rightarrow> provision_result \<times> fs \<Rightarrow> (exn + provision_result) \<times> fs" where
  "provision_all S I dest ws u [] s = (Inr (fst s), snd s)"
| "provision_all S I dest ws u (skill # skills) s =
     (case provision_one S I dest ws u skill s of
        (Inl e, fs) \<Rightarrow> (Inl e, fs)
      | (Inr res, fs) \<Rightarrow> provision_all S I dest ws u skills (res, fs))"

definition revoke_one :: "string \<Rightarrow> fpath \<Rightarrow> string \<Rightarrow> string list \<times> fs \<Rightarrow> string list \<times> fs" where
  \<comment> \<open>remove a skill that is managed no more, if its real path lies below the destination\<close>
  "revoke_one dest dest_real skill s =
     (let target_real = realpath (snd s) (path_parts (path_join dest skill)) in
      if \<not> prefix dest_real target_real \<or> target_real = dest_real then s
      else if isdir (snd s) target_real then (fst s @ [skill], rmtree target_real (snd s))
      else s)"

definition provision :: "json_loads \<Rightarrow> skill_source_ops \<Rightarrow> identity_ops \<Rightarrow> string \<Rightarrow> resolved_workspace \<Rightarrow> user
    \<Rightarrow> fs \<Rightarrow> (exn + provision_result) \<times> fs" where
  "provision loads S I subdir ws u fs =
     (let dest = path_join (rw_cwd ws) subdir in
      case makedirs (path_parts dest) fs of
        (Inl e, fs1) \<Rightarrow> (Inl e, fs1)
      | (Inr _, fs1) \<Rightarrow>
          (case read_manifest loads dest fs1 of
             Inl e \<Rightarrow> (Inl e, fs1)
           | Inr managed \<Rightarrow>
               (case provision_all S I dest (rw_workspace_id ws) u (rw_allowed_skills ws) (empty_result, fs1) of
                  (Inl e, fs2) \<Rightarrow> (Inl e, fs2)
                | (Inr res, fs2) \<Rightarrow>
                    (let (revoked, fs3) = fold (revoke_one dest (realpath fs2 (path_parts dest)))
                           (name_set (filter (\<lambda>s. s \<notin> set (pv_provisioned res)) managed)) ([], fs2)
                     in case write_manifest dest (pv_provisioned res) fs3 of
                          (Inl e, fs4) \<Rightarrow> (Inl e, fs4)
                        | (Inr _, fs4) \<Rightarrow> (Inr (res\<lparr>pv_revoked := revoked\<rparr>), fs4)))))"

end
