(* ===== verification/Skill_Properties.thy ===== *)
theory Skill_Properties
  imports Skills "HOL-Library.Multiset"
begin

section \<open>What provisioning does to the disk\<close>

text \<open>
  The properties of \<open>SkillProvisioner.provision\<close>. They are proved for a destination without links
  (\<open>unlinked\<close>) in a file system whose entries have parents (\<open>fs_tree\<close>); \<open>provision_follows_link\<close> shows
  what a link inside the destination leads to. The lemmas of the locale \<open>skill_source\<close> hold for any
  source that keeps its contract.
\<close>

abbreviation dest_parts :: "resolved_workspace \<Rightarrow> string \<Rightarrow> fpath" where
  "dest_parts w subdir \<equiv> path_parts (path_join (rw_cwd w) subdir)"

abbreviation valid_name :: "string \<Rightarrow> bool" where
  "valid_name s \<equiv> validate_skill_name s = Inr ()"

abbreviation permitted :: "identity_ops \<Rightarrow> user \<Rightarrow> string \<Rightarrow> string \<Rightarrow> bool" where
  "permitted I u ws s \<equiv> valid_name s \<and> ip_can_use_skill I u ws s"

subsection \<open>Paths below the destination\<close>

lemma skill_parts:
  "valid_name s \<Longrightarrow> path_parts (path_join dest s) = path_parts dest @ [s]"
  using valid_nameD path_parts_join by blast

lemma manifest_valid: "valid_name MANIFEST_FILE"
  by (simp add: MANIFEST_FILE_def validate_skill_name_def is_id_char_def is_alpha_def is_digit_def code_def)

lemma name_set_set [simp]: "set (name_set xs) = set xs" "distinct (name_set xs)"
  by (simp_all add: name_set_def)

text \<open>What one step of provisioning leaves unchanged.\<close>

definition grown :: "fpath \<Rightarrow> string set \<Rightarrow> fs \<Rightarrow> fs \<Rightarrow> bool" where
  "grown D N fs fs' \<longleftrightarrow> adds (\<lambda>q. above D q \<or> (\<exists>s \<in> N. below (D @ [s]) q)) fs fs'"

lemma grown_refl [simp]: "grown D N fs fs"
  by (simp add: grown_def)

lemma grown_trans: "grown D N a b \<Longrightarrow> grown D M b c \<Longrightarrow> grown D (N \<union> M) a c"
  unfolding grown_def by (rule adds_trans) (auto elim: adds_mono)

lemma above_snoc: "above (D @ [s]) q \<longleftrightarrow> above D q \<or> q = D @ [s]"
  by (auto simp: above_def)

lemma grown_copytree:
  assumes "unlinked D fs" "fs_tree fs" "valid_name s" and "copytree src (D @ [s]) fs = (x, fs')"
  shows "grown D {s} fs fs'" and "x = Inr () \<Longrightarrow> stat fs' (D @ [s]) = Some FDir"
proof -
  have "''..'' \<notin> set (D @ [s])" using assms(1) valid_nameD [OF assms(3)] by (auto simp: unlinked_def)
  from copytree_adds [OF assms(1,2) _ this _ assms(4)]
  have c: "adds (\<lambda>q. above (D @ [s]) q \<or> below (D @ [s]) q) fs fs'" "x = Inr () \<longrightarrow> stat fs' (D @ [s]) = Some FDir"
    by simp_all
  show "grown D {s} fs fs'" unfolding grown_def using c(1)
    by (rule adds_mono) (auto simp: above_snoc below_def)
  show "x = Inr () \<Longrightarrow> stat fs' (D @ [s]) = Some FDir" using c(2) by simp
qed

lemma grown_inv: "unlinked D fs \<Longrightarrow> fs_tree fs \<Longrightarrow> grown D N fs fs' \<Longrightarrow> unlinked D fs' \<and> fs_tree fs'"
  unfolding grown_def using unlinked_adds fs_tree_adds by blast

subsection \<open>The loop over the allowed skills\<close>

text \<open>How one loop over \<open>skills\<close> extends the result.\<close>

definition sorted_into :: "identity_ops \<Rightarrow> user \<Rightarrow> string \<Rightarrow> string list \<Rightarrow> provision_result \<Rightarrow> provision_result \<Rightarrow> bool" where
  "sorted_into I u ws skills r r' \<longleftrightarrow>
     (\<exists>p i m. pv_provisioned r' = pv_provisioned r @ p \<and> pv_invalid r' = pv_invalid r @ i \<and> pv_missing r' = pv_missing r @ m
        \<and> pv_denied r' = pv_denied r @ filter (\<lambda>s. valid_name s \<and> \<not> ip_can_use_skill I u ws s) skills
        \<and> mset skills = mset p + mset i + mset m + mset (filter (\<lambda>s. valid_name s \<and> \<not> ip_can_use_skill I u ws s) skills)
        \<and> (\<forall>s \<in> set p \<union> set m. permitted I u ws s) \<and> (\<forall>s \<in> set i. valid_name s \<longrightarrow> ip_can_use_skill I u ws s))"

lemma sorted_into_Nil [simp]: "sorted_into I u ws [] r r"
  by (simp add: sorted_into_def)

lemma sorted_into_Cons:
  assumes "sorted_into I u ws [s] r r1" and "sorted_into I u ws ss r1 r2" shows "sorted_into I u ws (s # ss) r r2"
proof -
  let ?d = "filter (\<lambda>s. valid_name s \<and> \<not> ip_can_use_skill I u ws s)"
  from assms(1) obtain p i m where 1: "pv_provisioned r1 = pv_provisioned r @ p" "pv_invalid r1 = pv_invalid r @ i"
      "pv_missing r1 = pv_missing r @ m" "pv_denied r1 = pv_denied r @ ?d [s]" "mset [s] = mset p + mset i + mset m + mset (?d [s])"
      "\<forall>s \<in> set p \<union> set m. permitted I u ws s" "\<forall>s \<in> set i. valid_name s \<longrightarrow> ip_can_use_skill I u ws s"
    unfolding sorted_into_def by blast
  from assms(2) obtain p' i' m' where 2: "pv_provisioned r2 = pv_provisioned r1 @ p'" "pv_invalid r2 = pv_invalid r1 @ i'"
      "pv_missing r2 = pv_missing r1 @ m'" "pv_denied r2 = pv_denied r1 @ ?d ss" "mset ss = mset p' + mset i' + mset m' + mset (?d ss)"
      "\<forall>s \<in> set p' \<union> set m'. permitted I u ws s" "\<forall>s \<in> set i'. valid_name s \<longrightarrow> ip_can_use_skill I u ws s"
    unfolding sorted_into_def by blast
  have m: "mset (s # ss) = mset (p @ p') + mset (i @ i') + mset (m @ m') + mset (?d (s # ss))"
  proof -
    have "mset (s # ss) = mset [s] + mset ss" by simp
    also have "\<dots> = (mset p + mset i + mset m + mset (?d [s])) + (mset p' + mset i' + mset m' + mset (?d ss))"
      unfolding 1(5) 2(5) ..
    moreover have "mset (?d (s # ss)) = mset (?d [s]) + mset (?d ss)" by simp
    ultimately show ?thesis by (simp add: ac_simps)
  qed
  show ?thesis unfolding sorted_into_def
    by (rule exI [of _ "p @ p'"], rule exI [of _ "i @ i'"], rule exI [of _ "m @ m'"]) (use 1(1-4,6,7) 2(1-4,6,7) m in auto)
qed

lemma sorted_into_provisioned:
  "sorted_into I u ws skills empty_result r \<Longrightarrow> s \<in> set (pv_provisioned r) \<Longrightarrow> s \<in> set skills \<and> permitted I u ws s"
  unfolding sorted_into_def empty_result_def by simp (metis set_mset_mset set_mset_union UnI1 Un_iff)

definition step_facts :: "identity_ops \<Rightarrow> user \<Rightarrow> string \<Rightarrow> fpath \<Rightarrow> string list \<Rightarrow> provision_result \<Rightarrow> fs
    \<Rightarrow> exn + provision_result \<Rightarrow> fs \<Rightarrow> bool" where
  \<comment> \<open>what holds after going over \<open>skills\<close>\<close>
  "step_facts I u ws D skills r fs x fs' \<longleftrightarrow>
     grown D (set (filter (permitted I u ws) skills)) fs fs'
     \<and> (case x of
          Inl e \<Rightarrow> is_oserror e
        | Inr r' \<Rightarrow> sorted_into I u ws skills r r' \<and> pv_revoked r' = pv_revoked r
            \<and> (\<forall>t \<in> set (pv_provisioned r') - set (pv_provisioned r). stat fs' (D @ [t]) = Some FDir))"

context skill_source
begin

lemma one:
  assumes op: "provision_one S I dest ws u s (r, fs) = (x, fs')" and u: "unlinked (path_parts dest) fs" "fs_tree fs"
  shows "step_facts I u ws (path_parts dest) [s] r fs x fs'"
proof (cases "permitted I u ws s \<and> so_has_skill S s fs")
  case False
  with op has_skill_valid show ?thesis
    by (auto simp: provision_one_def step_facts_def sorted_into_def Let_def split: if_splits)
next
  case True
  then obtain src where src: "so_skill_dir S s fs = Inr src" using skill_dir_has by blast
  obtain y fs1 where c: "copytree (path_parts src) (path_parts dest @ [s]) fs = (y, fs1)" by fastforce
  from True have p: "permitted I u ws s" and v: "valid_name s" by simp_all
  from op True src c skill_parts [OF v, of dest]
  have x: "fs' = fs1" "x = (case y of Inl e \<Rightarrow> Inl e | Inr _ \<Rightarrow> Inr (r\<lparr>pv_provisioned := pv_provisioned r @ [s]\<rparr>))"
    by (auto simp: provision_one_def split: sum.splits)
  note g = grown_copytree [OF u v c]
  show ?thesis
  proof (cases y)
    case (Inl e)
    with copytree_oserror [of "path_parts src" "path_parts dest @ [s]" fs e fs1] c g(1) p show ?thesis
      by (simp add: x step_facts_def)
  next
    case (Inr v)
    have "sorted_into I u ws [s] r (r\<lparr>pv_provisioned := pv_provisioned r @ [s]\<rparr>)"
      unfolding sorted_into_def by (rule exI [of _ "[s]"], rule exI [of _ "[]"], rule exI [of _ "[]"]) (use p in simp)
    with Inr g p show ?thesis by (auto simp: x step_facts_def)
  qed
qed

lemma all:
  "provision_all S I dest ws u skills (r, fs) = (x, fs') \<Longrightarrow> unlinked (path_parts dest) fs \<Longrightarrow> fs_tree fs
     \<Longrightarrow> step_facts I u ws (path_parts dest) skills r fs x fs'"
proof (induction skills arbitrary: r fs)
  case Nil
  then show ?case by (auto simp: step_facts_def)
next
  case (Cons s skills)
  let ?D = "path_parts dest"
  obtain y fs1 where o: "provision_one S I dest ws u s (r, fs) = (y, fs1)" by fastforce
  have one: "step_facts I u ws ?D [s] r fs y fs1" using one [OF o Cons.prems(2,3)] .
  then have g: "grown ?D (set (filter (permitted I u ws) [s])) fs fs1" unfolding step_facts_def ..
  note inv = grown_inv [OF Cons.prems(2,3) g]
  show ?case
  proof (cases y)
    case (Inl e)
    with Cons.prems(1) o have "x = Inl e" "fs' = fs1" by simp_all
    with Inl one grown_trans [OF g grown_refl, of "set (filter (permitted I u ws) skills)"] show ?thesis
      by (auto simp: step_facts_def split: if_splits)
  next
    case (Inr r1)
    with Cons.prems(1) o have "provision_all S I dest ws u skills (r1, fs1) = (x, fs')" by simp
    from Cons.IH [OF this] inv have rest: "step_facts I u ws ?D skills r1 fs1 x fs'" by blast
    then have g2: "grown ?D (set (filter (permitted I u ws) skills)) fs1 fs'" unfolding step_facts_def ..
    have all: "grown ?D (set (filter (permitted I u ws) (s # skills))) fs fs'"
      using grown_trans [OF g g2] by (auto split: if_splits)
    have keep: "stat fs1 q = Some FDir \<Longrightarrow> stat fs' q = Some FDir" for q using g2 by (simp add: grown_def adds_def)
    show ?thesis
    proof (cases x)
      case (Inl e)
      with rest all show ?thesis by (simp add: step_facts_def)
    next
      case (Inr r2)
      with rest have b: "sorted_into I u ws skills r1 r2" "pv_revoked r2 = pv_revoked r1"
          "\<forall>t \<in> set (pv_provisioned r2) - set (pv_provisioned r1). stat fs' (?D @ [t]) = Some FDir"
        unfolding step_facts_def by simp_all
      from one \<open>y = Inr r1\<close> have a: "sorted_into I u ws [s] r r1" "pv_revoked r1 = pv_revoked r"
          "\<forall>t \<in> set (pv_provisioned r1) - set (pv_provisioned r). stat fs1 (?D @ [t]) = Some FDir"
        unfolding step_facts_def by simp_all
      have "stat fs' (?D @ [t]) = Some FDir" if "t \<in> set (pv_provisioned r2) - set (pv_provisioned r)" for t
        using that a(3) b(3) keep by (cases "t \<in> set (pv_provisioned r1)") auto
      with all sorted_into_Cons [OF a(1) b(1)] a(2) b(2) Inr show ?thesis by (simp add: step_facts_def)
    qed
  qed
qed

end

subsection \<open>Revocation\<close>

lemma unlinked_del: "unlinked D fs \<Longrightarrow> p \<noteq> [] \<Longrightarrow> unlinked D (fs_del p fs)"
  by (auto simp: unlinked_def)

lemma revoke_one_eq:
  assumes u: "unlinked (path_parts dest) fs" "fs_tree fs" and v: "valid_name s"
  shows "revoke_one dest (path_parts dest) s (acc, fs) =
    (if stat fs (path_parts dest @ [s]) = Some FDir then (acc @ [s], fs_del (path_parts dest @ [s]) fs) else (acc, fs))"
proof -
  have n: "''..'' \<notin> set [s]" using valid_nameD [OF v] by auto
  show ?thesis
    using realpath_plain [OF u(1) _ n, of "path_parts dest @ [s]"] isdir_iff [OF u(1) _ n u(2), of "path_parts dest @ [s]"]
    by (simp add: revoke_one_def Let_def skill_parts [OF v] rmtree_def)
qed

lemma revoke_fold:
  "fold (revoke_one dest (path_parts dest)) names (acc, fs) = (acc', fs') \<Longrightarrow> unlinked (path_parts dest) fs \<Longrightarrow> fs_tree fs
     \<Longrightarrow> distinct names \<Longrightarrow> \<forall>s \<in> set names. valid_name s
     \<Longrightarrow> acc' = acc @ filter (\<lambda>s. stat fs (path_parts dest @ [s]) = Some FDir) names
       \<and> (\<forall>q. stat fs' q = (if \<exists>s \<in> set names. stat fs (path_parts dest @ [s]) = Some FDir \<and> below (path_parts dest @ [s]) q
                            then None else stat fs q))
       \<and> unlinked (path_parts dest) fs' \<and> fs_tree fs'"
proof (induction names arbitrary: acc fs)
  case (Cons s names)
  let ?D = "path_parts dest"
  have v: "valid_name s" using Cons.prems(5) by simp
  let ?fs1 = "if stat fs (?D @ [s]) = Some FDir then fs_del (?D @ [s]) fs else fs"
  let ?acc1 = "if stat fs (?D @ [s]) = Some FDir then acc @ [s] else acc"
  have st: "stat ?fs1 q = (if stat fs (?D @ [s]) = Some FDir \<and> below (?D @ [s]) q then None else stat fs q)" for q
    by (simp add: below_def)
  from Cons.prems(1) have "fold (revoke_one dest ?D) names (?acc1, ?fs1) = (acc', fs')"
    by (simp add: revoke_one_eq [OF Cons.prems(2,3) v] if_distrib cong: if_cong)
  from Cons.IH [OF this] Cons.prems unlinked_del fs_tree_del
  have ih: "acc' = ?acc1 @ filter (\<lambda>t. stat ?fs1 (?D @ [t]) = Some FDir) names"
      "\<And>q. stat fs' q = (if \<exists>t \<in> set names. stat ?fs1 (?D @ [t]) = Some FDir \<and> below (?D @ [t]) q then None else stat ?fs1 q)"
      "unlinked ?D fs' \<and> fs_tree fs'"
    by auto
  have same: "stat ?fs1 (?D @ [t]) = stat fs (?D @ [t])" if "t \<in> set names" for t
    using that Cons.prems(4) by (auto simp: below_def)
  have "acc' = acc @ filter (\<lambda>s. stat fs (?D @ [s]) = Some FDir) (s # names)"
    using ih(1) filter_cong [OF refl, of names "\<lambda>t. stat ?fs1 (?D @ [t]) = Some FDir" "\<lambda>t. stat fs (?D @ [t]) = Some FDir"] same
    by simp
  moreover have "stat fs' q = (if \<exists>t \<in> set (s # names). stat fs (?D @ [t]) = Some FDir \<and> below (?D @ [t]) q then None else stat fs q)" for q
    using ih(2) [of q] same st [of q] by auto
  ultimately show ?case using ih(3) by blast
qed simp

subsection \<open>The manifest\<close>

definition managed_before :: "json_loads \<Rightarrow> fpath \<Rightarrow> fs \<Rightarrow> string list" where
  \<comment> \<open>the valid names that the manifest on the disk lists\<close>
  "managed_before loads D fs =
     (case stat fs (D @ [MANIFEST_FILE]) of
        Some (FFile t) \<Rightarrow> (case load_manifest loads t of Inr ns \<Rightarrow> ns | Inl e \<Rightarrow> [])
      | _ \<Rightarrow> [])"

lemma managed_name_valid: "n \<in> set (managed_name v) \<Longrightarrow> valid_name n"
  by (cases v) (auto split: if_splits)

lemma managed_of_valid: "managed_of d = Inr ns \<Longrightarrow> n \<in> set ns \<Longrightarrow> valid_name n"
  by (auto simp: managed_of_def managed_name_valid split: pyv.splits option.splits)

lemma load_manifest_valid: "load_manifest loads t = Inr ns \<Longrightarrow> n \<in> set ns \<Longrightarrow> valid_name n"
  by (auto simp: load_manifest_def managed_of_valid split: if_splits sum.splits)

lemma managed_before_valid: "n \<in> set (managed_before loads D fs) \<Longrightarrow> valid_name n"
  by (auto simp: managed_before_def dest: load_manifest_valid [OF sym] split: option.splits fs_node.splits sum.splits)

lemma manifest_parts: "path_parts (path_join dest MANIFEST_FILE) = path_parts dest @ [MANIFEST_FILE]"
  by (rule skill_parts [OF manifest_valid])

lemma read_manifest_eq:
  assumes u: "unlinked (path_parts dest) fs" "fs_tree fs" and r: "read_manifest loads dest fs = x"
  shows "case x of
      Inr ns \<Rightarrow> ns = managed_before loads (path_parts dest) fs
    | Inl e \<Rightarrow> is_oserror e \<or> (\<exists>t. stat fs (path_parts dest @ [MANIFEST_FILE]) = Some (FFile t) \<and> load_manifest loads t = Inl e)"
proof -
  let ?m = "path_parts dest @ [MANIFEST_FILE]"
  have n: "''..'' \<notin> set [MANIFEST_FILE]" by (simp add: MANIFEST_FILE_def)
  show ?thesis
  proof (cases "stat fs ?m")
    case None
    have "\<exists>e. read_file fs ?m = Inl e"
      using locate_plain [OF u(1) _ n, of ?m] None by (cases "locate fs ?m") (auto simp: read_file_def)
    with r read_oserror [of fs ?m] None show ?thesis
      by (auto simp: read_manifest_def manifest_parts managed_before_def split: if_splits)
  next
    case (Some node)
    have "locate fs ?m = Inr ?m" using locate_iff [OF u(1) _ n u(2), of ?m] Some by simp
    moreover have "node \<noteq> FLink t" for t using unlinked_prefix [OF u(1), of ?m "[MANIFEST_FILE]" t] Some by auto
    ultimately show ?thesis
      using r Some by (cases node) (auto simp: read_manifest_def manifest_parts managed_before_def read_file_def split: sum.splits if_splits)
  qed
qed

definition manifest_value :: "string list \<Rightarrow> pyv" where
  \<comment> \<open>what reading \<open>manifest_text\<close> gives\<close>
  "manifest_value ns = PDict [(''version'', PInt 1), (''managed'', PList (List.map PStr ns))]"

lemma managed_of_manifest: "\<forall>s \<in> set ns. valid_name s \<Longrightarrow> managed_of (manifest_value ns) = Inr ns"
  by (induction ns) (simp_all add: managed_of_def manifest_value_def dict_get_def)

lemma managed_of_error: "managed_of d = Inl e \<Longrightarrow> exn_type e \<in> {''AttributeError'', ''TypeError''}"
  by (auto simp: managed_of_def elim!: py_iter.elims split: pyv.splits option.splits)

lemma load_manifest_error:
  "load_manifest loads t = Inl e \<Longrightarrow>
     exn_type e = ''UnicodeDecodeError'' \<and> \<not> utf8_from [] t
     \<or> exn_type e \<in> {''AttributeError'', ''TypeError''} \<and> (\<exists>d. loads t = Inr d \<and> managed_of d = Inl e)"
  by (auto simp: load_manifest_def dest: managed_of_error split: if_splits sum.splits)

text \<open>What the provisioner writes is ASCII, which is UTF-8.\<close>

abbreviation ascii :: "string \<Rightarrow> bool" where
  "ascii s \<equiv> \<forall>c \<in> set s. code c < 128"

lemma utf8_ascii: "ascii s \<Longrightarrow> utf8_from [] s"
  by (induction s) (auto simp: utf8_lead_def)

lemma quoted_ascii: "ascii s \<Longrightarrow> ascii (quoted s)"
  by (simp add: quoted_def code_def)

lemma join_ascii: "ascii sep \<Longrightarrow> \<forall>s \<in> set xs. ascii s \<Longrightarrow> ascii (join_with sep xs)"
  by (induction sep xs rule: join_with.induct) auto

lemma name_ascii: "valid_name s \<Longrightarrow> ascii s"
  by (auto simp: validate_skill_name_def list_all_iff is_id_char_def is_alpha_def is_digit_def code_def split: if_splits)

lemma manifest_ascii:
  assumes "\<forall>s \<in> set names. valid_name s"
  shows "ascii (manifest_text names)"
proof -
  have "ascii (quoted n)" if "n \<in> set names" for n
    using assms that by (intro quoted_ascii name_ascii) simp
  then have "ascii (join_with '', '' (List.map quoted names))"
    by (intro join_ascii) (auto simp: code_def)
  moreover have "ascii (quoted ''version'')" "ascii (quoted ''managed'')" by (intro quoted_ascii; simp add: code_def)+
  ultimately show ?thesis unfolding manifest_text_def by (auto simp: code_def)
qed

lemma load_manifest_text:
  assumes "\<forall>s \<in> set names. valid_name s" and "loads (manifest_text names) = Inr (manifest_value names)"
  shows "load_manifest loads (manifest_text names) = Inr names"
  using utf8_ascii [OF manifest_ascii [OF assms(1)]] assms managed_of_manifest by (simp add: load_manifest_def)

subsection \<open>The whole run\<close>

definition run_facts :: "json_loads \<Rightarrow> identity_ops \<Rightarrow> user \<Rightarrow> resolved_workspace \<Rightarrow> fpath \<Rightarrow> fs \<Rightarrow> exn + provision_result \<Rightarrow> fs \<Rightarrow> bool" where
  "run_facts loads I u w D fs x fs' \<longleftrightarrow>
     unlinked D fs' \<and> fs_tree fs'
     \<and> (\<forall>q. stat fs' q \<noteq> stat fs q \<longrightarrow> above D q \<or> q = D @ [MANIFEST_FILE]
          \<or> (\<exists>s. below (D @ [s]) q \<and> (s \<in> set (rw_allowed_skills w) \<and> permitted I u (rw_workspace_id w) s \<or> s \<in> set (managed_before loads D fs))))
     \<and> (case x of
          Inl e \<Rightarrow> is_oserror e
            \<or> (\<exists>t. stat fs (D @ [MANIFEST_FILE]) = Some (FFile t) \<and> load_manifest loads t = Inl e)
              \<and> (\<forall>q. stat fs' q \<noteq> stat fs q \<longrightarrow> above D q)
        | Inr r \<Rightarrow> sorted_into I u (rw_workspace_id w) (rw_allowed_skills w) empty_result (r\<lparr>pv_revoked := []\<rparr>)
            \<and> (\<forall>s \<in> set (pv_provisioned r). stat fs' (D @ [s]) = Some FDir)
            \<and> (\<forall>s \<in> set (managed_before loads D fs) - set (pv_provisioned r). s \<noteq> MANIFEST_FILE \<longrightarrow>
                  stat fs' (D @ [s]) \<noteq> Some FDir \<and> (s \<in> set (pv_revoked r) \<longrightarrow> (\<forall>q. below (D @ [s]) q \<longrightarrow> stat fs' q = None))
                  \<and> (stat fs (D @ [s]) = Some FDir \<longrightarrow> s \<in> set (pv_revoked r)))
            \<and> set (pv_revoked r) \<subseteq> set (managed_before loads D fs) - set (pv_provisioned r)
            \<and> stat fs' (D @ [MANIFEST_FILE]) = Some (FFile (manifest_text (name_set (pv_provisioned r)))))"

lemma grown_same: "grown D N fs fs' \<Longrightarrow> stat fs' q \<noteq> stat fs q \<Longrightarrow> above D q \<or> (\<exists>s \<in> N. below (D @ [s]) q)"
  by (auto simp: grown_def adds_def)

context skill_source
begin

lemma whole:
  assumes op: "provision loads S I subdir w u fs = (x, fs')" and u: "unlinked (dest_parts w subdir) fs" "fs_tree fs"
  shows "run_facts loads I u w (dest_parts w subdir) fs x fs'"
proof -
  let ?dest = "path_join (rw_cwd w) subdir"
  let ?D = "path_parts ?dest" and ?ok = "set (filter (permitted I u (rw_workspace_id w)) (rw_allowed_skills w))"
  obtain y fs1 where mk: "makedirs ?D fs = (y, fs1)" by fastforce
  have "adds (above ?D) fs fs1" and top: "y = Inr () \<Longrightarrow> stat fs1 ?D = Some FDir"
    using makedirs_adds [OF u(1) _ _ mk, of "[]"] by simp_all
  then have g1: "grown ?D {} fs fs1" by (simp add: grown_def)
  note u1 = grown_inv [OF u g1]
  have same1: "stat fs1 (?D @ [s]) = stat fs (?D @ [s])" for s
    using grown_same [OF g1, of "?D @ [s]"] by (auto simp: above_def)
  then have mb: "managed_before loads ?D fs1 = managed_before loads ?D fs" by (simp add: managed_before_def)
  show ?thesis
  proof (cases y)
    case (Inl e)
    with op mk have "x = Inl e" "fs' = fs1" by (simp_all add: provision_def Let_def)
    with makedirs_oserror [of ?D fs e fs1] mk Inl u1 grown_same [OF g1] show ?thesis by (auto simp: run_facts_def)
  next
    case made: (Inr v)
    obtain z where rm: "read_manifest loads ?dest fs1 = z" by simp
    have z: "case z of Inr ns \<Rightarrow> ns = managed_before loads ?D fs | Inl e \<Rightarrow> is_oserror e
      \<or> (\<exists>t. stat fs (?D @ [MANIFEST_FILE]) = Some (FFile t) \<and> load_manifest loads t = Inl e)"
      using read_manifest_eq [OF conjunct1 [OF u1] conjunct2 [OF u1] rm] unfolding mb same1 .
    show ?thesis
    proof (cases z)
      case (Inl e)
      with op mk made rm have "x = Inl e" "fs' = fs1" by (simp_all add: provision_def Let_def)
      with z Inl u1 grown_same [OF g1] show ?thesis by (auto simp: run_facts_def)
    next
      case listed: (Inr ns)
      with z have ns: "ns = managed_before loads ?D fs" by simp
      obtain x2 fs2 where pa: "provision_all S I ?dest (rw_workspace_id w) u (rw_allowed_skills w) (empty_result, fs1) = (x2, fs2)"
        by fastforce
      have st: "step_facts I u (rw_workspace_id w) ?D (rw_allowed_skills w) empty_result fs1 x2 fs2"
        using all [OF pa] u1 by blast
      then have g2: "grown ?D ?ok fs1 fs2" by (simp add: step_facts_def)
      have g: "grown ?D ?ok fs fs2" using grown_trans [OF g1 g2] by simp
      note u2 = grown_inv [OF u g]
      show ?thesis
      proof (cases x2)
        case (Inl e)
        with op mk made rm listed pa have "x = Inl e" "fs' = fs2" by (simp_all add: provision_def Let_def)
        with st Inl u2 grown_same [OF g] show ?thesis by (fastforce simp: run_facts_def step_facts_def)
      next
        case swept: (Inr r)
        let ?old = "name_set (filter (\<lambda>s. s \<notin> set (pv_provisioned r)) ns)"
        obtain rs fs3 where rv: "fold (revoke_one ?dest ?D) ?old ([], fs2) = (rs, fs3)" by fastforce
        obtain v fs4 where wr: "write_file (?D @ [MANIFEST_FILE]) (manifest_text (name_set (pv_provisioned r))) fs3 = (v, fs4)" by fastforce
        have real: "realpath fs2 ?D = ?D" using realpath_plain [OF conjunct1 [OF u2], of ?D "[]"] by simp
        from op mk made rm listed pa swept rv wr
        have x: "fs' = fs4" "x = (case v of Inl e \<Rightarrow> Inl e | Inr _ \<Rightarrow> Inr (r\<lparr>pv_revoked := rs\<rparr>))"
          by (auto simp: provision_def Let_def real write_manifest_def manifest_parts split: sum.splits)
        have mem: "set ?old = set ns - set (pv_provisioned r)" by auto
        have "\<forall>s \<in> set ?old. valid_name s" using managed_before_valid ns by auto
        from revoke_fold [OF rv conjunct1 [OF u2] conjunct2 [OF u2] _ this]
        have rs: "rs = filter (\<lambda>s. stat fs2 (?D @ [s]) = Some FDir) ?old"
          and st3: "\<And>q. stat fs3 q = (if \<exists>s \<in> set ?old. stat fs2 (?D @ [s]) = Some FDir \<and> below (?D @ [s]) q then None else stat fs2 q)"
          and u3: "unlinked ?D fs3" "fs_tree fs3" by simp_all
        have mn: "''..'' \<notin> set [MANIFEST_FILE]" by (simp add: MANIFEST_FILE_def)
        from write_adds [OF u3(1) _ mn _ wr]
        have w: "adds (\<lambda>q. q = ?D @ [MANIFEST_FILE]) fs3 fs4" "v = Inr () \<longrightarrow> stat fs4 (?D @ [MANIFEST_FILE]) = Some (FFile (manifest_text (name_set (pv_provisioned r))))"
          by simp_all
        have st4: "stat fs4 q = stat fs3 q" if "q \<noteq> ?D @ [MANIFEST_FILE]" for q using w(1) that unfolding adds_def by blast
        have changes: "above ?D q \<or> q = ?D @ [MANIFEST_FILE] \<or> (\<exists>s. below (?D @ [s]) q \<and> (s \<in> ?ok \<or> s \<in> set ns))"
          if "stat fs' q \<noteq> stat fs q" for q
        proof (cases "q = ?D @ [MANIFEST_FILE] \<or> (\<exists>s \<in> set ?old. below (?D @ [s]) q)")
          case False
          then have "stat fs3 q = stat fs2 q" unfolding st3 by auto
          with False that st4 [of q] x(1) have "stat fs2 q \<noteq> stat fs q" by simp
          with grown_same [OF g] show ?thesis by blast
        qed (use mem in blast)
        show ?thesis
        proof (cases v)
          case (Inl e)
          with write_oserror [OF wr [unfolded Inl]] changes unlinked_adds [OF u3(1) w(1)] fs_tree_adds [OF u3(2) w(1)] x ns
          show ?thesis by (simp add: run_facts_def)
        next
          case (Inr v')
          have kept: "\<forall>s \<in> set (pv_provisioned r). stat fs' (?D @ [s]) = Some FDir"
          proof
            fix s assume s: "s \<in> set (pv_provisioned r)"
            with st swept have "stat fs2 (?D @ [s]) = Some FDir" by (auto simp: step_facts_def empty_result_def)
            moreover have "\<not> below (?D @ [t]) (?D @ [s])" if "t \<in> set ?old" for t using that s by (auto simp: below_def)
            ultimately have "stat fs3 (?D @ [s]) = Some FDir" using st3 [of "?D @ [s]"] by auto
            with w(1) show "stat fs' (?D @ [s]) = Some FDir" by (simp add: x adds_def)
          qed
          have gone: "stat fs' (?D @ [s]) \<noteq> Some FDir \<and> (s \<in> set rs \<longrightarrow> (\<forall>q. below (?D @ [s]) q \<longrightarrow> stat fs' q = None))
              \<and> (stat fs (?D @ [s]) = Some FDir \<longrightarrow> s \<in> set rs)"
            if s: "s \<in> set ns - set (pv_provisioned r)" "s \<noteq> MANIFEST_FILE" for s
          proof -
            have "q \<noteq> ?D @ [MANIFEST_FILE]" if "below (?D @ [s]) q" for q using that s(2) by (auto simp: below_def prefix_def)
            then have eq: "stat fs' q = stat fs3 q" if "below (?D @ [s]) q" for q using that st4 x(1) by blast
            have b: "below (?D @ [s]) (?D @ [s])" by (simp add: below_def)
            have keep: "stat fs (?D @ [s]) = Some FDir \<longrightarrow> stat fs2 (?D @ [s]) = Some FDir" using g by (simp add: grown_def adds_def)
            show ?thesis
              using s(1) mem st3 eq b keep unfolding rs by (auto split: if_splits)
          qed
          have "r\<lparr>pv_revoked := rs, pv_revoked := []\<rparr> = r" using st swept by (simp add: step_facts_def empty_result_def)
          with st swept have "sorted_into I u (rw_workspace_id w) (rw_allowed_skills w) empty_result (r\<lparr>pv_revoked := rs, pv_revoked := []\<rparr>)"
            by (simp add: step_facts_def)
          moreover have "set rs \<subseteq> set ns - set (pv_provisioned r)" using mem unfolding rs by auto
          ultimately show ?thesis
            using Inr w(2) changes unlinked_adds [OF u3(1) w(1)] fs_tree_adds [OF u3(2) w(1)] x ns kept gone
            by (simp add: run_facts_def)
        qed
      qed
    qed
  qed
qed

end

subsection \<open>A run\<close>

lemma unlinked_check:
  "list_all (\<lambda>(q, n). case n of FLink t \<Rightarrow> False | _ \<Rightarrow> True) fs \<Longrightarrow> ''..'' \<notin> set d \<Longrightarrow> unlinked d fs"
  by (auto simp: unlinked_def stat_def list_all_iff dest!: map_of_SomeD split: if_splits)

lemma fs_tree_check:
  "list_all (\<lambda>(q, n). ''..'' \<notin> set q \<and> stat fs (butlast q) = Some FDir) fs \<Longrightarrow> fs_tree fs"
  by (auto simp: fs_tree_def list_all_iff stat_def [of fs] dest!: map_of_SomeD split: if_splits)

definition skill_disk :: fs where
  "skill_disk = [([''src''], FDir), ([''src'', ''ab''], FDir), ([''src'', ''ab'', ''SKILL.md''], FFile ''text''),
     ([''w''], FDir), ([''w'', ''own''], FDir)]"

definition skill_workspace :: resolved_workspace where
  "skill_workspace =
     \<lparr>rw_workspace_id = ''ws1'', rw_cwd = ''/w'', rw_env = [], rw_sensitive_keys = {}, rw_allowed_skills = [''ab'', ''no'', ''../x''],
      rw_allowed_workflows = [], rw_backend_name = None, rw_max_rounds = None\<rparr>"

definition skill_user :: user where
  "skill_user = \<lparr>user_id = ''u1'', display_name = ''Alice'', roles = [], default_workspace = None\<rparr>"

definition skill_identity :: "string list \<Rightarrow> identity_ops" where
  "skill_identity denied =
     memory_identity_ops \<lparr>mi_users = Map.empty, mi_authorized = Map.empty, mi_denied_skills = [''u1'' \<mapsto> denied], mi_denied_workflows = Map.empty\<rparr>"

definition skill_loads :: json_loads where
  "skill_loads t = (if t = manifest_text [''ab''] then Inr (manifest_value [''ab'']) else Inl ''not json'')"

definition skill_run :: "string list \<Rightarrow> fs \<Rightarrow> (exn + provision_result) \<times> fs" where
  "skill_run denied fs = provision skill_loads (local_source ''/src'') (skill_identity denied) ''skills'' skill_workspace skill_user fs"

lemma skill_disk_ok: "unlinked (dest_parts skill_workspace ''skills'') skill_disk" "fs_tree skill_disk"
proof -
  have "list_all (\<lambda>(q, n). case n of FLink t \<Rightarrow> False | _ \<Rightarrow> True) skill_disk" "''..'' \<notin> set (dest_parts skill_workspace ''skills'')"
    by code_simp+
  then show "unlinked (dest_parts skill_workspace ''skills'') skill_disk" by (rule unlinked_check)
  have "list_all (\<lambda>(q, n). ''..'' \<notin> set q \<and> stat skill_disk (butlast q) = Some FDir) skill_disk" by code_simp
  then show "fs_tree skill_disk" by (rule fs_tree_check)
qed

lemma skill_dest: "dest_parts skill_workspace ''skills'' = [''w'', ''skills'']"
  by code_simp

definition skill_result :: "string list \<Rightarrow> string list \<Rightarrow> string list \<Rightarrow> string list \<Rightarrow> string list \<Rightarrow> provision_result" where
  "skill_result p d m i rv = \<lparr>pv_provisioned = p, pv_denied = d, pv_missing = m, pv_invalid = i, pv_revoked = rv\<rparr>"

lemma skill_run_one: "fst (skill_run [''no''] skill_disk) = Inr (skill_result [''ab''] [''no''] [] [''../x''] [])"
  by code_simp

lemma skill_disk_after:
  "unlinked (dest_parts skill_workspace ''skills'') (snd (skill_run [''no''] skill_disk))" "fs_tree (snd (skill_run [''no''] skill_disk))"
proof -
  obtain x fs' where r: "skill_run [''no''] skill_disk = (x, fs')" by fastforce
  from skill_source.whole [OF localsrc.skill_source_axioms r [unfolded skill_run_def] skill_disk_ok] r
  show "unlinked (dest_parts skill_workspace ''skills'') (snd (skill_run [''no''] skill_disk))" "fs_tree (snd (skill_run [''no''] skill_disk))"
    by (simp_all add: run_facts_def)
qed

text \<open>A link inside the destination, here put there by the user for the name of an allowed skill, is
  followed: the skill is written into the directory that the link leads to, outside the workspace.\<close>

lemma provision_follows_link:
  "let fs = skill_disk @ [([''x''], FDir), ([''w'', ''skills''], FDir), ([''w'', ''skills'', ''ab''], FLink ''/x'')];
       (r, fs') = skill_run [] fs
   in stat fs [''x'', ''SKILL.md''] = None \<and> stat fs' [''x'', ''SKILL.md''] = Some (FFile ''text'')"
  by code_simp

subsection \<open>Properties\<close>

text \<open>C27. What a user gets of the allowed skills of a workspace, on a disk where no link stands at,
  above or below the destination (a path without \<open>..\<close>) and every entry has a directory as its
  parent. When \<open>provision\<close>
  returns, the denied skills are exactly those with a valid name that the identity provider refuses, in order; a
  provisioned one has a valid name, is granted and has its directory under the destination; every
  allowed skill is counted in exactly one of the four lists; the manifest lists the provisioned ones,
  sorted; and a skill that an earlier run managed and this one did not provision has no directory left.\<close>

theorem provision_gate:
  assumes "skill_source S" and "provision loads S I subdir w u fs = (Inr r, fs')"
    and "unlinked (dest_parts w subdir) fs" and "fs_tree fs"
  shows "pv_denied r = filter (\<lambda>s. valid_name s \<and> \<not> ip_can_use_skill I u (rw_workspace_id w) s) (rw_allowed_skills w)
    \<and> (\<forall>s \<in> set (pv_provisioned r). valid_name s \<and> ip_can_use_skill I u (rw_workspace_id w) s
          \<and> stat fs' (dest_parts w subdir @ [s]) = Some FDir)
    \<and> mset (rw_allowed_skills w) = mset (pv_provisioned r) + mset (pv_denied r) + mset (pv_missing r) + mset (pv_invalid r)
    \<and> stat fs' (dest_parts w subdir @ [MANIFEST_FILE]) = Some (FFile (manifest_text (name_set (pv_provisioned r))))
    \<and> (\<forall>s \<in> set (managed_before loads (dest_parts w subdir) fs) - set (pv_provisioned r). s \<noteq> MANIFEST_FILE \<longrightarrow>
          stat fs' (dest_parts w subdir @ [s]) \<noteq> Some FDir)"
proof -
  note f = skill_source.whole [OF assms(1,2,3,4), unfolded run_facts_def]
  then have s: "sorted_into I u (rw_workspace_id w) (rw_allowed_skills w) empty_result (r\<lparr>pv_revoked := []\<rparr>)" by simp
  show ?thesis using f s [unfolded sorted_into_def] by (auto simp: empty_result_def ac_simps)
qed

theorem provision_gate_witness:
  "\<exists>fs' r. skill_run [''no''] skill_disk = (Inr r, fs') \<and> pv_denied r = [''no''] \<and> pv_provisioned r = [''ab'']
    \<and> stat fs' ([''w'', ''skills''] @ [''ab'']) = Some FDir"
proof -
  obtain fs' where r: "skill_run [''no''] skill_disk = (Inr (skill_result [''ab''] [''no''] [] [''../x''] []), fs')"
    using skill_run_one by (metis prod.collapse)
  from provision_gate [OF localsrc.skill_source_axioms r [unfolded skill_run_def] skill_disk_ok]
  show ?thesis using r by (intro exI conjI) (auto simp: skill_result_def skill_dest)
qed

text \<open>C28. On a disk where no link stands at, above or below the destination (a path without \<open>..\<close>) and
  every entry has a directory as its parent, provisioning touches, whether it returns or raises, only the directories
  above the destination (which it may create), the manifest, the allowed skills that the user is
  granted, and the skills that the manifest lists: a directory of the user's own, and everything
  outside the destination, stays as it is. It leaves no link there and a well-formed file system, so
  the next run starts from such a disk again. (With a link below the destination this fails, see
  \<open>provision_follows_link\<close>.)\<close>

theorem provision_contained:
  assumes "skill_source S" and "provision loads S I subdir w u fs = (x, fs')"
    and "unlinked (dest_parts w subdir) fs" and "fs_tree fs"
  shows "unlinked (dest_parts w subdir) fs' \<and> fs_tree fs'
    \<and> (\<forall>q. stat fs' q \<noteq> stat fs q \<longrightarrow>
          q \<noteq> [] \<and> prefix q (dest_parts w subdir)
          \<or> q = dest_parts w subdir @ [MANIFEST_FILE]
          \<or> (\<exists>s. prefix (dest_parts w subdir @ [s]) q \<and> valid_name s
               \<and> (s \<in> set (rw_allowed_skills w) \<and> ip_can_use_skill I u (rw_workspace_id w) s
                  \<or> s \<in> set (managed_before loads (dest_parts w subdir) fs))))"
  using skill_source.whole [OF assms] managed_before_valid
  unfolding run_facts_def above_def below_def by blast

theorem provision_contained_witness:
  "stat (snd (skill_run [''no''] skill_disk)) [''w'', ''own''] = stat skill_disk [''w'', ''own'']"
proof -
  obtain x fs' where r: "skill_run [''no''] skill_disk = (x, fs')" by fastforce
  from provision_contained [OF localsrc.skill_source_axioms r [unfolded skill_run_def] skill_disk_ok]
  have "stat fs' [''w'', ''own''] = stat skill_disk [''w'', ''own'']"
    by (auto simp: skill_dest prefix_def dest!: spec [of _ "[''w'', ''own'']"])
  with r show ?thesis by simp
qed

text \<open>C29. What \<open>provision\<close> raises, on a disk where no link stands at, above or below the destination
  (a path without \<open>..\<close>) and every entry has a directory as its parent, and for a JSON parser that rejects a text with
  JSONDecodeError only: an OSError, or what a manifest of the wrong shape makes \<open>_read_manifest\<close>
  raise - UnicodeDecodeError exactly when its bytes are no UTF-8, AttributeError or TypeError when it
  is JSON of the wrong type. In the second case only missing parents of the destination have been made.
  A name that the source does not have is never an exception.\<close>

theorem provision_errors:
  assumes "skill_source S" and "provision loads S I subdir w u fs = (Inl e, fs')"
    and "unlinked (dest_parts w subdir) fs" and "fs_tree fs"
  shows "is_oserror e
    \<or> (\<exists>t. stat fs (dest_parts w subdir @ [MANIFEST_FILE]) = Some (FFile t)
         \<and> (if \<not> utf8_from [] t then exn_type e = ''UnicodeDecodeError''
            else exn_type e \<in> {''AttributeError'', ''TypeError''} \<and> (\<exists>d. loads t = Inr d \<and> managed_of d = Inl e)))
      \<and> (\<forall>q. stat fs' q \<noteq> stat fs q \<longrightarrow> q \<noteq> [] \<and> prefix q (dest_parts w subdir))"
proof -
  from skill_source.whole [OF assms] consider (os) "is_oserror e"
    | (manifest) t where "stat fs (dest_parts w subdir @ [MANIFEST_FILE]) = Some (FFile t)" "load_manifest loads t = Inl e"
        "\<forall>q. stat fs' q \<noteq> stat fs q \<longrightarrow> q \<noteq> [] \<and> prefix q (dest_parts w subdir)"
    unfolding run_facts_def above_def by auto
  then show ?thesis
  proof cases
    case manifest
    have "if \<not> utf8_from [] t then exn_type e = ''UnicodeDecodeError''
        else exn_type e \<in> {''AttributeError'', ''TypeError''} \<and> (\<exists>d. loads t = Inr d \<and> managed_of d = Inl e)"
      using manifest(2) managed_of_error by (auto simp: load_manifest_def split: if_splits sum.splits)
    with manifest(1,3) show ?thesis by blast
  qed simp
qed

text \<open>A disk with a manifest that is no UTF-8: the lone byte 255.\<close>

definition bad_disk :: fs where
  "bad_disk = skill_disk @ [([''w'', ''skills''], FDir), ([''w'', ''skills'', MANIFEST_FILE], FFile [char_of (255 :: nat)])]"

lemma bad_disk_ok: "unlinked (dest_parts skill_workspace ''skills'') bad_disk" "fs_tree bad_disk"
proof -
  have "list_all (\<lambda>(q, n). case n of FLink t \<Rightarrow> False | _ \<Rightarrow> True) bad_disk" "''..'' \<notin> set (dest_parts skill_workspace ''skills'')"
    by code_simp+
  then show "unlinked (dest_parts skill_workspace ''skills'') bad_disk" by (rule unlinked_check)
  have "list_all (\<lambda>(q, n). ''..'' \<notin> set q \<and> stat bad_disk (butlast q) = Some FDir) bad_disk" by code_simp
  then show "fs_tree bad_disk" by (rule fs_tree_check)
qed

theorem provision_errors_witness:
  "\<exists>e t. fst (skill_run [''no''] bad_disk) = Inl e \<and> exn_type e = ''UnicodeDecodeError''
     \<and> stat bad_disk ([''w'', ''skills''] @ [MANIFEST_FILE]) = Some (FFile t) \<and> \<not> utf8_from [] t"
proof -
  obtain x fs' where p: "skill_run [''no''] bad_disk = (x, fs')" by fastforce
  have "case fst (skill_run [''no''] bad_disk) of
      Inl e \<Rightarrow> exn_type e = ''UnicodeDecodeError'' \<and> \<not> is_oserror e | Inr r \<Rightarrow> False" by code_simp
  with p obtain e where e: "skill_run [''no''] bad_disk = (Inl e, fs')" "exn_type e = ''UnicodeDecodeError''" "\<not> is_oserror e"
    by (cases x) auto
  from provision_errors [OF localsrc.skill_source_axioms e(1) [unfolded skill_run_def] bad_disk_ok] e(3)
  obtain t where "stat bad_disk (dest_parts skill_workspace ''skills'' @ [MANIFEST_FILE]) = Some (FFile t)"
    and "if \<not> utf8_from [] t then exn_type e = ''UnicodeDecodeError''
      else exn_type e \<in> {''AttributeError'', ''TypeError''} \<and> (\<exists>d. skill_loads t = Inr d \<and> managed_of d = Inl e)" by blast
  with e show ?thesis unfolding skill_dest by (intro exI [of _ e] exI [of _ t]) (auto split: if_splits)
qed

text \<open>A right that is withdrawn reaches the disk with the next run in the same workspace: a skill that
  one run provisioned and that the next one's user may not use, or that is allowed no more, is among its
  revoked ones, and nothing of it is left. The hypothesis on \<open>loads\<close> says that the manifest that the first
  run wrote is read back as it was written.\<close>

theorem revoked_skill_leaves_disk:
  assumes "skill_source S" and "unlinked (dest_parts w subdir) fs" and "fs_tree fs"
    and "provision loads S I subdir w u fs = (Inr r, fs1)"
    and "loads (manifest_text (name_set (pv_provisioned r))) = Inr (manifest_value (name_set (pv_provisioned r)))"
    and "provision loads S I' subdir w' u' fs1 = (Inr r', fs2)" and "rw_cwd w' = rw_cwd w"
    and "s \<in> set (pv_provisioned r)" and "s \<notin> set (rw_allowed_skills w') \<or> \<not> ip_can_use_skill I' u' (rw_workspace_id w') s"
  shows "s \<in> set (pv_revoked r') \<and> (\<forall>q. prefix (dest_parts w subdir @ [s]) q \<longrightarrow> stat fs2 q = None)"
proof -
  have D: "dest_parts w' subdir = dest_parts w subdir" using assms(7) by simp
  note f = skill_source.whole [OF assms(1,4,2,3), unfolded run_facts_def]
  then have m: "stat fs1 (dest_parts w subdir @ [MANIFEST_FILE]) = Some (FFile (manifest_text (name_set (pv_provisioned r))))"
    and d: "stat fs1 (dest_parts w subdir @ [s]) = Some FDir" using assms(8) by simp_all
  have v: "\<forall>s \<in> set (pv_provisioned r). valid_name s"
    using f sorted_into_provisioned [of I u "rw_workspace_id w" "rw_allowed_skills w" "r\<lparr>pv_revoked := []\<rparr>"] by simp
  have old: "s \<in> set (managed_before loads (dest_parts w subdir) fs1)"
    using m assms(8) load_manifest_text [of "name_set (pv_provisioned r)" loads] assms(5) v by (simp add: managed_before_def)
  note g = skill_source.whole [OF assms(1,6), unfolded D, OF conjunct1 [OF f] conjunct1 [OF conjunct2 [OF f]], unfolded run_facts_def]
  have new: "s \<notin> set (pv_provisioned r')" 
    using g assms(9) sorted_into_provisioned [of I' u' "rw_workspace_id w'" "rw_allowed_skills w'" "r'\<lparr>pv_revoked := []\<rparr>" s] by auto
  have "s \<noteq> MANIFEST_FILE" using m d by auto
  with g old new d show ?thesis by (simp add: below_def)
qed

theorem revoked_skill_leaves_disk_witness:
  "\<exists>r' fs2. skill_run [''ab''] (snd (skill_run [''no''] skill_disk)) = (Inr r', fs2) \<and> ''ab'' \<in> set (pv_revoked r')
    \<and> stat fs2 [''w'', ''skills'', ''ab'', ''SKILL.md''] = None"
proof -
  let ?ab = "skill_result [''ab''] [''no''] [] [''../x''] []"
  obtain fs1 where r: "skill_run [''no''] skill_disk = (Inr ?ab, fs1)" using skill_run_one by (metis prod.collapse)
  obtain x fs2 where r2: "skill_run [''ab''] fs1 = (x, fs2)" by fastforce
  have "case fst (skill_run [''ab''] (snd (skill_run [''no''] skill_disk))) of Inl e \<Rightarrow> False | Inr r \<Rightarrow> True" by code_simp
  with r r2 obtain r' where r': "skill_run [''ab''] fs1 = (Inr r', fs2)" by (cases x) auto
  have names: "name_set (pv_provisioned ?ab) = [''ab'']" by code_simp
  have "\<not> ip_can_use_skill (skill_identity [''ab'']) skill_user (rw_workspace_id skill_workspace) ''ab''" by code_simp
  with revoked_skill_leaves_disk [OF localsrc.skill_source_axioms skill_disk_ok r [unfolded skill_run_def] _ r' [unfolded skill_run_def]]
  have "''ab'' \<in> set (pv_revoked r') \<and> stat fs2 [''w'', ''skills'', ''ab'', ''SKILL.md''] = None"
    unfolding names by (auto simp: skill_result_def skill_dest skill_loads_def)
  with r r' show ?thesis by simp
qed

end
