(* ===== verification/Git_Source.thy ===== *)
theory Git_Source
  imports Skills
begin

section \<open>The git skill source\<close>

text \<open>
  \<open>adapters/skills/git/source.py\<close>: the check of the configured paths, \<open>refresh\<close>, which brings a
  checkout of the repository into the cache directory and lays flat links over nested skills, and the
  reads, which a \<open>LocalDirSkillSource\<close> answers. The \<open>git\<close> program is a parameter: what a command does to
  the file system and what it answers. A \<open>Path\<close> is the list of its components, from the root.
\<close>

subsection \<open>pathlib\<close>

definition path_str :: "fpath \<Rightarrow> string" where
  "path_str cs = ''/'' @ join_with ''/'' cs"

definition path_exists :: "fs \<Rightarrow> fpath \<Rightarrow> bool" where
  "path_exists fs cs \<longleftrightarrow> stat_follow fs cs \<noteq> None"

definition is_symlink :: "fs \<Rightarrow> fpath \<Rightarrow> bool" where
  "is_symlink fs cs \<longleftrightarrow> (case lstat fs cs of Some (FLink t) \<Rightarrow> True | _ \<Rightarrow> False)"

function path_mkdir :: "fpath \<Rightarrow> fs \<Rightarrow> (exn + unit) \<times> fs" where
  \<comment> \<open>\<open>mkdir(parents=True, exist_ok=True)\<close>\<close>
  "path_mkdir cs fs =
     (case mkdir_ok cs fs of
        (Inr _, fs1) \<Rightarrow> (Inr (), fs1)
      | (Inl e, fs1) \<Rightarrow>
          (if exn_type e = ''FileNotFoundError'' \<and> cs \<noteq> []
           then (case path_mkdir (butlast cs) fs1 of
                   (Inl e', fs2) \<Rightarrow> (Inl e', fs2)
                 | (Inr _, fs2) \<Rightarrow> mkdir_ok cs fs2)
           else (Inl e, fs1)))"
  by pat_completeness auto
termination
  by (relation "measure (\<lambda>(cs, _). length cs)") auto

declare path_mkdir.simps [simp del]

definition entry_path :: "fs \<Rightarrow> fpath \<Rightarrow> exn + fpath" where
  \<comment> \<open>where an entry lies, its own name not followed\<close>
  "entry_path fs cs =
     res_bind (locate fs (butlast cs))
       (\<lambda>d. if stat fs d \<noteq> Some FDir then Inl (if stat fs d = None then not_found else not_a_directory) else Inr (d @ [last cs]))"

definition remove :: "fpath \<Rightarrow> fs \<Rightarrow> (exn + unit) \<times> fs" where
  \<comment> \<open>\<open>unlink\<close> of a link or a file, \<open>rmtree\<close> of a directory\<close>
  "remove cs fs =
     (case entry_path fs cs of
        Inl e \<Rightarrow> (Inl e, fs)
      | Inr p \<Rightarrow> if stat fs p = None then (Inl not_found, fs) else (Inr (), fs_del p fs))"

definition symlink_to :: "fpath \<Rightarrow> string \<Rightarrow> fs \<Rightarrow> (exn + unit) \<times> fs" where
  "symlink_to cs target fs =
     (case entry_path fs cs of
        Inl e \<Rightarrow> (Inl e, fs)
      | Inr p \<Rightarrow> if stat fs p \<noteq> None then (Inl (OSError ''FileExistsError'' ''File exists''), fs) else (Inr (), fs_put p (FLink target) fs))"

definition iterdir :: "fs \<Rightarrow> fpath \<Rightarrow> exn + string list" where
  "iterdir fs cs =
     res_bind (locate fs cs)
       (\<lambda>d. if stat fs d \<noteq> Some FDir then Inl (if stat fs d = None then not_found else not_a_directory) else Inr (fs_children fs d))"

definition fs_then :: "(fs \<Rightarrow> (exn + 'a) \<times> fs) \<Rightarrow> ('a \<Rightarrow> fs \<Rightarrow> (exn + 'b) \<times> fs) \<Rightarrow> fs \<Rightarrow> (exn + 'b) \<times> fs" where
  "fs_then m f fs = (case m fs of (Inl e, fs1) \<Rightarrow> (Inl e, fs1) | (Inr x, fs1) \<Rightarrow> f x fs1)"

subsection \<open>Allowed paths\<close>

definition MAX_PATH_LEN :: nat where
  "MAX_PATH_LEN = 256"

definition path_rejected :: "string \<Rightarrow> exn" where
  "path_rejected m = GitSkillSourceError m ''validate'' 0 ''''"

definition check_segment :: "string \<Rightarrow> string \<Rightarrow> exn + unit" where
  "check_segment p seg =
     (if seg = [] then Inl (path_rejected (''allowed_skill_paths entry has empty segment (double slash?): '' @ repr_str p))
      else if seg = ''..'' then Inl (path_rejected (''allowed_skill_paths entry contains '' @ repr_str ''..'' @ '' traversal: '' @ repr_str p))
      else Inr ())"

definition basename :: "string \<Rightarrow> string" where
  "basename p = last (split_on CHR ''/'' p)"

definition validate_allowed_path :: "string \<Rightarrow> exn + unit" where
  "validate_allowed_path p =
     (if p \<noteq> strip p then Inl (path_rejected (''allowed_skill_paths entry has leading/trailing whitespace: '' @ repr_str p))
      else if MAX_PATH_LEN < length p
      then Inl (path_rejected (''allowed_skill_paths entry too long ('' @ int_str (int (length p)) @ '' > 256): '' @ repr_str p))
      else if starts_with ''/'' p \<or> starts_with [char_of (92 :: nat)] p
      then Inl (path_rejected (''allowed_skill_paths entry is absolute: '' @ repr_str p))
      else if char_of (92 :: nat) \<in> set p
      then Inl (path_rejected (''allowed_skill_paths entry contains backslash: '' @ repr_str p))
      else (case res_all (check_segment p) (split_on CHR ''/'' p) of
              Inl e \<Rightarrow> Inl e
            | Inr _ \<Rightarrow>
                (case validate_skill_name (basename p) of
                   Inl e \<Rightarrow> Inl (path_rejected (''allowed_skill_paths basename is not a valid skill name: '' @ repr_str (basename p)))
                 | Inr _ \<Rightarrow> Inr ())))"

subsection \<open>The git program\<close>

record git_process =
  gp_returncode :: int
  gp_stdout :: string
  gp_stderr :: string

type_synonym git_program = "string list \<Rightarrow> fpath \<Rightarrow> fs \<Rightarrow> (exn + git_process) \<times> fs"
  \<comment> \<open>arguments, working directory\<close>

definition STDERR_TRIM :: nat where
  "STDERR_TRIM = 1000"

definition run_git :: "git_program \<Rightarrow> string list \<Rightarrow> fpath \<Rightarrow> fs \<Rightarrow> (exn + git_process) \<times> fs" where
  "run_git git args cwd fs =
     (case git args cwd fs of
        (Inl e, fs') \<Rightarrow>
          (Inl (if is_oserror e
                then (if exn_type e = ''FileNotFoundError'' then GitSkillSourceError ''git executable not found on PATH'' ''invoke'' 0 ''''
                      else GitSkillSourceError (''OS error invoking git: '' @ exn_str e) ''invoke'' 0 '''')
                else e), fs')
      | (Inr r, fs') \<Rightarrow>
          (let stage = hd args; err = take STDERR_TRIM (gp_stderr r) in
           (if gp_returncode r \<noteq> 0
            then Inl (GitSkillSourceError (''git '' @ stage @ '' failed (exit '' @ int_str (gp_returncode r) @ ''): '' @ err)
                        stage (gp_returncode r) err)
            else Inr r, fs')))"

subsection \<open>GitSkillSource\<close>

record git_source =
  gs_repo_url :: string
  gs_ref :: string
  gs_cache_dir :: fpath
  gs_allowed :: "string list option"
  gs_local :: "string option" \<comment> \<open>the root of the local source, once refreshed\<close>

record refresh_result =
  rr_ref :: string
  rr_materialized :: "string list"

definition git_source_init :: "string \<Rightarrow> string \<Rightarrow> string \<Rightarrow> string list option \<Rightarrow> exn + git_source" where
  "git_source_init repo_url ref cache_dir allowed =
     (if repo_url = [] then Inl (ValueError ''repo_url must be a non-empty string'')
      else if ref = [] then Inl (ValueError ''ref must be a non-empty string'')
      else Inr \<lparr>gs_repo_url = repo_url, gs_ref = ref, gs_cache_dir = path_parts cache_dir, gs_allowed = allowed, gs_local = None\<rparr>)"

definition make_cache :: "git_source \<Rightarrow> fs \<Rightarrow> (exn + unit) \<times> fs" where
  "make_cache gs fs =
     (case path_mkdir (gs_cache_dir gs) fs of
        (Inl e, fs1) \<Rightarrow>
          (Inl (GitSkillSourceError (''Failed to create cache_dir '' @ path_str (gs_cache_dir gs) @ '': '' @ exn_str e) ''mkdir'' 0 ''''), fs1)
      | (Inr _, fs1) \<Rightarrow> (Inr (), fs1))"

definition clone_once :: "git_program \<Rightarrow> git_source \<Rightarrow> fs \<Rightarrow> (exn + unit) \<times> fs" where
  "clone_once git gs fs =
     (let cache = gs_cache_dir gs in
      if path_exists fs (cache @ [''.git'']) then (Inr (), fs)
      else fs_then (run_git git [''clone'', ''--depth=1'', ''--filter=blob:none'', ''--no-checkout'', gs_repo_url gs, path_str cache] (butlast cache))
             (\<lambda>_ fs. (Inr (), fs)) fs)"

definition old_git :: "exn \<Rightarrow> bool" where
  \<comment> \<open>the error of a git that does not know the subcommand\<close>
  "old_git e = (case e of
     GitSkillSourceError m st rc err \<Rightarrow> sublist ''unknown'' (lower err) \<or> sublist ''is not a git command'' (lower err)
   | _ \<Rightarrow> False)"

definition sparse_setup :: "git_program \<Rightarrow> git_source \<Rightarrow> fs \<Rightarrow> (exn + unit) \<times> fs" where
  "sparse_setup git gs fs =
     (let cache = gs_cache_dir gs in
      case gs_allowed gs of
        Some ps \<Rightarrow>
          fs_then (run_git git [''sparse-checkout'', ''init'', ''--cone''] cache)
            (\<lambda>_. fs_then (run_git git ([''sparse-checkout'', ''set''] @ ps) cache) (\<lambda>_ fs. (Inr (), fs))) fs
      | None \<Rightarrow>
          (case run_git git [''sparse-checkout'', ''disable''] cache fs of
             (Inl e, fs1) \<Rightarrow> (if old_git e then Inr () else Inl e, fs1)
           | (Inr _, fs1) \<Rightarrow> (Inr (), fs1)))"

definition checkout :: "git_program \<Rightarrow> git_source \<Rightarrow> fs \<Rightarrow> (exn + string) \<times> fs" where
  \<comment> \<open>fetch, check out and name the commit\<close>
  "checkout git gs =
     (let cache = gs_cache_dir gs in
      fs_then (run_git git [''fetch'', ''--depth=1'', ''origin'', gs_ref gs] cache)
        (\<lambda>_. fs_then (run_git git [''checkout'', ''--detach'', ''FETCH_HEAD''] cache)
           (\<lambda>_. fs_then (run_git git [''rev-parse'', ''HEAD''] cache) (\<lambda>r fs. (Inr (strip (gp_stdout r)), fs)))))"

definition FLAT_DIR :: string where
  "FLAT_DIR = ''.claw_skills_flat''"

definition overlay_one :: "fpath \<Rightarrow> string \<Rightarrow> fs \<Rightarrow> (exn + unit) \<times> fs" where
  "overlay_one cache p fs =
     (let link = cache @ [FLAT_DIR, basename p]; target = cache @ path_parts p;
          lay = (\<lambda>_ fs. if path_exists fs target then symlink_to link (path_str target) fs else (Inr (), fs)) in
      if is_symlink fs link \<or> path_exists fs link
      then (case remove link fs of
              (Inl e, fs1) \<Rightarrow>
                (Inl (if is_oserror e then GitSkillSourceError (''Failed to clear stale overlay entry '' @ path_str link @ '': '' @ exn_str e) ''refresh'' 0 ''''
                      else e), fs1)
            | (Inr _, fs1) \<Rightarrow> lay () fs1)
      else lay () fs)"

fun overlay :: "fpath \<Rightarrow> string list \<Rightarrow> fs \<Rightarrow> (exn + unit) \<times> fs" where
  "overlay cache [] fs = (Inr (), fs)"
| "overlay cache (p # ps) fs = fs_then (overlay_one cache p) (\<lambda>_. overlay cache ps) fs"

definition nested :: "string list \<Rightarrow> bool" where
  "nested ps \<longleftrightarrow> (\<exists>p \<in> set ps. CHR ''/'' \<in> set p)"

definition materialize :: "git_source \<Rightarrow> fs \<Rightarrow> (exn + string list \<times> string) \<times> fs" where
  \<comment> \<open>the names of the skills and the root of the local source\<close>
  "materialize gs fs =
     (let cache = gs_cache_dir gs in
      case gs_allowed gs of
        Some ps \<Rightarrow>
          (if nested ps
           then fs_then (mkdir_ok (cache @ [FLAT_DIR]))
                  (\<lambda>_. fs_then (overlay cache ps) (\<lambda>_ fs. (Inr (List.map basename ps, path_str (cache @ [FLAT_DIR])), fs))) fs
           else (Inr (List.map basename ps, path_str cache), fs))
      | None \<Rightarrow>
          (res_bind (iterdir fs cache)
             (\<lambda>names. Inr (filter (\<lambda>n. isdir fs (cache @ [n]) \<and> \<not> starts_with ''.'' n) (sort names), path_str cache)), fs))"

definition refresh_disk :: "git_program \<Rightarrow> git_source \<Rightarrow> fs \<Rightarrow> (exn + refresh_result \<times> string) \<times> fs" where
  "refresh_disk git gs fs =
     (case res_all validate_allowed_path (case gs_allowed gs of None \<Rightarrow> [] | Some ps \<Rightarrow> ps) of
        Inl e \<Rightarrow> (Inl e, fs)
      | Inr _ \<Rightarrow>
          fs_then (make_cache gs)
            (\<lambda>_. fs_then (clone_once git gs)
               (\<lambda>_. fs_then (sparse_setup git gs)
                  (\<lambda>_. fs_then (checkout git gs)
                     (\<lambda>sha. fs_then (materialize gs)
                        (\<lambda>(names, dir) fs. (Inr (\<lparr>rr_ref = sha, rr_materialized = names\<rparr>, dir), fs)))))) fs)"

definition git_refresh :: "git_program \<Rightarrow> string option \<Rightarrow> git_source \<times> fs \<Rightarrow> (exn + refresh_result) \<times> git_source \<times> fs" where
  "git_refresh git ref s =
     (let gs = fst s; fs = snd s in
      if ref = Some [] then (Inl (ValueError ''ref override must be a non-empty string''), s)
      else let gs1 = (case ref of None \<Rightarrow> gs | Some r \<Rightarrow> gs\<lparr>gs_ref := r\<rparr>) in
        case refresh_disk git gs1 fs of
          (Inl e, fs1) \<Rightarrow> (Inl e, gs1, fs1)
        | (Inr (res, dir), fs1) \<Rightarrow> (Inr res, gs1\<lparr>gs_local := Some dir\<rparr>, fs1))"

subsection \<open>Reading\<close>

definition git_has_skill :: "git_source \<Rightarrow> string \<Rightarrow> fs \<Rightarrow> bool" where
  "git_has_skill gs name fs = (case gs_local gs of None \<Rightarrow> False | Some dir \<Rightarrow> local_has_skill dir name fs)"

definition git_has_dir :: "git_source \<Rightarrow> string \<Rightarrow> fs \<Rightarrow> bool" where
  "git_has_dir gs name fs = (case gs_local gs of None \<Rightarrow> False | Some dir \<Rightarrow> local_has_dir dir name fs)"

definition git_skill_dir :: "git_source \<Rightarrow> string \<Rightarrow> fs \<Rightarrow> exn + string" where
  "git_skill_dir gs name fs =
     (case gs_local gs of
        None \<Rightarrow> res_bind (validate_skill_name name) (\<lambda>_. Inl (SkillNotFound name))
      | Some dir \<Rightarrow> local_skill_dir dir name fs)"

definition git_source_ops :: "git_source \<Rightarrow> skill_source_ops" where
  "git_source_ops gs = \<lparr>so_has_skill = git_has_skill gs, so_has_dir = git_has_dir gs, so_skill_dir = git_skill_dir gs\<rparr>"

lemma git_source_sel [simp]:
  "so_has_skill (git_source_ops gs) = git_has_skill gs" "so_has_dir (git_source_ops gs) = git_has_dir gs"
  "so_skill_dir (git_source_ops gs) = git_skill_dir gs"
  by (simp_all add: git_source_ops_def)

interpretation gitsrc: skill_source "git_source_ops gs"
  by unfold_locales
    (auto simp: git_has_skill_def git_has_dir_def git_skill_dir_def local_has_skill_def local_has_dir_def local_skill_dir_def Let_def
      split: option.splits if_splits dest: validate_Inl)

end
