(* ===== verification/Git_Properties.thy ===== *)
theory Git_Properties
  imports Git_Source
begin

section \<open>What a refresh does\<close>

text \<open>
  The properties of \<open>GitSkillSource.refresh\<close>: bad paths are refused before anything happens, a refresh stays
  in the cache directory as long as the repository does not use the name of the overlay
  (\<open>refresh_follows_repository_link\<close> shows what happens when it does), and the flat overlay answers for
  the nested directories.
\<close>

subsection \<open>Allowed paths\<close>

lemma validated_segments:
  assumes "validate_allowed_path p = Inr ()"
  shows "''..'' \<notin> set (path_parts p)" and "validate_skill_name (basename p) = Inr ()" and "\<not> is_absolute p"
    and "path_parts p \<noteq> []" and "last (path_parts p) = basename p"
proof -
  from assms have "res_all (check_segment p) (split_on CHR ''/'' p) = Inr ()" and v: "validate_skill_name (basename p) = Inr ()"
    by (auto simp: validate_allowed_path_def split: if_splits sum.splits)
  then have s: "\<forall>s \<in> set (split_on CHR ''/'' p). s \<noteq> [] \<and> s \<noteq> ''..''"
    by (auto simp: res_all_Inr_iff check_segment_def split: if_splits)
  then show "''..'' \<notin> set (path_parts p)" by (auto simp: path_parts_def)
  show "validate_skill_name (basename p) = Inr ()" by (rule v)
  show "\<not> is_absolute p" using assms by (auto simp: validate_allowed_path_def is_absolute_def split: if_splits)
  have l: "split_on CHR ''/'' p = butlast (split_on CHR ''/'' p) @ [basename p]" by (simp add: basename_def)
  have parts: "path_parts p = filter (\<lambda>s. s \<noteq> [] \<and> s \<noteq> ''.'') (butlast (split_on CHR ''/'' p)) @ [basename p]"
    using valid_nameD [OF v] unfolding path_parts_def by (subst l) simp
  then show "path_parts p \<noteq> []" "last (path_parts p) = basename p" by simp_all
qed

lemma validate_error: "validate_allowed_path p = Inl e \<Longrightarrow> \<exists>m. e = path_rejected m"
proof -
  have seg: "\<exists>m. e = path_rejected m" if "res_all (check_segment p) ss = Inl e" for ss
    using that by (induction ss) (auto simp: check_segment_def split: sum.splits if_splits)
  show "validate_allowed_path p = Inl e \<Longrightarrow> \<exists>m. e = path_rejected m"
    using seg by (auto simp: validate_allowed_path_def split: if_splits sum.splits)
qed

subsection \<open>Paths whose way is clear\<close>

definition clear_way :: "fpath \<Rightarrow> fs \<Rightarrow> bool" where
  "clear_way d fs \<longleftrightarrow> ''..'' \<notin> set d \<and> (\<forall>q t. prefix q d \<longrightarrow> stat fs q \<noteq> Some (FLink t))"

lemma clear_way_prefix: "clear_way d fs \<Longrightarrow> prefix c d \<Longrightarrow> clear_way c fs"
  unfolding clear_way_def using set_mono_prefix prefix_order.trans by blast

lemma walk_append_clear:
  "''..'' \<notin> set as \<Longrightarrow> (\<And>q t. prefix q (cur @ as) \<Longrightarrow> stat fs q \<noteq> Some (FLink t)) \<Longrightarrow>
     walk n fs cur (as @ bs) = (case walk n fs cur as of Inl e \<Rightarrow> Inl e | Inr p \<Rightarrow> walk n fs (cur @ as) bs)"
proof (induction as arbitrary: cur)
  case (Cons a as)
  have l: "stat fs (cur @ [a]) \<noteq> Some (FLink t)" for t using Cons.prems(2) [of "cur @ [a]" t] by simp
  have a: "a \<noteq> ''..''" using Cons.prems(1) by auto
  show ?case
  proof (cases "stat fs cur = Some FDir")
    case True
    then show ?thesis
      using Cons.IH [of "cur @ [a]"] Cons.prems walk_step [OF a, of fs cur n] l by (simp split: sum.split)
  next
    case False
    then show ?thesis by (simp add: walk.simps(2))
  qed
qed simp

lemma walk_clear_budget:
  "''..'' \<notin> set cs \<Longrightarrow> (\<And>q t. prefix q (cur @ cs) \<Longrightarrow> stat fs q \<noteq> Some (FLink t)) \<Longrightarrow> walk n fs cur cs = walk m fs cur cs"
proof (induction cs arbitrary: cur)
  case (Cons c cs)
  have l: "stat fs (cur @ [c]) \<noteq> Some (FLink t)" for t using Cons.prems(2) [of "cur @ [c]" t] by simp
  have c: "c \<noteq> ''..''" using Cons.prems(1) by auto
  show ?case
  proof (cases "stat fs cur = Some FDir")
    case True
    then show ?thesis using Cons.IH [of "cur @ [c]"] Cons.prems walk_step [OF c, of fs cur] l by simp
  next
    case False
    then show ?thesis by (simp add: walk.simps(2))
  qed
qed simp

lemma walk_clear_cong:
  "''..'' \<notin> set cs \<Longrightarrow> (\<And>q t. prefix q (cur @ cs) \<Longrightarrow> stat fs q \<noteq> Some (FLink t)) \<Longrightarrow> (\<And>q. prefix q (cur @ cs) \<Longrightarrow> stat fs' q = stat fs q)
     \<Longrightarrow> walk n fs' cur cs = walk n fs cur cs"
proof (induction cs arbitrary: cur)
  case (Cons c cs)
  have "stat fs' (cur @ [c]) = stat fs (cur @ [c])" "stat fs' cur = stat fs cur"
    using Cons.prems(3) [of "cur @ [c]"] Cons.prems(3) [of cur] by simp_all
  moreover have "walk n fs' (cur @ [c]) cs = walk n fs (cur @ [c]) cs" using Cons.IH [of "cur @ [c]"] Cons.prems by simp
  moreover have "stat fs (cur @ [c]) \<noteq> Some (FLink t)" for t using Cons.prems(2) [of "cur @ [c]" t] by simp
  ultimately show ?case using Cons.prems(1) by (auto simp: walk.simps(2) split: option.splits fs_node.splits)
qed simp

lemma locate_append_clear:
  "clear_way cs fs \<Longrightarrow> locate fs (cs @ bs) = (case locate fs cs of Inl e \<Rightarrow> Inl e | Inr p \<Rightarrow> walk link_limit fs cs bs)"
  using walk_append_clear [of cs "[]" fs link_limit bs] by (simp add: locate_def clear_way_def split: sum.split)

lemma locate_clear: "clear_way cs fs \<Longrightarrow> locate fs cs = Inr p \<Longrightarrow> p = cs"
  using walk_plain [of link_limit fs "[]" cs p] by (auto simp: locate_def clear_way_def)

lemma stat_follow_cong:
  assumes "clear_way cs fs" and "\<And>q. prefix q cs \<Longrightarrow> stat fs' q = stat fs q"
  shows "stat_follow fs' cs = stat_follow fs cs"
proof -
  have "locate fs' cs = locate fs cs"
    using walk_clear_cong [of cs "[]" fs fs' link_limit] assms by (auto simp: locate_def clear_way_def)
  then show ?thesis using locate_clear [OF assms(1)] assms(2) by (auto simp: stat_follow_def split: sum.splits)
qed

subsection \<open>Staying in the cache\<close>

text \<open>The invariant of a refresh that started in \<open>fs0\<close>: no link on the way to the overlay, and nothing
  changed but the cache and the directories above it.\<close>

definition in_cache :: "fpath \<Rightarrow> fs \<Rightarrow> fs \<Rightarrow> bool" where
  "in_cache cache fs0 fs \<longleftrightarrow>
     clear_way (cache @ [FLAT_DIR]) fs \<and> (\<forall>q. stat fs q \<noteq> stat fs0 q \<longrightarrow> above cache q \<or> prefix cache q)"

definition keeps :: "(fs \<Rightarrow> bool) \<Rightarrow> (fs \<Rightarrow> (exn + 'a) \<times> fs) \<Rightarrow> bool" where
  "keeps P m \<longleftrightarrow> (\<forall>fs. P fs \<longrightarrow> P (snd (m fs)))"

named_theorems keeps_rules

lemma keeps_then [keeps_rules]: "keeps P m \<Longrightarrow> (\<And>x. keeps P (f x)) \<Longrightarrow> keeps P (fs_then m f)"
  by (auto simp: keeps_def fs_then_def split: prod.splits sum.splits)

lemma keeps_pure [keeps_rules]: "keeps P (\<lambda>fs. (g fs, fs))"
  by (simp add: keeps_def)

lemma keeps_if [keeps_rules]: "keeps P m \<Longrightarrow> keeps P m' \<Longrightarrow> keeps P (\<lambda>fs. if b fs then m fs else m' fs)"
  by (simp add: keeps_def)

lemma in_cache_change:
  assumes "in_cache cache fs0 fs" and "\<And>q. stat fs' q \<noteq> stat fs q \<Longrightarrow> above cache q \<or> prefix cache q"
    and "\<And>q t. prefix q (cache @ [FLAT_DIR]) \<Longrightarrow> stat fs' q \<noteq> stat fs q \<Longrightarrow> stat fs' q \<noteq> Some (FLink t)"
  shows "in_cache cache fs0 fs'"
  using assms unfolding in_cache_def clear_way_def by metis

lemma clear_mkdir_ok:
  assumes "clear_way cs fs" and "cs \<noteq> []"
  shows "snd (mkdir_ok cs fs) = fs \<or> snd (mkdir_ok cs fs) = fs_put cs FDir fs"
    and "fst (mkdir_ok cs fs) = Inr () \<Longrightarrow> stat (snd (mkdir_ok cs fs)) cs = Some FDir"
proof -
  have l: "p = butlast cs" if "locate fs (butlast cs) = Inr p" for p
    using locate_clear [OF clear_way_prefix [OF assms(1) prefixeq_butlast] that] .
  show "snd (mkdir_ok cs fs) = fs \<or> snd (mkdir_ok cs fs) = fs_put cs FDir fs"
    using l assms(2) by (auto simp: mkdir_ok_def mkdir_def split: sum.splits)
  show "fst (mkdir_ok cs fs) = Inr () \<Longrightarrow> stat (snd (mkdir_ok cs fs)) cs = Some FDir"
    using l assms(2) locate_clear [OF assms(1)]
    by (auto simp: mkdir_ok_def mkdir_def isdir_def stat_follow_def split: sum.splits if_splits)
qed

lemma keeps_mkdir_ok:
  assumes "prefix cs (cache @ [FLAT_DIR])" and "cs \<noteq> []" shows "keeps (in_cache cache fs0) (mkdir_ok cs)"
  unfolding keeps_def
proof (intro allI impI)
  fix fs assume i: "in_cache cache fs0 fs"
  then have "clear_way cs fs" using clear_way_prefix assms(1) unfolding in_cache_def by blast
  from clear_mkdir_ok(1) [OF this assms(2)] show "in_cache cache fs0 (snd (mkdir_ok cs fs))"
  proof
    assume new: "snd (mkdir_ok cs fs) = fs_put cs FDir fs"
    have "prefix cs cache \<or> cs = cache @ [FLAT_DIR]" using assms(1) by auto
    then have "above cache cs \<or> prefix cache cs" using assms(2) by (auto simp: above_def)
    then show ?thesis unfolding new using assms(2) by (intro in_cache_change [OF i]) (auto split: if_splits)
  qed (use i in simp)
qed

lemma path_mkdir_keeps:
  "prefix cs cache \<Longrightarrow> in_cache cache fs0 fs \<Longrightarrow> in_cache cache fs0 (snd (path_mkdir cs fs))"
proof (induction cs fs rule: path_mkdir.induct)
  case (1 cs fs)
  have k: "in_cache cache fs0 (snd (mkdir_ok cs fs'))" if "in_cache cache fs0 fs'" for fs'
  proof (cases "cs = []")
    case True
    then show ?thesis using that by (simp add: mkdir_ok_def isdir_def stat_follow_def locate_def)
  next
    case False
    with keeps_mkdir_ok [of cs cache fs0] 1(2) that show ?thesis by (simp add: keeps_def prefix_append)
  qed
  obtain x fs1 where m: "mkdir_ok cs fs = (x, fs1)" by fastforce
  with k [OF 1(3)] have i: "in_cache cache fs0 fs1" by simp
  show ?case
  proof (cases x)
    case (Inl e)
    obtain y fs2 where b: "path_mkdir (butlast cs) fs1 = (y, fs2)" by fastforce
    have "in_cache cache fs0 fs2" if "exn_type e = ''FileNotFoundError'' \<and> cs \<noteq> []"
      using 1(1) [OF m [symmetric] Inl that] 1(2) i b by (metis prefix_order.trans prefixeq_butlast snd_conv)
    with Inl m i b k show ?thesis by (subst path_mkdir.simps) (auto split: sum.splits)
  next
    case (Inr v)
    with m i show ?thesis by (subst path_mkdir.simps) simp
  qed
qed

text \<open>What the program relies on: git works below the cache directory, and the repository has nothing under
  the name of the overlay.\<close>

definition git_stays :: "fpath \<Rightarrow> git_program \<Rightarrow> bool" where
  "git_stays cache git \<longleftrightarrow>
     (\<forall>args cwd fs q. stat (snd (git args cwd fs)) q \<noteq> stat fs q \<longrightarrow> strict_prefix cache q \<and> \<not> prefix (cache @ [FLAT_DIR]) q)"

lemma keeps_run_git [keeps_rules]:
  assumes "git_stays cache git" shows "keeps (in_cache cache fs0) (run_git git args cwd)"
  unfolding keeps_def
proof (intro allI impI)
  fix fs assume i: "in_cache cache fs0 fs"
  have e: "snd (run_git git args cwd fs) = snd (git args cwd fs)"
    by (auto simp: run_git_def Let_def split: prod.splits sum.splits)
  have "strict_prefix cache q \<and> \<not> prefix (cache @ [FLAT_DIR]) q" if "stat (snd (git args cwd fs)) q \<noteq> stat fs q" for q
    using that assms by (auto simp: git_stays_def)
  then show "in_cache cache fs0 (snd (run_git git args cwd fs))"
    unfolding e by (intro in_cache_change [OF i]) (auto simp: strict_prefix_def prefix_snoc dest: prefix_order.antisym)
qed

lemma entry_path_clear:
  assumes "clear_way d fs" and "prefix (butlast cs) d" and "cs \<noteq> []" and "entry_path fs cs = Inr p" shows "p = cs"
proof -
  from assms(4) obtain q where q: "locate fs (butlast cs) = Inr q" "p = q @ [last cs]"
    by (auto simp: entry_path_def split: if_splits)
  from locate_clear [OF clear_way_prefix [OF assms(1,2)] q(1)] q(2) assms(3) show ?thesis by simp
qed

lemma keeps_overlay_one [keeps_rules]: "keeps (in_cache cache fs0) (overlay_one cache p)"
  unfolding keeps_def
proof (intro allI impI)
  fix fs assume i: "in_cache cache fs0 fs"
  let ?l = "cache @ [FLAT_DIR, basename p]"
  have at: "in_cache cache fs0 fs2"
    if "in_cache cache fs0 fs1" "\<And>q. stat fs2 q \<noteq> stat fs1 q \<Longrightarrow> prefix ?l q" for fs1 fs2
  proof (rule in_cache_change [OF that(1)])
    show "above cache q \<or> prefix cache q" if "stat fs2 q \<noteq> stat fs1 q" for q
      using \<open>\<And>q. stat fs2 q \<noteq> stat fs1 q \<Longrightarrow> prefix ?l q\<close> [OF that] by (metis append_prefixD)
    show "stat fs2 q \<noteq> Some (FLink t)" if "prefix q (cache @ [FLAT_DIR])" "stat fs2 q \<noteq> stat fs1 q" for q t
    proof -
      from \<open>\<And>q. stat fs2 q \<noteq> stat fs1 q \<Longrightarrow> prefix ?l q\<close> [OF that(2)] have "length ?l \<le> length q" by (rule prefix_length_le)
      moreover have "length q \<le> length (cache @ [FLAT_DIR])" using that(1) by (rule prefix_length_le)
      ultimately show ?thesis by simp
    qed
  qed
  have ep: "q = ?l" if "in_cache cache fs0 fs1" "entry_path fs1 ?l = Inr q" for fs1 q
    using that entry_path_clear [of "cache @ [FLAT_DIR]" fs1 ?l q] by (simp add: in_cache_def butlast_append)
  have rm: "in_cache cache fs0 (snd (remove ?l fs))"
    using ep [OF i] by (auto simp: remove_def i intro!: at [OF i] split: sum.splits if_splits)
  have ln: "in_cache cache fs0 (snd (symlink_to ?l t fs1))" if "in_cache cache fs0 fs1" for fs1 t
    using ep [OF that] by (auto simp: symlink_to_def that intro!: at [OF that] split: sum.splits if_splits)
  show "in_cache cache fs0 (snd (overlay_one cache p fs))"
    using rm ln i by (auto simp: overlay_one_def Let_def split: prod.splits sum.splits)
qed

lemma keeps_overlay [keeps_rules]: "keeps (in_cache cache fs0) (overlay cache ps)"
proof (induction ps)
  case (Cons p ps)
  have "overlay cache (p # ps) = fs_then (overlay_one cache p) (\<lambda>_. overlay cache ps)" by (rule ext) simp
  with keeps_then [OF keeps_overlay_one Cons] show ?case by simp
qed (simp add: keeps_def)

lemma keeps_materialize: "gs_cache_dir gs = cache \<Longrightarrow> keeps (in_cache cache fs0) (materialize gs)"
  unfolding materialize_def Let_def
  by (cases "gs_allowed gs") (auto simp del: fs_then_def intro!: keeps_rules keeps_mkdir_ok)

lemma keeps_parts:
  assumes "git_stays (gs_cache_dir gs) git"
  shows keeps_make: "keeps (in_cache (gs_cache_dir gs) fs0) (make_cache gs)"
    and keeps_clone: "keeps (in_cache (gs_cache_dir gs) fs0) (clone_once git gs)"
    and keeps_sparse: "keeps (in_cache (gs_cache_dir gs) fs0) (sparse_setup git gs)"
    and keeps_checkout: "keeps (in_cache (gs_cache_dir gs) fs0) (checkout git gs)"
proof -
  let ?P = "in_cache (gs_cache_dir gs) fs0"
  note g = keeps_run_git [OF assms, of fs0]
  show "keeps ?P (make_cache gs)"
    using path_mkdir_keeps [OF prefix_order.refl, of "gs_cache_dir gs" fs0]
    by (auto simp: keeps_def make_cache_def split: prod.splits sum.splits) (metis snd_conv)+
  show "keeps ?P (clone_once git gs)"
    unfolding clone_once_def Let_def by (intro keeps_rules g keeps_if)
  show "keeps ?P (sparse_setup git gs)"
  proof (cases "gs_allowed gs")
    case None
    with g [of "[''sparse-checkout'', ''disable'']" "gs_cache_dir gs"] show ?thesis
      by (auto simp: keeps_def sparse_setup_def split: prod.splits sum.splits)
  next
    case (Some ps)
    then show ?thesis unfolding sparse_setup_def by (simp add: Let_def) (intro keeps_rules g)
  qed
  show "keeps ?P (checkout git gs)"
    unfolding checkout_def Let_def by (intro keeps_rules g)
qed

lemma keeps_refresh:
  assumes "git_stays (gs_cache_dir gs) git" shows "keeps (in_cache (gs_cache_dir gs) fs0) (refresh_disk git gs)"
proof (cases "res_all validate_allowed_path (case gs_allowed gs of None \<Rightarrow> [] | Some ps \<Rightarrow> ps)")
  case (Inl e)
  then show ?thesis by (simp add: keeps_def refresh_disk_def)
next
  case (Inr v)
  show ?thesis unfolding refresh_disk_def Inr sum.case
    by (intro keeps_then keeps_parts [OF assms] keeps_materialize [OF refl]) (auto simp: keeps_def)
qed

lemma fs_then_Inr: "fs_then m f fs = (Inr y, fs2) \<longleftrightarrow> (\<exists>x fs1. m fs = (Inr x, fs1) \<and> f x fs1 = (Inr y, fs2))"
  by (auto simp: fs_then_def split: prod.splits sum.splits)

lemma refresh_last_step:
  assumes "git_stays (gs_cache_dir gs) git" and "in_cache (gs_cache_dir gs) fs0 fs" and "refresh_disk git gs fs = (Inr (res, rt), fs')"
  obtains fs1 where "in_cache (gs_cache_dir gs) fs0 fs1" and "materialize gs fs1 = (Inr (rr_materialized res, rt), fs')"
proof -
  from assms(3) obtain a b c sha f1 f2 f3 f4 names where s: "make_cache gs fs = (Inr a, f1)" "clone_once git gs f1 = (Inr b, f2)"
      "sparse_setup git gs f2 = (Inr c, f3)" "checkout git gs f3 = (Inr sha, f4)"
      "materialize gs f4 = (Inr (names, rt), fs')" "rr_materialized res = names"
    by (auto simp: refresh_disk_def fs_then_Inr split: sum.splits)
  from keeps_parts [OF assms(1), of fs0] assms(2) s(1-4) have "in_cache (gs_cache_dir gs) fs0 f4"
    unfolding keeps_def by (metis snd_conv)
  with s(5,6) that show ?thesis by blast
qed

lemma validate_all_error:
  assumes "p \<in> set ps" and "validate_allowed_path p \<noteq> Inr ()" shows "\<exists>m. res_all validate_allowed_path ps = Inl (path_rejected m)"
proof (cases "res_all validate_allowed_path ps")
  case (Inl e)
  have "\<exists>m. e = path_rejected m" if "res_all validate_allowed_path qs = Inl e" for qs
    using that validate_error by (induction qs) (auto split: sum.splits)
  with Inl show ?thesis by blast
qed (use assms in \<open>auto simp: res_all_Inr_iff\<close>)

subsection \<open>The overlay\<close>

lemma path_parts_str:
  assumes "\<forall>c \<in> set cs. c \<noteq> [] \<and> c \<noteq> ''.'' \<and> CHR ''/'' \<notin> set c" shows "path_parts (path_str cs) = cs"
proof -
  have "path_parts (path_str cs) = path_parts (join_with ''/'' cs)"
    using path_parts_snoc_slash [of "[]" "join_with ''/'' cs"] by (simp add: path_str_def path_parts_def)
  moreover have "path_parts (join_with ''/'' cs) = cs"
    using assms split_join [of cs "CHR ''/''"] by (cases cs) (simp_all add: path_parts_def filter_id_conv)
  ultimately show ?thesis by simp
qed

lemma path_parts_proper: "c \<in> set (path_parts p) \<Longrightarrow> c \<noteq> [] \<and> c \<noteq> ''.'' \<and> CHR ''/'' \<notin> set c"
  using split_on_sep_free by (auto simp: path_parts_def)

definition flat_ready :: "fpath \<Rightarrow> fs \<Rightarrow> bool" where
  "flat_ready F fs \<longleftrightarrow> clear_way F fs \<and> locate fs F = Inr F \<and> stat fs F = Some FDir"

lemma flat_ready_cong:
  assumes "flat_ready F fs" and "\<And>q. prefix q F \<Longrightarrow> stat fs' q = stat fs q" shows "flat_ready F fs'"
  using assms walk_clear_cong [of F "[]" fs fs' link_limit] by (simp add: flat_ready_def clear_way_def locate_def)

lemma mkdir_ok_ready:
  assumes "clear_way F fs" and "F \<noteq> []" and "mkdir_ok F fs = (Inr (), fs')" shows "flat_ready F fs'"
proof -
  have d: "stat fs' F = Some FDir" using clear_mkdir_ok(2) [OF assms(1,2)] assms(3) by simp
  show ?thesis
  proof (cases "isdir fs F")
    case True
    with assms(3) have "fs' = fs" by (simp add: mkdir_ok_def)
    with True d assms(1) locate_clear [OF assms(1)] show ?thesis
      by (auto simp: flat_ready_def isdir_def stat_follow_def split: sum.splits)
  next
    case False
    let ?c = "butlast F"
    have F: "F = ?c @ [last F]" using assms(2) by simp
    from False assms(3) have m: "mkdir F fs = (Inr (), fs')" by (simp add: mkdir_ok_def)
    then obtain p where p: "locate fs ?c = Inr p" "stat fs p = Some FDir" "fs' = fs_put (p @ [last F]) FDir fs"
      by (auto simp: mkdir_def split: sum.splits if_splits)
    have c: "clear_way ?c fs" using clear_way_prefix [OF assms(1) prefixeq_butlast] .
    have pc: "p = ?c" using locate_clear [OF c p(1)] .
    have fs': "fs' = fs_put F FDir fs" using p(3) F unfolding pc by simp
    have same: "stat fs' q = stat fs q" if "prefix q ?c" for q
    proof -
      have "length q < length F" using prefix_length_le [OF that] assms(2) by (cases F rule: rev_cases) auto
      then show ?thesis using assms(2) by (auto simp: fs')
    qed
    have cl: "clear_way F fs'" using assms(1,2) by (simp add: clear_way_def fs')
    have "locate fs' ?c = Inr ?c"
      using walk_clear_cong [of ?c "[]" fs fs' link_limit] c same p(1) pc by (simp add: locate_def clear_way_def)
    moreover have "locate fs' F = (case locate fs' ?c of Inl e \<Rightarrow> Inl e | Inr q \<Rightarrow> walk link_limit fs' ?c [last F])"
      using locate_append_clear [OF clear_way_prefix [OF cl prefixeq_butlast], of "[last F]"] F by simp
    moreover have "last F \<noteq> ''..''" using cl last_in_set [OF assms(2)] by (metis clear_way_def)
    moreover have "stat fs' ?c = Some FDir" using same [of ?c] p(2) pc by simp
    ultimately have "locate fs' F = Inr F"
      using walk_step [of "last F" fs' ?c link_limit "[]"] d F by simp
    with cl d show ?thesis by (simp add: flat_ready_def)
  qed
qed

lemma stat_follow_child:
  assumes "flat_ready F fs" and "b \<noteq> ''..''" and "\<And>t. stat fs (F @ [b]) \<noteq> Some (FLink t)"
  shows "stat_follow fs (F @ [b]) = stat fs (F @ [b])"
proof -
  have "locate fs (F @ [b]) = walk link_limit fs F [b]"
    using assms(1) locate_append_clear [of F fs "[b]"] by (simp add: flat_ready_def)
  also have "\<dots> = Inr (F @ [b])" using walk_step [of b fs F link_limit "[]"] assms by (simp add: flat_ready_def)
  finally show ?thesis by (simp add: stat_follow_def)
qed

lemma overlay_one_spec:
  assumes "flat_ready (cache @ [FLAT_DIR]) fs" and "basename p \<noteq> ''..''" and "overlay_one cache p fs = (Inr (), fs')"
  shows "(\<forall>q. \<not> prefix (cache @ [FLAT_DIR, basename p]) q \<longrightarrow> stat fs' q = stat fs q)
    \<and> (clear_way (cache @ path_parts p) fs \<longrightarrow> \<not> prefix (cache @ [FLAT_DIR]) (cache @ path_parts p) \<longrightarrow>
        stat fs' (cache @ [FLAT_DIR, basename p]) =
          (if path_exists fs (cache @ path_parts p) then Some (FLink (path_str (cache @ path_parts p))) else None))"
proof -
  let ?F = "cache @ [FLAT_DIR]" and ?l = "cache @ [FLAT_DIR, basename p]" and ?t = "cache @ path_parts p"
  have b: "butlast ?l = ?F" "last ?l = basename p" "?l = ?F @ [basename p]" by (simp_all add: butlast_append)
  have ep: "entry_path fs1 ?l = Inr ?l" if "flat_ready ?F fs1" for fs1
    using that unfolding entry_path_def b(1,2) by (simp add: flat_ready_def)
  obtain fs1 where one: "\<forall>q. \<not> prefix ?l q \<longrightarrow> stat fs1 q = stat fs q" "stat fs1 ?l = None"
    and two: "(if path_exists fs1 ?t then symlink_to ?l (path_str ?t) fs1 else (Inr (), fs1)) = (Inr (), fs')"
  proof (cases "is_symlink fs ?l \<or> path_exists fs ?l")
    case True
    with assms(3) ep [OF assms(1)] have "stat fs ?l \<noteq> None"
        "(if path_exists (fs_del ?l fs) ?t then symlink_to ?l (path_str ?t) (fs_del ?l fs) else (Inr (), fs_del ?l fs)) = (Inr (), fs')"
      by (auto simp: overlay_one_def Let_def remove_def split: if_splits)
    then show ?thesis by (intro that [of "fs_del ?l fs"]) simp_all
  next
    case False
    have "stat fs ?l = None"
      using False stat_follow_child [OF assms(1,2)] assms(1)
      unfolding is_symlink_def lstat_def b(1,2) path_exists_def
      by (cases "stat fs ?l") (auto simp: flat_ready_def split: fs_node.splits)
    with False assms(3) show ?thesis by (intro that [of fs]) (simp_all add: overlay_one_def Let_def)
  qed
  have r1: "flat_ready ?F fs1"
  proof (rule flat_ready_cong [OF assms(1)])
    fix q assume "prefix q ?F"
    then have "length q \<le> length ?F" by (rule prefix_length_le)
    then have "\<not> prefix ?l q" using prefix_length_le [of ?l q] by auto
    with one(1) show "stat fs1 q = stat fs q" by blast
  qed
  have put: "symlink_to ?l t fs1 = (Inr (), fs_put ?l (FLink t) fs1)" for t
    using ep [OF r1] one(2) by (simp add: symlink_to_def)
  have same: "path_exists fs1 ?t = path_exists fs ?t" if "clear_way ?t fs" "\<not> prefix ?F ?t"
  proof -
    have "\<not> prefix ?l q" if "prefix q ?t" for q
    proof
      assume "prefix ?l q"
      then have "prefix ?F q" unfolding b(3) by (rule append_prefixD)
      from this that have "prefix ?F ?t" by (rule prefix_order.trans)
      with \<open>\<not> prefix ?F ?t\<close> show False ..
    qed
    then have "stat_follow fs1 ?t = stat_follow fs ?t" using one(1) by (intro stat_follow_cong [OF that(1)]) blast
    then show ?thesis by (simp add: path_exists_def)
  qed
  have self: "prefix ?l ?l" by simp
  show ?thesis
  proof (cases "path_exists fs1 ?t")
    case True
    with two put have fs': "fs' = fs_put ?l (FLink (path_str ?t)) fs1" by simp
    have "stat fs' q = stat fs q" if "\<not> prefix ?l q" for q using that one(1) self by (auto simp: fs')
    moreover have "stat fs' ?l = Some (FLink (path_str ?t))" by (simp add: fs')
    ultimately show ?thesis using same True by simp
  next
    case False
    with two have "fs' = fs1" by simp
    with one same False show ?thesis by simp
  qed
qed

lemma overlay_spec:
  "flat_ready (cache @ [FLAT_DIR]) fs \<Longrightarrow> overlay cache ps fs = (Inr (), fs') \<Longrightarrow> distinct (List.map basename ps)
     \<Longrightarrow> \<forall>p \<in> set ps. basename p \<noteq> ''..''
     \<Longrightarrow> flat_ready (cache @ [FLAT_DIR]) fs'
       \<and> (\<forall>q. (\<forall>p \<in> set ps. \<not> prefix (cache @ [FLAT_DIR, basename p]) q) \<longrightarrow> stat fs' q = stat fs q)
       \<and> (\<forall>p \<in> set ps. clear_way (cache @ path_parts p) fs \<longrightarrow> \<not> prefix (cache @ [FLAT_DIR]) (cache @ path_parts p) \<longrightarrow>
            stat fs' (cache @ [FLAT_DIR, basename p]) =
              (if path_exists fs (cache @ path_parts p) then Some (FLink (path_str (cache @ path_parts p))) else None))"
proof (induction ps arbitrary: fs)
  case (Cons p ps)
  let ?F = "cache @ [FLAT_DIR]"
  from Cons.prems(2) obtain fs1 where o: "overlay_one cache p fs = (Inr (), fs1)" and rest: "overlay cache ps fs1 = (Inr (), fs')"
    by (auto simp: fs_then_def split: prod.splits sum.splits)
  have b: "basename p \<noteq> ''..''" using Cons.prems(4) by simp
  note one = overlay_one_spec [OF Cons.prems(1) b o]
  have short: "\<not> prefix (cache @ [FLAT_DIR, b]) q" if "prefix q ?F" for q b
    using prefix_length_le [OF that] prefix_length_le [of "cache @ [FLAT_DIR, b]" q] by auto
  have r1: "flat_ready ?F fs1" using one short by (intro flat_ready_cong [OF Cons.prems(1)]) blast
  have ih: "flat_ready ?F fs'"
      "\<And>q. (\<forall>p \<in> set ps. \<not> prefix (cache @ [FLAT_DIR, basename p]) q) \<Longrightarrow> stat fs' q = stat fs1 q"
      "\<And>p. p \<in> set ps \<Longrightarrow> clear_way (cache @ path_parts p) fs1 \<Longrightarrow> \<not> prefix ?F (cache @ path_parts p) \<Longrightarrow>
            stat fs' (cache @ [FLAT_DIR, basename p]) =
              (if path_exists fs1 (cache @ path_parts p) then Some (FLink (path_str (cache @ path_parts p))) else None)"
    using Cons.IH [OF r1 rest] Cons.prems(3,4) by simp_all
  have away: "stat fs1 q = stat fs q" if "prefix q t" "\<not> prefix ?F t" for q t
  proof -
    have "\<not> prefix (cache @ [FLAT_DIR, basename p]) q"
    proof
      assume "prefix (cache @ [FLAT_DIR, basename p]) q"
      then have "prefix ?F q" using append_prefixD [of ?F "[basename p]" q] by simp
      from this that(1) have "prefix ?F t" by (rule prefix_order.trans)
      with that(2) show False ..
    qed
    with one show ?thesis by blast
  qed
  have cw: "clear_way t fs1 \<and> path_exists fs1 t = path_exists fs t" if "clear_way t fs" "\<not> prefix ?F t" for t
    using that away [OF _ that(2)] stat_follow_cong [OF that(1), of fs1] by (auto simp: clear_way_def path_exists_def)
  have "stat fs' (cache @ [FLAT_DIR, basename p]) = stat fs1 (cache @ [FLAT_DIR, basename p])"
  proof (rule ih(2))
    show "\<forall>x \<in> set ps. \<not> prefix (cache @ [FLAT_DIR, basename x]) (cache @ [FLAT_DIR, basename p])"
      using Cons.prems(3) by (auto simp: image_iff)
  qed
  with one ih cw show ?case by auto
qed simp

lemma walk_link:
  assumes "flat_ready F fs" and "b \<noteq> ''..''" and "stat fs (F @ [b]) = Some (FLink (path_str t))" and "path_parts (path_str t) = t"
    and "clear_way (t @ r) fs"
  shows "stat_follow fs (F @ b # r) = stat_follow fs (t @ r)"
proof -
  have "is_absolute (path_str t)" by (simp add: is_absolute_def path_str_def starts_with_def)
  then have "walk link_limit fs F (b # r) = walk 39 fs [] (t @ r)"
    using assms by (simp add: walk.simps(2) flat_ready_def link_limit_def link_start_def numeral_eq_Suc)
  also have "\<dots> = walk link_limit fs [] (t @ r)"
    using walk_clear_budget [of "t @ r" "[]" fs 39 link_limit] assms(5) by (simp add: clear_way_def)
  finally have "locate fs (F @ b # r) = locate fs (t @ r)"
    using assms(1) locate_append_clear [of F fs "b # r"] by (simp add: flat_ready_def locate_def [of fs "t @ r"])
  then show ?thesis by (simp add: stat_follow_def)
qed

lemma stat_follow_parent:
  assumes "clear_way (t @ [c]) fs" and "stat_follow fs t = None" shows "stat_follow fs (t @ [c]) = None"
proof (cases "locate fs (t @ [c])")
  case (Inr q)
  have t: "clear_way t fs" using clear_way_prefix [OF assms(1), of t] by simp
  from Inr have "stat fs t = Some FDir" "locate fs t = Inr t"
    using locate_append_clear [OF t, of "[c]"] locate_clear [OF t] by (auto simp: walk.simps(2) split: sum.splits if_splits)
  with assms(2) show ?thesis by (simp add: stat_follow_def)
qed (simp add: stat_follow_def)

lemma local_has_skill_parts:
  assumes "validate_skill_name name = Inr ()"
  shows "local_has_skill dir name fs \<longleftrightarrow>
     isdir fs (path_parts dir @ [name]) \<and> isfile fs (path_parts dir @ [name, ''SKILL.md''])"
  using assms path_parts_join [of name dir] path_parts_join [of "''SKILL.md''" "path_join dir name"] valid_nameD [OF assms]
  by (simp add: local_has_skill_def)

subsection \<open>A refresh\<close>

definition checkout_git :: "fs \<Rightarrow> git_program" where
  \<comment> \<open>a git that clones into \<open>/c\<close> and checks out the given entries\<close>
  "checkout_git tree args cwd fs =
     (Inr \<lparr>gp_returncode = 0, gp_stdout = ''6dcd4ce'', gp_stderr = ''''\<rparr>,
      if hd args = ''clone'' then fs_put [''c'', ''.git''] FDir fs
      else if hd args = ''checkout'' then fold (\<lambda>(q, n). fs_put q n) tree fs
      else fs)"

definition demo_tree :: fs where
  "demo_tree = [([''c'', ''pkg''], FDir), ([''c'', ''pkg'', ''ab''], FDir), ([''c'', ''pkg'', ''ab'', ''SKILL.md''], FFile ''text'')]"

definition demo_source :: git_source where
  "demo_source = \<lparr>gs_repo_url = ''https://git.example/skills'', gs_ref = ''main'', gs_cache_dir = path_parts ''/c'',
     gs_allowed = Some [''pkg/ab''], gs_local = None\<rparr>"

lemma demo_git_stays: "git_stays [''c''] (checkout_git demo_tree)"
  by (auto simp: git_stays_def checkout_git_def demo_tree_def FLAT_DIR_def strict_prefix_def prefix_def split: if_splits)

lemma demo_cache: "path_parts ''/c'' = [''c'']"
  by code_simp

lemma demo_clear: "clear_way [''c'', FLAT_DIR] []"
  by (auto simp: clear_way_def stat_def FLAT_DIR_def split: if_splits)

lemma demo_refreshed: "fst (git_refresh (checkout_git demo_tree) None (demo_source, [])) = Inr \<lparr>rr_ref = ''6dcd4ce'', rr_materialized = [''ab'']\<rparr>"
  by code_simp

definition demo_after :: "git_source \<times> fs" where
  "demo_after = snd (git_refresh (checkout_git demo_tree) None (demo_source, []))"

lemma clear_way_check:
  assumes "''..'' \<notin> set d" and "list_all (\<lambda>n. case stat fs (take n d) of Some (FLink t) \<Rightarrow> False | _ \<Rightarrow> True) [0..<Suc (length d)]"
  shows "clear_way d fs"
  unfolding clear_way_def
proof (intro conjI allI impI)
  fix q t assume "prefix q d"
  then obtain r where "d = q @ r" by (auto simp: prefix_def)
  then have q: "take (length q) d = q" "length q \<in> set [0..<Suc (length d)]" by auto
  from assms(2) q(2) have "case stat fs (take (length q) d) of Some (FLink t) \<Rightarrow> False | _ \<Rightarrow> True"
    unfolding list_all_iff by blast
  then show "stat fs q \<noteq> Some (FLink t)" unfolding q(1) by auto
qed (rule assms(1))

text \<open>A repository whose entry of that name is a link makes the refresh remove and write where the link
  leads: here a directory outside the cache is deleted.\<close>

lemma refresh_follows_repository_link:
  "let fs = [([''x''], FDir), ([''x'', ''ab''], FDir), ([''x'', ''ab'', ''precious''], FFile ''data'')];
       (r, gs', fs') = git_refresh (checkout_git (demo_tree @ [([''c'', FLAT_DIR], FLink ''/x'')])) None (demo_source, fs)
   in stat fs' [''x'', ''ab'', ''precious''] = None \<and> stat fs' [''x'', ''ab''] = Some (FLink ''/c/pkg/ab'')"
  by code_simp

subsection \<open>Properties\<close>

text \<open>C30. Whatever becomes of a refresh, it changes nothing but the cache directory and the missing directories
  above it, as long as no link stands at the start on the way to the cache directory or its overlay, git
  works below the cache directory and the repository has no entry under the name of the overlay. A rejected path of the configuration stops it before git or the disk is touched.\<close>

theorem refresh_contained:
  assumes "git_stays (gs_cache_dir gs) git" and "clear_way (gs_cache_dir gs @ [FLAT_DIR]) fs"
    and "git_refresh git ref (gs, fs) = (x, gs', fs')"
  shows "(\<forall>q. stat fs' q \<noteq> stat fs q \<longrightarrow> q \<noteq> [] \<and> prefix q (gs_cache_dir gs) \<or> prefix (gs_cache_dir gs) q)
    \<and> (\<forall>ps p. gs_allowed gs = Some ps \<longrightarrow> p \<in> set ps \<longrightarrow> validate_allowed_path p \<noteq> Inr () \<longrightarrow> ref \<noteq> Some [] \<longrightarrow>
          fs' = fs \<and> gs_local gs' = gs_local gs \<and> (\<exists>m. x = Inl (GitSkillSourceError m ''validate'' 0 '''')))"
proof -
  let ?gs = "case ref of None \<Rightarrow> gs | Some r \<Rightarrow> gs\<lparr>gs_ref := r\<rparr>"
  have c: "gs_cache_dir ?gs = gs_cache_dir gs" "gs_allowed ?gs = gs_allowed gs" "gs_local ?gs = gs_local gs"
    by (auto split: option.split)
  have fs': "fs' = fs \<or> fs' = snd (refresh_disk git ?gs fs)"
    using assms(3) by (auto simp: git_refresh_def Let_def split: prod.splits sum.splits if_splits)
  have "in_cache (gs_cache_dir gs) fs fs" using assms(2) by (simp add: in_cache_def)
  with keeps_refresh [of ?gs git fs] assms(1) fs' have "in_cache (gs_cache_dir gs) fs fs'"
    unfolding c keeps_def by auto
  then have "\<forall>q. stat fs' q \<noteq> stat fs q \<longrightarrow> q \<noteq> [] \<and> prefix q (gs_cache_dir gs) \<or> prefix (gs_cache_dir gs) q"
    unfolding in_cache_def above_def by blast
  moreover have "fs' = fs \<and> gs_local gs' = gs_local gs \<and> (\<exists>m. x = Inl (GitSkillSourceError m ''validate'' 0 ''''))"
    if ps: "gs_allowed gs = Some ps" "p \<in> set ps" "validate_allowed_path p \<noteq> Inr ()" "ref \<noteq> Some []" for ps p
  proof -
    obtain m where "res_all validate_allowed_path ps = Inl (path_rejected m)" using validate_all_error ps(2,3) by blast
    then have "refresh_disk git ?gs fs = (Inl (path_rejected m), fs)" using ps(1) by (simp add: refresh_disk_def c)
    with assms(3) ps(4) c show ?thesis by (auto simp: git_refresh_def Let_def path_rejected_def)
  qed
  ultimately show ?thesis by blast
qed

theorem refresh_contained_witness:
  "stat (snd (snd (git_refresh (checkout_git demo_tree) None (demo_source, [])))) [''x''] = None
    \<and> snd (snd (git_refresh (checkout_git demo_tree) None (demo_source\<lparr>gs_allowed := Some [''../x'']\<rparr>, []))) = []"
proof -
  let ?bad = "demo_source\<lparr>gs_allowed := Some [''../x'']\<rparr>"
  obtain x gs' fs' where r: "git_refresh (checkout_git demo_tree) None (demo_source, []) = (x, gs', fs')" by (metis prod_cases3)
  obtain x2 gs2 fs2 where r2: "git_refresh (checkout_git demo_tree) None (?bad, []) = (x2, gs2, fs2)" by (metis prod_cases3)
  have h: "git_stays (gs_cache_dir s) (checkout_git demo_tree)" "clear_way (gs_cache_dir s @ [FLAT_DIR]) []"
    if "gs_cache_dir s = path_parts ''/c''" for s :: git_source
    using demo_git_stays demo_clear that by (simp_all add: demo_cache)
  have "stat fs' [''x''] = stat [] [''x'']"
    using refresh_contained [OF h r] by (auto simp: demo_source_def demo_cache)
  moreover have "validate_allowed_path ''../x'' \<noteq> Inr ()" by code_simp
  then have "fs2 = []"
    using refresh_contained [OF h r2] by (auto simp: demo_source_def)
  ultimately show ?thesis using r r2 by (simp add: stat_def)
qed

text \<open>C31. After a refresh with configured paths, a skill is there exactly if its directory in the checkout
  holds a \<open>SKILL.md\<close>, for a flat layout and, through the links of the overlay, for a nested one. The paths
  have different last components, the path asked for does not lie under the overlay's own name, no link stands
  at the start on the way to the overlay, git works below the cache directory and puts nothing under the name of
  the overlay (\<open>git_stays\<close>), and the way to the file in the checkout has no link.\<close>

theorem overlay_answers:
  assumes "git_stays (path_parts dir) git" and "clear_way (path_parts dir @ [FLAT_DIR]) fs"
    and "gs_cache_dir gs = path_parts dir" and "gs_allowed gs = Some ps" and "distinct (List.map basename ps)" and "p \<in> set ps"
    and "git_refresh git ref (gs, fs) = (Inr res, gs', fs')"
    and "clear_way (path_parts dir @ path_parts p @ [''SKILL.md'']) fs'" and "hd (path_parts p) \<noteq> FLAT_DIR"
  shows "rr_materialized res = List.map basename ps
    \<and> (git_has_skill gs' (basename p) fs' \<longleftrightarrow>
        isdir fs' (path_parts dir @ path_parts p) \<and> isfile fs' (path_parts dir @ path_parts p @ [''SKILL.md'']))"
proof -
  let ?c = "path_parts dir" and ?gs = "case ref of None \<Rightarrow> gs | Some r \<Rightarrow> gs\<lparr>gs_ref := r\<rparr>"
  let ?F = "?c @ [FLAT_DIR]" and ?t = "?c @ path_parts p"
  have g: "gs_cache_dir ?gs = ?c" "gs_allowed ?gs = Some ps" using assms(3,4) by (auto split: option.split)
  from assms(7) obtain rt where rd: "refresh_disk git ?gs fs = (Inr (res, rt), fs')" and l: "gs_local gs' = Some rt"
    by (auto simp: git_refresh_def Let_def split: prod.splits sum.splits if_splits)
  then have val: "\<forall>p \<in> set ps. validate_allowed_path p = Inr ()"
    by (auto simp: refresh_disk_def g res_all_Inr_iff split: sum.splits)
  then have base: "\<forall>p \<in> set ps. validate_skill_name (basename p) = Inr ()" using validated_segments(2) by blast
  then have name: "validate_skill_name (basename p) = Inr ()" using assms(6) by blast
  have ready: "in_cache ?c fs fs" using assms(2) by (simp add: in_cache_def)
  obtain fs1 where i: "in_cache ?c fs fs1" and m: "materialize ?gs fs1 = (Inr (rr_materialized res, rt), fs')"
    using refresh_last_step [of ?gs git fs fs res rt fs'] assms(1) rd ready unfolding g by blast
  have skill: "git_has_skill gs' (basename p) fs' \<longleftrightarrow> isdir fs' (path_parts rt @ [basename p]) \<and> isfile fs' (path_parts rt @ [basename p, ''SKILL.md''])"
    by (simp add: git_has_skill_def l local_has_skill_parts [OF name])
  show ?thesis
  proof (cases "nested ps")
    case False
    have "CHR ''/'' \<notin> set p" using False assms(6) by (auto simp: nested_def)
    then have "basename p = p" by (simp add: basename_def split_on_no_sep)
    moreover have "path_parts p = [p]" using path_parts_single [of p] \<open>CHR ''/'' \<notin> set p\<close> valid_nameD [OF name] calculation by simp
    moreover have "rt = path_str ?c" "rr_materialized res = List.map basename ps" using m False by (simp_all add: materialize_def g)
    moreover have "path_parts (path_str ?c) = ?c" using path_parts_str path_parts_proper by blast
    ultimately show ?thesis using skill by simp
  next
    case True
    with m obtain fs2 where mk: "mkdir_ok ?F fs1 = (Inr (), fs2)" and ov: "overlay ?c ps fs2 = (Inr (), fs')"
      and r: "rt = path_str ?F" "rr_materialized res = List.map basename ps"
      by (auto simp: materialize_def Let_def g fs_then_Inr)
    have F: "path_parts rt = ?F"
      using path_parts_str [of ?F] path_parts_proper by (auto simp: r FLAT_DIR_def)
    have i2: "in_cache ?c fs fs2" using keeps_mkdir_ok [of ?F ?c fs] i mk unfolding keeps_def by (metis append_is_Nil_conv list.distinct(1) prefix_order.refl snd_conv)
    have flat: "flat_ready ?F fs2" using mkdir_ok_ready [OF _ _ mk] i by (simp add: in_cache_def)
    have dots: "\<forall>p \<in> set ps. basename p \<noteq> ''..''" using base valid_nameD by blast
    note o = overlay_spec [OF flat ov assms(5) dots]
    have out: "\<not> prefix ?F ?t" using assms(9) validated_segments(4) val assms(6) by (cases "path_parts p") auto
    have same: "stat fs' q = stat fs2 q" if "prefix q (?t @ [''SKILL.md''])" for q
    proof -
      have "\<not> prefix (?F @ [b]) q" for b
      proof
        assume "prefix (?F @ [b]) q"
        then have "prefix ?F (?t @ [''SKILL.md''])" using that append_prefixD prefix_order.trans by blast
        with assms(9) validated_segments(4) val assms(6) show False by (cases "path_parts p") auto
      qed
      with o show ?thesis by simp
    qed
    have full: "clear_way (?t @ [''SKILL.md'']) fs'" using assms(8) by simp
    then have cwf: "clear_way (?t @ [''SKILL.md'']) fs2" using same by (simp add: clear_way_def)
    have cw: "clear_way ?t fs2" "clear_way ?t fs'" using clear_way_prefix [OF cwf, of ?t] clear_way_prefix [OF full, of ?t] by simp_all
    have ex: "path_exists fs2 ?t \<longleftrightarrow> path_exists fs' ?t"
    proof -
      have "stat fs' q = stat fs2 q" if "prefix q ?t" for q
        using same [of q] that prefix_order.trans [of q ?t "?t @ [''SKILL.md'']"] by simp
      then have "stat_follow fs' ?t = stat_follow fs2 ?t" by (rule stat_follow_cong [OF cw(1)])
      then show ?thesis by (simp add: path_exists_def)
    qed
    have link: "stat fs' (?F @ [basename p]) = (if path_exists fs2 ?t then Some (FLink (path_str ?t)) else None)"
      using o cw(1) out assms(6) by simp
    have ready': "flat_ready ?F fs'" using o by blast
    have dot: "basename p \<noteq> ''..''" using name valid_nameD by blast
    have pt: "path_parts (path_str ?t) = ?t"
    proof (rule path_parts_str, intro ballI)
      fix c assume "c \<in> set ?t"
      then have "c \<in> set ?c \<or> c \<in> set (path_parts p)" by simp
      then show "c \<noteq> [] \<and> c \<noteq> ''.'' \<and> CHR ''/'' \<notin> set c" by (elim disjE) (rule path_parts_proper, assumption)+
    qed
    have "isdir fs' (?F @ [basename p]) \<and> isfile fs' (?F @ [basename p, ''SKILL.md''])
        \<longleftrightarrow> isdir fs' ?t \<and> isfile fs' (?t @ [''SKILL.md''])"
    proof (cases "path_exists fs' ?t")
      case True
      with link ex have lk: "stat fs' (?F @ [basename p]) = Some (FLink (path_str ?t))" by simp
      from walk_link [OF ready' dot lk pt, of "[]"] walk_link [OF ready' dot lk pt, of "[''SKILL.md'']"] cw(2) full
      show ?thesis by (simp add: isdir_def isfile_def)
    next
      case False
      with link ex have "stat fs' (?F @ [basename p]) = None" by simp
      with stat_follow_child [OF ready' dot] False show ?thesis by (simp add: isdir_def path_exists_def)
    qed
    with skill r(2) show ?thesis by (simp add: F)
  qed
qed

theorem overlay_answers_witness:
  "git_has_skill (fst demo_after) ''ab'' (snd demo_after)"
proof -
  obtain gs' fs' where d: "demo_after = (gs', fs')" by fastforce
  have r: "git_refresh (checkout_git demo_tree) None (demo_source, []) = (Inr \<lparr>rr_ref = ''6dcd4ce'', rr_materialized = [''ab'']\<rparr>, gs', fs')"
    using demo_refreshed d unfolding demo_after_def by (metis prod.collapse)
  have b: "basename ''pkg/ab'' = ''ab''" "path_parts ''pkg/ab'' = [''pkg'', ''ab'']" by code_simp+
  have s: "gs_cache_dir demo_source = path_parts ''/c''" "gs_allowed demo_source = Some [''pkg/ab'']" by (simp_all add: demo_source_def)
  have "clear_way (path_parts ''/c'' @ path_parts ''pkg/ab'' @ [''SKILL.md'']) (snd demo_after)"
    by (rule clear_way_check) code_simp+
  then have c: "clear_way (path_parts ''/c'' @ path_parts ''pkg/ab'' @ [''SKILL.md'']) fs'" by (simp add: d)
  have "isdir (snd demo_after) (path_parts ''/c'' @ path_parts ''pkg/ab'') \<and> isfile (snd demo_after) (path_parts ''/c'' @ path_parts ''pkg/ab'' @ [''SKILL.md''])"
    by code_simp
  then show ?thesis
    using overlay_answers [OF _ _ s _ _ r c] demo_git_stays demo_clear by (simp add: d b demo_cache FLAT_DIR_def)
qed

end
