(* ===== verification/Url_Text.thy ===== *)
theory Url_Text
  imports Decoded
begin

section \<open>Format strings and URLs\<close>

text \<open>
  What the OpenBao adapter uses of \<open>string.Formatter\<close>, \<open>str.format\<close> and \<open>urllib.parse\<close>. The effect of a
  non-empty format specification and the check of a bracketed host are arguments: they depend on the
  version of Python.
\<close>

subsection \<open>Partitions\<close>

definition partition_at :: "char \<Rightarrow> string \<Rightarrow> string \<times> bool \<times> string" where
  "partition_at c s = (takeWhile (\<lambda>x. x \<noteq> c) s, c \<in> set s, drop 1 (dropWhile (\<lambda>x. x \<noteq> c) s))"

definition rpartition_at :: "char \<Rightarrow> string \<Rightarrow> string \<times> bool \<times> string" where
  "rpartition_at c s =
     (if c \<in> set s
      then (rev (drop 1 (dropWhile (\<lambda>x. x \<noteq> c) (rev s))), True, rev (takeWhile (\<lambda>x. x \<noteq> c) (rev s)))
      else ([], False, s))"

subsection \<open>Replacement fields\<close>

datatype tpl_piece = Literal string | Field string "char option" string
  \<comment> \<open>name, conversion, specification\<close>

function scan_name :: "string \<Rightarrow> string \<Rightarrow> string + string \<times> char \<times> string" where
  \<comment> \<open>up to the end of the field or its conversion or specification\<close>
  "scan_name acc [] = Inl ''expected '}' before end of string''"
| "scan_name acc (c # r) =
     (if c = CHR ''{'' then Inl ''unexpected '{' in field name''
      else if c = CHR ''['' then scan_name (acc @ c # takeWhile (\<lambda>x. x \<noteq> CHR '']'') r) (dropWhile (\<lambda>x. x \<noteq> CHR '']'') r)
      else if c = CHR ''}'' \<or> c = CHR '':'' \<or> c = CHR ''!'' then Inr (acc, c, r)
      else scan_name (acc @ [c]) r)"
  by pat_completeness auto
termination
  by (relation "measure (\<lambda>(_, s). length s)") (auto simp: le_imp_less_Suc length_dropWhile_le)

fun scan_spec :: "nat \<Rightarrow> string \<Rightarrow> string \<Rightarrow> string + string \<times> string" where
  \<comment> \<open>up to the brace that closes the field, braces inside counted\<close>
  "scan_spec n acc [] = Inl ''unmatched '{' in format spec''"
| "scan_spec n acc (c # r) =
     (if c = CHR ''{'' then scan_spec (Suc n) (acc @ [c]) r
      else if c = CHR ''}'' then (if n \<le> 1 then Inr (acc, r) else scan_spec (n - 1) (acc @ [c]) r)
      else scan_spec n (acc @ [c]) r)"

definition parse_field :: "string \<Rightarrow> string + (string \<times> char option \<times> string) \<times> string" where
  "parse_field s =
     (case scan_name [] s of
        Inl m \<Rightarrow> Inl m
      | Inr (name, c, r) \<Rightarrow>
          (let spec = (\<lambda>conv r. case scan_spec 1 [] r of Inl m \<Rightarrow> Inl m | Inr (sp, r') \<Rightarrow> Inr ((name, conv, sp), r')) in
           if c = CHR ''}'' then Inr ((name, None, []), r)
           else if c = CHR '':'' then spec None r
           else (case r of
                   [] \<Rightarrow> Inl ''end of string while looking for conversion specifier''
                 | conv # r1 \<Rightarrow>
                     (case r1 of
                        [] \<Rightarrow> Inl ''unmatched '{' in format spec''
                      | d # r2 \<Rightarrow>
                          if d = CHR ''}'' then Inr ((name, Some conv, []), r2)
                          else if d = CHR '':'' then spec (Some conv) r2
                          else Inl ''expected ':' after conversion specifier''))))"

lemma scan_name_length: "scan_name acc s = Inr (n, c, r) \<Longrightarrow> length r < length s"
  by (induction acc s rule: scan_name.induct) (auto split: if_splits dest: less_le_trans [OF _ length_dropWhile_le])

lemma scan_spec_length: "scan_spec n acc s = Inr (sp, r) \<Longrightarrow> length r < length s"
  by (induction n acc s rule: scan_spec.induct) (auto split: if_splits)

lemma parse_field_length: "parse_field s = Inr (f, r) \<Longrightarrow> length r < length s"
  by (auto simp: parse_field_def Let_def split: sum.splits prod.splits if_splits list.splits
      dest!: scan_name_length scan_spec_length)

lemma dropWhile_shorter: "c # d # r = dropWhile P s \<Longrightarrow> length r + 2 \<le> length s"
  using length_dropWhile_le [of P s] by (metis One_nat_def Suc_1 add_Suc_right add.right_neutral length_Cons add_2_eq_Suc')

function template_parse :: "string \<Rightarrow> string + tpl_piece list" where
  \<comment> \<open>\<open>string.Formatter().parse\<close>: the pieces, or the text of its \<open>ValueError\<close>\<close>
  "template_parse s =
     (let lit = takeWhile (\<lambda>x. x \<noteq> CHR ''{'' \<and> x \<noteq> CHR ''}'') s;
          rest = dropWhile (\<lambda>x. x \<noteq> CHR ''{'' \<and> x \<noteq> CHR ''}'') s in
      case rest of
        [] \<Rightarrow> Inr (if s = [] then [] else [Literal lit])
      | [c] \<Rightarrow> Inl (if c = CHR ''}'' then ''Single '}' encountered in format string'' else ''Single '{' encountered in format string'')
      | c # d # r \<Rightarrow>
          (if c = d then (case template_parse r of Inl m \<Rightarrow> Inl m | Inr ps \<Rightarrow> Inr (Literal (lit @ [c]) # ps))
           else if c = CHR ''}'' then Inl ''Single '}' encountered in format string''
           else (case parse_field (d # r) of
                   Inl m \<Rightarrow> Inl m
                 | Inr ((name, conv, sp), r') \<Rightarrow>
                     (case template_parse r' of Inl m \<Rightarrow> Inl m | Inr ps \<Rightarrow> Inr (Literal lit # Field name conv sp # ps)))))"
  by pat_completeness auto
termination
proof (relation "measure length")
  show "wf (measure length)" by simp
next
  fix s lit rest c d' d r assume "lit = takeWhile (\<lambda>x. x \<noteq> CHR ''{'' \<and> x \<noteq> CHR ''}'') s"
    "rest = dropWhile (\<lambda>x. x \<noteq> CHR ''{'' \<and> x \<noteq> CHR ''}'') s" "rest = c # d'" "d' = d # r"
  then show "(r, s) \<in> measure length" 
    using dropWhile_shorter [of c d r "\<lambda>x. x \<noteq> CHR ''{'' \<and> x \<noteq> CHR ''}''" s] by simp
next
  fix s lit rest c d' d r y f r' z name w conv sp
  assume "lit = takeWhile (\<lambda>x. x \<noteq> CHR ''{'' \<and> x \<noteq> CHR ''}'') s"
    "rest = dropWhile (\<lambda>x. x \<noteq> CHR ''{'' \<and> x \<noteq> CHR ''}'') s" "rest = c # d'" "d' = d # r"
    "parse_field (d # r) = Inr y" "(f, r') = y"
  then show "(r', s) \<in> measure length"
    using dropWhile_shorter [of c d r "\<lambda>x. x \<noteq> CHR ''{'' \<and> x \<noteq> CHR ''}''" s] parse_field_length [of "d # r" f r'] by auto
qed

declare template_parse.simps [simp del]

definition field_names :: "tpl_piece list \<Rightarrow> string list" where
  "field_names ps = concat (List.map (\<lambda>p. case p of Field n c sp \<Rightarrow> [n] | Literal l \<Rightarrow> []) ps)"

definition convert :: "char option \<Rightarrow> string \<Rightarrow> exn + string" where
  \<comment> \<open>the conversions of a string (\<open>ascii\<close> and \<open>repr\<close> agree on ASCII text)\<close>
  "convert conv v =
     (case conv of
        None \<Rightarrow> Inr v
      | Some c \<Rightarrow>
          if c = CHR ''s'' then Inr v
          else if c = CHR ''r'' \<or> c = CHR ''a'' then Inr (repr_str v)
          else Inl (ValueError (''Unknown conversion specifier '' @ repr_str [c])))"

type_synonym format_spec = "string \<Rightarrow> string \<Rightarrow> exn + string"
  \<comment> \<open>what a non-empty specification makes of a text\<close>

fun format_pieces :: "format_spec \<Rightarrow> string \<Rightarrow> string \<Rightarrow> tpl_piece list \<Rightarrow> exn + string" where
  \<comment> \<open>\<open>str.format\<close> with one keyword argument\<close>
  "format_pieces fmt key v [] = Inr []"
| "format_pieces fmt key v (Literal l # ps) = res_bind (format_pieces fmt key v ps) (\<lambda>s. Inr (l @ s))"
| "format_pieces fmt key v (Field n c sp # ps) =
     (if n \<noteq> key then Inl (KeyError n)
      else res_bind (convert c v)
             (\<lambda>t. res_bind (if sp = [] then Inr t else fmt sp t)
                (\<lambda>x. res_bind (format_pieces fmt key v ps) (\<lambda>s. Inr (x @ s)))))"

definition str_format :: "format_spec \<Rightarrow> string \<Rightarrow> string \<Rightarrow> string \<Rightarrow> exn + string" where
  "str_format fmt template key v =
     (case template_parse template of Inl m \<Rightarrow> Inl (ValueError m) | Inr ps \<Rightarrow> format_pieces fmt key v ps)"

subsection \<open>URLs\<close>

record url_parts =
  up_scheme :: string
  up_netloc :: string
  up_path :: string
  up_query :: string
  up_fragment :: string

definition is_scheme_char :: "char \<Rightarrow> bool" where
  "is_scheme_char c \<longleftrightarrow> is_alpha c \<or> is_digit c \<or> c = CHR ''+'' \<or> c = CHR ''-'' \<or> c = CHR ''.''"

definition split_scheme :: "string \<Rightarrow> string \<times> string" where
  "split_scheme url =
     (case partition_at CHR '':'' url of
        (a, found, b) \<Rightarrow> if found \<and> a \<noteq> [] \<and> is_alpha (hd a) \<and> list_all is_scheme_char a then (lower a, b) else ([], url))"

definition strip_params :: "string \<Rightarrow> string" where
  \<comment> \<open>the path without the parameters of its last segment\<close>
  "strip_params path =
     (let (dir, slash, seg) = rpartition_at CHR ''/'' path in
      if CHR '';'' \<notin> set path then path
      else (if slash then dir @ ''/'' else []) @ fst (partition_at CHR '';'' seg))"

definition urlparse :: "(string \<Rightarrow> exn + unit) \<Rightarrow> string \<Rightarrow> exn + url_parts" where
  \<comment> \<open>for schemes that take parameters, as \<open>http\<close> and \<open>https\<close> do\<close>
  "urlparse ip6 raw =
     (let url = filter (\<lambda>c. code c \<noteq> 9 \<and> code c \<noteq> 10 \<and> code c \<noteq> 13) (dropWhile (\<lambda>c. code c \<le> 32) raw);
          (scheme, r1) = split_scheme url;
          has_netloc = starts_with ''//'' r1;
          netloc = (if has_netloc then takeWhile (\<lambda>c. c \<notin> set ''/?#'') (drop 2 r1) else []);
          r2 = (if has_netloc then dropWhile (\<lambda>c. c \<notin> set ''/?#'') (drop 2 r1) else r1);
          (r3, _, fragment) = partition_at CHR ''#'' r2;
          (path, _, query) = partition_at CHR ''?'' r3 in
      if (CHR ''['' \<in> set netloc) \<noteq> (CHR '']'' \<in> set netloc) then Inl (ValueError ''Invalid IPv6 URL'')
      else res_bind (if CHR ''['' \<in> set netloc then ip6 netloc else Inr ())
             (\<lambda>_. Inr \<lparr>up_scheme = scheme, up_netloc = netloc, up_path = strip_params path, up_query = query, up_fragment = fragment\<rparr>))"

definition has_credentials :: "url_parts \<Rightarrow> bool" where
  \<comment> \<open>\<open>parsed.username or parsed.password\<close>\<close>
  "has_credentials u =
     (let (info, has_at, _) = rpartition_at CHR ''@'' (up_netloc u); (name, colon, pass) = partition_at CHR '':'' info in
      has_at \<and> (name \<noteq> [] \<or> colon \<and> pass \<noteq> []))"

definition host_info :: "url_parts \<Rightarrow> string \<times> string" where
  \<comment> \<open>host and port, as text\<close>
  "host_info u =
     (let (_, _, info) = rpartition_at CHR ''@'' (up_netloc u); (_, bracket, inner) = partition_at CHR ''['' info in
      if bracket
      then (let (host, _, rest) = partition_at CHR '']'' inner; (_, _, port) = partition_at CHR '':'' rest in (host, port))
      else (let (host, _, port) = partition_at CHR '':'' info in (host, port)))"

definition url_hostname :: "url_parts \<Rightarrow> string" where
  \<comment> \<open>\<open>parsed.hostname or ""\<close>: the zone keeps its case\<close>
  "url_hostname u = (let (name, pc, zone) = partition_at CHR ''%'' (fst (host_info u)) in lower name @ (if pc then ''%'' @ zone else []))"

definition url_port :: "url_parts \<Rightarrow> exn + int option" where
  "url_port u =
     (let port = snd (host_info u) in
      if port = [] then Inr None
      else if \<not> list_all is_digit port then Inl (ValueError (''Port could not be cast to integer value as '' @ repr_str port))
      else (case digits_val False 0 port of
              Some n \<Rightarrow> if n \<le> 65535 then Inr (Some (int n)) else Inl (ValueError ''Port out of range 0-65535'')
            | None \<Rightarrow> Inr None))"

definition urlunparse :: "string \<Rightarrow> string \<Rightarrow> string \<Rightarrow> string" where
  \<comment> \<open>of a scheme, a host part and a path\<close>
  "urlunparse scheme netloc path =
     (let p = (if netloc \<noteq> [] \<and> path \<noteq> [] \<and> \<not> starts_with ''/'' path then ''/'' @ path else path) in
      (if scheme = [] then [] else scheme @ '':'') @ ''//'' @ netloc @ p)"

end
