(* ===== verification/Openbao.thy ===== *)
theory Openbao
  imports Url_Text Context "HOL-Library.Char_ord"
begin

section \<open>OpenBao secrets\<close>

text \<open>
  \<open>adapters/secrets/openbao/provider.py\<close>: the checks of the constructor, \<open>get_secrets\<close> with the requests it
  sends, and its representation. \<open>requests.get\<close> is a parameter: what it answers or raises for a request. An
  exception of the requests library is an \<open>OtherError\<close> of its class name.
\<close>

subsection \<open>Checks\<close>

definition sentinel :: string where
  "sentinel = ''__WS_PLACEHOLDER_SENTINEL__''"

definition unsafe_chars :: string where
  "unsafe_chars = ''?#'' @ [char_of (92 :: nat)] @ '':@%''"

definition segment_name :: "string \<Rightarrow> bool" where
  \<comment> \<open>\<open>[A-Za-z0-9_.-]+\<close>, and not a dot or two\<close>
  "segment_name s \<longleftrightarrow> s \<noteq> [] \<and> s \<noteq> ''.'' \<and> s \<noteq> ''..'' \<and> list_all is_id_char s"

fun validate_mount :: "(pyfloat \<Rightarrow> string) \<Rightarrow> pyv \<Rightarrow> exn + string" where
  "validate_mount fr (PStr mount) =
     (if mount = [] then Inl (ValueError ''mount must be a non-empty string'')
      else if mount = ''.'' \<or> mount = ''..''
      then Inl (ValueError (''mount must not be '' @ repr_str ''.'' @ '' or '' @ repr_str ''..'' @ '' (path traversal), got '' @ repr_str mount))
      else if \<not> list_all is_id_char mount
      then Inl (ValueError (''mount must match [A-Za-z0-9_.-]+ (single URL path segment), got '' @ repr_str mount))
      else Inr mount)"
| "validate_mount fr v = Inl (ValueError ''mount must be a non-empty string'')"

definition check_template_segment :: "string \<Rightarrow> string \<Rightarrow> exn + unit" where
  "check_template_segment template seg =
     (if seg = [] then Inl (ValueError (''path_template has empty segment (consecutive '' @ repr_str ''/'' @ ''): '' @ repr_str template))
      else if seg = ''.'' \<or> seg = ''..''
      then Inl (ValueError (''path_template segment '' @ repr_str seg @ '' is '' @ repr_str ''.'' @ '' or '' @ repr_str ''..'' @ '' (path traversal): '' @ repr_str template))
      else if seg = sentinel then Inr ()
      else (let unsafe = sort (remdups (filter (\<lambda>c. c \<in> set unsafe_chars) seg)) in
            if unsafe \<noteq> []
            then Inl (ValueError (''path_template segment '' @ repr_str seg @ '' contains unsafe URL chars [''
                   @ join_with '', '' (List.map (\<lambda>c. repr_str [c]) unsafe) @ '']: '' @ repr_str template))
            else Inr ()))"

fun validate_path_template :: "format_spec \<Rightarrow> pyv \<Rightarrow> exn + string" where
  "validate_path_template fmt (PStr template) =
     (if template = [] then Inl (ValueError ''path_template must be a non-empty string'')
      else if starts_with ''/'' template \<or> ends_with ''/'' template
      then Inl (ValueError (''path_template must not start or end with '' @ repr_str ''/'' @ '', got '' @ repr_str template))
      else (case template_parse template of
              Inl m \<Rightarrow> Inl (ValueError (''path_template has malformed placeholder syntax: '' @ repr_str template @ '' ('' @ m @ '')''))
            | Inr ps \<Rightarrow>
                if field_names ps \<noteq> [''workspace_id'']
                then Inl (ValueError (''path_template must contain exactly one '' @ repr_str ''{workspace_id}''
                       @ '' placeholder and no others, got placeholders [''
                       @ join_with '', '' (List.map repr_str (field_names ps)) @ ''] in '' @ repr_str template))
                else res_bind (str_format fmt template ''workspace_id'' sentinel)
                       (\<lambda>sample. res_bind (res_all (check_template_segment template) (split_on CHR ''/'' sample)) (\<lambda>_. Inr template))))"
| "validate_path_template fmt v = Inl (ValueError ''path_template must be a non-empty string'')"

fun validate_endpoint :: "(string \<Rightarrow> exn + unit) \<Rightarrow> pyv \<Rightarrow> exn + string" where
  "validate_endpoint ip6 (PStr endpoint) =
     (if endpoint = [] then Inl (ValueError ''endpoint must be a non-empty string'')
      else if \<not> (starts_with ''http://'' endpoint \<or> starts_with ''https://'' endpoint)
      then Inl (ValueError (''endpoint must start with '' @ repr_str ''http://'' @ '' or '' @ repr_str ''https://'' @ '', got '' @ repr_str endpoint))
      else res_bind (urlparse ip6 endpoint)
             (\<lambda>u. if has_credentials u
                  then Inl (ValueError (''endpoint must not contain embedded credentials (user:pass@host); ''
                         @ ''pass the OpenBao token via the `token` parameter instead''))
                  else if up_query u \<noteq> [] \<or> up_fragment u \<noteq> []
                  then Inl (ValueError (''endpoint must not contain query or fragment, got '' @ repr_str endpoint))
                  else Inr endpoint))"
| "validate_endpoint ip6 v = Inl (ValueError ''endpoint must be a non-empty string'')"

fun validate_token :: "pyv \<Rightarrow> exn + string" where
  "validate_token (PStr t) = (if t = [] then Inl (ValueError ''token must be a non-empty string'') else Inr t)"
| "validate_token v = Inl (ValueError ''token must be a non-empty string'')"

definition validate_timeout :: "(pyfloat \<Rightarrow> string) \<Rightarrow> string \<Rightarrow> pyv \<Rightarrow> exn + pyfloat" where
  \<comment> \<open>a number that is not \<open>\<le> 0\<close>\<close>
  "validate_timeout fr name v =
     (case num_of v of
        Some x \<Rightarrow> if float_le x (Fin 0) then Inl (ValueError (name @ '' must be a positive number, got '' @ py_repr fr v)) else Inr x
      | None \<Rightarrow> Inl (ValueError (name @ '' must be a positive number, got '' @ py_repr fr v)))"

subsection \<open>The provider\<close>

record openbao =
  ob_endpoint :: string
  ob_token :: string
  ob_mount :: string
  ob_path_template :: string
  ob_timeout_connect :: pyfloat
  ob_timeout_read :: pyfloat

record python_env =
  \<comment> \<open>what depends on the installation\<close>
  pe_fmt :: format_spec
  pe_ip6 :: "string \<Rightarrow> exn + unit"
  pe_float :: "pyfloat \<Rightarrow> string"

definition openbao_init :: "python_env \<Rightarrow> pyv \<Rightarrow> pyv \<Rightarrow> pyv \<Rightarrow> pyv \<Rightarrow> pyv \<Rightarrow> pyv \<Rightarrow> exn + openbao" where
  "openbao_init E endpoint token mount template tc tr =
     res_bind (validate_endpoint (pe_ip6 E) endpoint)
       (\<lambda>ep. res_bind (validate_token token)
          (\<lambda>tok. res_bind (validate_mount (pe_float E) mount)
             (\<lambda>mnt. res_bind (validate_path_template (pe_fmt E) template)
                (\<lambda>tpl. res_bind (validate_timeout (pe_float E) ''timeout_connect'' tc)
                   (\<lambda>c. res_bind (validate_timeout (pe_float E) ''timeout_read'' tr)
                      (\<lambda>r. Inr \<lparr>ob_endpoint = rstrip_char CHR ''/'' ep, ob_token = tok, ob_mount = mnt, ob_path_template = tpl,
                                ob_timeout_connect = c, ob_timeout_read = r\<rparr>))))))"

definition openbao_repr :: "openbao \<Rightarrow> string" where
  "openbao_repr p =
     ''OpenBaoSecretProvider(endpoint='' @ repr_str (ob_endpoint p) @ '', mount='' @ repr_str (ob_mount p)
     @ '', path_template='' @ repr_str (ob_path_template p) @ '', token=<redacted>)''"

record http_request =
  rq_url :: string
  rq_headers :: "string dict"
  rq_timeout :: "pyfloat \<times> pyfloat"

record http_response =
  hr_status :: int
  hr_json :: "exn + pyv"

type_synonym http_get = "http_request \<Rightarrow> exn + http_response"

definition is_timeout :: "exn \<Rightarrow> bool" where
  \<comment> \<open>\<open>requests.exceptions.Timeout\<close> and its subclasses\<close>
  "is_timeout e = (case e of OtherError c m \<Rightarrow> c \<in> {''Timeout'', ''ConnectTimeout'', ''ReadTimeout''} | _ \<Rightarrow> False)"

definition is_connection_error :: "exn \<Rightarrow> bool" where
  "is_connection_error e = (case e of OtherError c m \<Rightarrow> c \<in> {''ConnectionError'', ''ProxyError'', ''SSLError'', ''ConnectTimeout''} | _ \<Rightarrow> False)"

definition is_parse_error :: "exn \<Rightarrow> bool" where
  \<comment> \<open>\<open>KeyError\<close>, \<open>TypeError\<close>, \<open>ValueError\<close> and the \<open>JSONDecodeError\<close> of requests\<close>
  "is_parse_error e =
     (case e of KeyError k \<Rightarrow> True | TypeError m \<Rightarrow> True | ValueError m \<Rightarrow> True | OtherError c m \<Rightarrow> c = ''JSONDecodeError'' | _ \<Rightarrow> False)"

definition openbao_url :: "python_env \<Rightarrow> openbao \<Rightarrow> string \<Rightarrow> exn + string" where
  "openbao_url E p ws =
     res_bind (str_format (pe_fmt E) (ob_path_template p) ''workspace_id'' ws)
       (\<lambda>path. Inr (ob_endpoint p @ ''/v1/'' @ ob_mount p @ ''/data/'' @ path))"

definition safe_url_for_error :: "python_env \<Rightarrow> openbao \<Rightarrow> string \<Rightarrow> exn + string" where
  "safe_url_for_error E p ws =
     res_bind (openbao_url E p ws)
       (\<lambda>raw. res_bind (urlparse (pe_ip6 E) raw)
          (\<lambda>u. res_bind (url_port u)
             (\<lambda>port.
                let host = url_hostname u;
                    h = (if CHR '':'' \<in> set host then ''['' @ host @ '']'' else host);
                    port_part = (case port of None \<Rightarrow> [] | Some n \<Rightarrow> if n = 0 then [] else '':'' @ int_str n)
                in Inr (urlunparse (up_scheme u) (h @ port_part) (up_path u)))))"

definition SECRET_STAGES :: "string list" where
  "SECRET_STAGES = [''auth'', ''backend'', ''network'', ''parse'', ''timeout'']"

definition secret_error :: "string \<Rightarrow> string \<Rightarrow> int option \<Rightarrow> exn" where
  \<comment> \<open>what raising \<open>SecretProviderError(message, stage, status)\<close> raises\<close>
  "secret_error message stage status =
     (if stage \<notin> set SECRET_STAGES
      then ValueError (''stage must be one of ['' @ join_with '', '' (List.map repr_str SECRET_STAGES) @ ''], got '' @ repr_str stage)
      else SecretProviderError message stage status)"

definition failure :: "python_env \<Rightarrow> openbao \<Rightarrow> string \<Rightarrow> (string \<Rightarrow> string) \<Rightarrow> string \<Rightarrow> int option \<Rightarrow> exn + 'a" where
  \<comment> \<open>raise a \<open>SecretProviderError\<close> whose message names the URL\<close>
  "failure E p ws message stage status =
     res_bind (safe_url_for_error E p ws) (\<lambda>url. Inl (secret_error (message url) stage status))"

definition secrets_raw :: "exn + pyv \<Rightarrow> exn + pyv" where
  \<comment> \<open>\<open>body["data"]["data"]\<close>\<close>
  "secrets_raw body = res_bind body (\<lambda>b. res_bind (py_index b ''data'') (\<lambda>d. py_index d ''data''))"

definition read_secrets :: "python_env \<Rightarrow> openbao \<Rightarrow> string \<Rightarrow> exn + pyv \<Rightarrow> exn + string dict" where
  \<comment> \<open>the body of a 200 answer\<close>
  "read_secrets E p ws body =
     (case secrets_raw body of
        Inl e \<Rightarrow>
          (if is_parse_error e
           then failure E p ws (\<lambda>url. ''OpenBao response body malformed (missing data.data or invalid JSON) at '' @ url) ''parse'' (Some 200)
           else Inl e)
      | Inr (PDict kvs) \<Rightarrow> Inr (List.map (\<lambda>(k, v). (k, py_str (pe_float E) v)) kvs)
      | Inr v \<Rightarrow> Inl (AttributeError (repr_str (type_name v) @ '' object has no attribute '' @ repr_str ''items'')))"

definition on_response :: "python_env \<Rightarrow> openbao \<Rightarrow> string \<Rightarrow> http_response \<Rightarrow> exn + string dict" where
  "on_response E p ws r =
     (let s = hr_status r in
      if s = 404 then Inr []
      else if s = 401 \<or> s = 403
      then failure E p ws (\<lambda>url. ''OpenBao authentication/authorization error at '' @ url) ''auth'' (Some s)
      else if s \<ge> 500
      then failure E p ws (\<lambda>url. ''OpenBao backend error (HTTP '' @ int_str s @ '') at '' @ url) ''backend'' (Some s)
      else if s \<noteq> 200
      then failure E p ws (\<lambda>url. ''OpenBao unexpected HTTP '' @ int_str s @ '' at '' @ url) ''backend'' (Some s)
      else read_secrets E p ws (hr_json r))"

definition on_request_error :: "python_env \<Rightarrow> openbao \<Rightarrow> string \<Rightarrow> exn \<Rightarrow> exn + string dict" where
  "on_request_error E p ws e =
     (if is_timeout e then failure E p ws (\<lambda>url. ''OpenBao request timed out: '' @ url) ''timeout'' None
      else if is_connection_error e then failure E p ws (\<lambda>url. ''OpenBao connection failed: '' @ url) ''network'' None
      else Inl e)"

definition get_secrets :: "python_env \<Rightarrow> http_get \<Rightarrow> openbao \<Rightarrow> pyv \<Rightarrow> (exn + string dict) \<times> http_request list" where
  \<comment> \<open>the answer, and the requests sent\<close>
  "get_secrets E http p workspace_id =
     (let bad = (Inl (ValueError (''Invalid workspace_id (path-traversal / URL-injection guard): '' @ py_repr (pe_float E) workspace_id
             @ ''. Must match [A-Za-z0-9_.-]+ and not be '' @ repr_str ''.'' @ '' or '' @ repr_str ''..'' @ ''.'')), []) in
      case workspace_id of
        PStr ws \<Rightarrow>
          (if \<not> segment_name ws then bad
           else (case openbao_url E p ws of
                   Inl e \<Rightarrow> (Inl e, [])
                 | Inr url \<Rightarrow>
                     (let rq = \<lparr>rq_url = url, rq_headers = [(''X-Vault-Token'', ob_token p), (''Accept'', ''application/json'')],
                                rq_timeout = (ob_timeout_connect p, ob_timeout_read p)\<rparr> in
                      (case http rq of Inl e \<Rightarrow> on_request_error E p ws e | Inr r \<Rightarrow> on_response E p ws r, [rq]))))
      | _ \<Rightarrow> bad)"

lemmas openbao_operations [op_defs] = on_response_def on_request_error_def SECRET_STAGES_def Let_def

end
