(* ===== verification/Openbao_Properties.thy ===== *)
theory Openbao_Properties
  imports Openbao
begin

section \<open>What the OpenBao provider promises\<close>

text \<open>
  Where a request goes, what comes back for each answer, and where the token can show.
\<close>

subsection \<open>The path of a workspace\<close>

definition plain_pieces :: "tpl_piece list \<Rightarrow> bool" where
  \<comment> \<open>no conversion and no specification\<close>
  "plain_pieces ps = list_all (\<lambda>p. case p of Field n c sp \<Rightarrow> c = None \<and> sp = [] | Literal l \<Rightarrow> True) ps"

definition plain_template :: "string \<Rightarrow> bool" where
  "plain_template t = (case template_parse t of Inr ps \<Rightarrow> plain_pieces ps | Inl m \<Rightarrow> False)"

lemma format_no_field: "field_names ps = [] \<Longrightarrow> \<exists>A. \<forall>v. format_pieces fmt k v ps = Inr A"
proof (induction ps)
  case (Cons p ps)
  then show ?case by (cases p) (fastforce simp: field_names_def)+
qed simp

lemma format_one_field:
  "field_names ps = [k] \<Longrightarrow> plain_pieces ps \<Longrightarrow> \<exists>A B. \<forall>v. format_pieces fmt k v ps = Inr (A @ v @ B)"
proof (induction ps)
  case Nil
  then show ?case by (simp add: field_names_def)
next
  case (Cons p ps)
  show ?case
  proof (cases p)
    case (Literal l)
    with Cons obtain A B where "\<forall>v. format_pieces fmt k v ps = Inr (A @ v @ B)"
      by (auto simp: field_names_def plain_pieces_def)
    then have "\<forall>v. format_pieces fmt k v (p # ps) = Inr ((l @ A) @ v @ B)" by (simp add: Literal)
    then show ?thesis by blast
  next
    case (Field n c sp)
    with Cons.prems have "n = k" "c = None" "sp = []" and none: "field_names ps = []"
      by (auto simp: field_names_def plain_pieces_def)
    obtain B where "\<forall>v. format_pieces fmt k v ps = Inr B" using format_no_field [OF none] by blast
    then have "\<forall>v. format_pieces fmt k v (p # ps) = Inr ([] @ v @ B)"
      by (simp add: Field \<open>n = k\<close> \<open>c = None\<close> \<open>sp = []\<close> convert_def)
    then show ?thesis by blast
  qed
qed

lemma format_plain_any: "plain_pieces ps \<Longrightarrow> format_pieces fmt k v ps = format_pieces fmt' k v ps"
proof (induction ps)
  case (Cons p ps)
  then show ?case by (cases p) (auto simp: plain_pieces_def)
qed simp

lemma split_on_prefix: "c \<notin> set x \<Longrightarrow> split_on c (x @ s) = (x @ hd (split_on c s)) # tl (split_on c s)"
  by (induction x) (auto split: list.splits)

lemma split_around:
  "c \<notin> set x \<Longrightarrow> split_on c (A @ x @ B)
     = butlast (split_on c A) @ [last (split_on c A) @ x @ hd (split_on c B)] @ tl (split_on c B)"
proof (induction A)
  case Nil
  then show ?case by (simp add: split_on_prefix)
next
  case (Cons a A)
  then show ?case by (cases "split_on c A") (auto split: list.splits)
qed

lemma infix_of_dots: "m1 @ x @ m2 = ''..'' \<Longrightarrow> x = [] \<or> x = ''.'' \<or> x = ''..''"
  by (cases m1; cases x) (auto simp: Cons_eq_append_conv append_eq_Cons_conv)

lemma unsafe_codes: "c \<in> set unsafe_chars \<Longrightarrow> code c \<in> {63, 35, 92, 58, 64, 37}"
  by (auto simp: unsafe_chars_def code_def)

lemma sort_remdups_Nil: "sort (remdups xs) = [] \<longleftrightarrow> xs = []"
  by (metis set_empty set_sort set_remdups)

lemma id_char_safe: "is_id_char c \<Longrightarrow> c \<notin> set unsafe_chars"
  using unsafe_codes [of c] by (auto simp: is_id_char_def is_alpha_def is_digit_def code_def)

lemma check_ok:
  "check_template_segment t seg = Inr () \<longleftrightarrow>
     seg \<noteq> [] \<and> seg \<noteq> ''.'' \<and> seg \<noteq> ''..'' \<and> (seg = sentinel \<or> (\<forall>c \<in> set seg. c \<notin> set unsafe_chars))"
  by (auto simp: check_template_segment_def Let_def sort_remdups_Nil filter_empty_conv)

definition safe_path :: "string \<Rightarrow> bool" where
  \<comment> \<open>no empty, dot or dot-dot segment, and no character that changes the shape of a URL\<close>
  "safe_path path \<longleftrightarrow>
     (\<forall>seg \<in> set (split_on CHR ''/'' path). seg \<noteq> [] \<and> seg \<noteq> ''.'' \<and> seg \<noteq> ''..'' \<and> (\<forall>c \<in> set seg. c \<notin> set unsafe_chars))"

lemma sentinel_facts: "CHR ''/'' \<notin> set sentinel" "list_all is_id_char sentinel"
  by (simp_all add: sentinel_def is_id_char_def is_alpha_def is_digit_def code_def)

lemma template_path_safe:
  assumes "\<forall>seg \<in> set (split_on CHR ''/'' (A @ sentinel @ B)). check_template_segment t seg = Inr ()" and "segment_name ws"
  shows "safe_path (A @ ws @ B)"
proof -
  let ?as = "split_on CHR ''/'' A" and ?bs = "split_on CHR ''/'' B"
  have ws: "CHR ''/'' \<notin> set ws" "list_all is_id_char ws" "ws \<noteq> []" "ws \<noteq> ''.''" "ws \<noteq> ''..''"
    using assms(2) id_char_not_slash by (auto simp: segment_name_def)
  have chk: "check_template_segment t seg = Inr ()"
    if "seg \<in> set (butlast ?as) \<or> seg = last ?as @ sentinel @ hd ?bs \<or> seg \<in> set (tl ?bs)" for seg
    using assms(1) that unfolding split_around [OF sentinel_facts(1)] by auto
  have safe_sentinel: "\<forall>c \<in> set sentinel. c \<notin> set unsafe_chars"
    using sentinel_facts(2) id_char_safe by (auto simp: list_all_iff)
  have mid: "\<forall>c \<in> set (last ?as) \<union> set (hd ?bs). c \<notin> set unsafe_chars"
  proof (cases "last ?as @ sentinel @ hd ?bs = sentinel")
    case True
    then have "length (last ?as) + length (hd ?bs) = 0" by (metis add_diff_cancel_right' add.commute append.assoc length_append diff_is_0_eq le_refl diff_add_inverse add_cancel_right_left)
    then show ?thesis by simp
  next
    case False
    with chk [of "last ?as @ sentinel @ hd ?bs"] show ?thesis by (auto simp: check_ok)
  qed
  have "seg \<noteq> [] \<and> seg \<noteq> ''.'' \<and> seg \<noteq> ''..'' \<and> (\<forall>c \<in> set seg. c \<notin> set unsafe_chars)"
    if "seg \<in> set (split_on CHR ''/'' (A @ ws @ B))" for seg
  proof -
    from that consider "seg \<in> set (butlast ?as) \<union> set (tl ?bs)" | "seg = last ?as @ ws @ hd ?bs"
      unfolding split_around [OF ws(1)] by auto
    then show ?thesis
    proof cases
      case 1
      with chk [of seg] safe_sentinel show ?thesis by (auto simp: check_ok)
    next
      case 2
      have "seg \<noteq> ''..''" using infix_of_dots [of "last ?as" ws "hd ?bs"] ws(3-5) 2 by auto
      moreover have "seg \<noteq> ''.''" using ws(3,4) 2 by (auto simp: append_eq_Cons_conv Cons_eq_append_conv)
      ultimately show ?thesis using 2 ws(2,3) mid id_char_safe by (auto simp: list_all_iff)
    qed
  qed
  then show ?thesis by (simp add: safe_path_def)
qed


lemma valid_template:
  assumes "validate_path_template fmt v = Inr t" and "plain_template t"
  obtains A B where "\<forall>x. str_format f t ''workspace_id'' x = Inr (A @ x @ B)" "\<forall>ws. segment_name ws \<longrightarrow> safe_path (A @ ws @ B)"
proof -
  from assms(1) obtain ps sample where v: "v = PStr t" and ps: "template_parse t = Inr ps" "field_names ps = [''workspace_id'']"
    and sample: "str_format fmt t ''workspace_id'' sentinel = Inr sample"
    and chk: "res_all (check_template_segment t) (split_on CHR ''/'' sample) = Inr ()"
    by (cases v) (auto split: if_splits sum.splits)
  from assms(2) ps(1) have plain: "plain_pieces ps" by (simp add: plain_template_def)
  obtain A B where AB: "\<forall>x. format_pieces fmt ''workspace_id'' x ps = Inr (A @ x @ B)"
    using format_one_field [OF ps(2) plain] by blast
  obtain A' B' where AB': "\<forall>x. format_pieces f ''workspace_id'' x ps = Inr (A' @ x @ B')"
    using format_one_field [OF ps(2) plain] by blast
  have same: "A' @ x @ B' = A @ x @ B" for x
    using format_plain_any [OF plain, of f _ x fmt] AB AB' by (metis Inr_inject)
  have "\<forall>ws. segment_name ws \<longrightarrow> safe_path (A @ ws @ B)"
    using template_path_safe [of A B t] sample chk ps(1) AB by (simp add: str_format_def res_all_Inr_iff)
  then show thesis using that [of A B] AB' same ps(1) by (simp add: str_format_def)
qed

lemma openbao_init_Inr:
  "openbao_init E endpoint token mount template tc tr = Inr p \<Longrightarrow>
     validate_path_template (pe_fmt E) template = Inr (ob_path_template p) \<and> validate_mount (pe_float E) mount = Inr (ob_mount p)
     \<and> token = PStr (ob_token p)"
  by (cases token) (auto simp: openbao_init_def split: if_splits)

lemma get_secrets_cases:
  assumes "segment_name ws" and "openbao_url E p ws = Inr url"
  shows "get_secrets E http p (PStr ws) =
    (let rq = \<lparr>rq_url = url, rq_headers = [(''X-Vault-Token'', ob_token p), (''Accept'', ''application/json'')],
               rq_timeout = (ob_timeout_connect p, ob_timeout_read p)\<rparr> in
     (case http rq of Inl e \<Rightarrow> on_request_error E p ws e | Inr r \<Rightarrow> on_response E p ws r, [rq]))"
  using assms by (simp add: get_secrets_def Let_def)

lemma get_secrets_bad:
  "(\<forall>ws. v = PStr ws \<longrightarrow> \<not> segment_name ws) \<Longrightarrow> \<exists>m. get_secrets E http p v = (Inl (ValueError m), [])"
  by (cases v) (auto simp: get_secrets_def Let_def)

text \<open>C33. Once the constructor has accepted its arguments and the template names the workspace without a
  conversion or a format specification, a call for a valid workspace id sends exactly one request; its URL
  is the endpoint, the mount and a path with no empty, dot or dot-dot segment and no character that would
  open a query, a fragment or another authority, and two workspaces never share a URL. Any other workspace
  id, of any type, is a \<open>ValueError\<close> and no request.
\<close>

theorem openbao_path_contained:
  assumes init: "openbao_init E endpoint token mount template tc tr = Inr p" and plain: "plain_template (ob_path_template p)"
  shows "\<exists>path. inj path
           \<and> (\<forall>ws http. segment_name ws \<longrightarrow>
                safe_path (path ws)
                \<and> List.map rq_url (snd (get_secrets E http p (PStr ws))) = [ob_endpoint p @ ''/v1/'' @ ob_mount p @ ''/data/'' @ path ws])
           \<and> segment_name (ob_mount p)
           \<and> (\<forall>v http. (\<forall>ws. v = PStr ws \<longrightarrow> \<not> segment_name ws) \<longrightarrow> (\<exists>m. get_secrets E http p v = (Inl (ValueError m), [])))"
proof -
  obtain A B where f: "\<forall>x. str_format (pe_fmt E) (ob_path_template p) ''workspace_id'' x = Inr (A @ x @ B)"
    and safe: "\<forall>ws. segment_name ws \<longrightarrow> safe_path (A @ ws @ B)"
    using valid_template [OF conjunct1 [OF openbao_init_Inr [OF init]] plain] by metis
  have url: "openbao_url E p ws = Inr (ob_endpoint p @ ''/v1/'' @ ob_mount p @ ''/data/'' @ A @ ws @ B)" for ws
    using f by (simp add: openbao_url_def)
  have "segment_name (ob_mount p)"
    using openbao_init_Inr [OF init] by (cases mount) (auto simp: segment_name_def split: if_splits)
  then show ?thesis
    using safe get_secrets_bad get_secrets_cases [OF _ url]
    by (intro exI [of _ "\<lambda>ws. A @ ws @ B"]) (auto simp: inj_def Let_def)
qed

definition sample_env :: python_env where
  "sample_env = \<lparr>pe_fmt = (\<lambda>sp t. if sp = ''.2'' then Inr (take 2 t) else Inl (ValueError ''Invalid format specifier'')),
                 pe_ip6 = (\<lambda>h. Inr ()), pe_float = (\<lambda>f. ''5.0'')\<rparr>"

definition sample_provider :: openbao where
  "sample_provider = \<lparr>ob_endpoint = ''https://bao'', ob_token = ''s.t'', ob_mount = ''secret'',
     ob_path_template = ''claw/{workspace_id}'', ob_timeout_connect = Fin 5, ob_timeout_read = Fin 30\<rparr>"

lemma sample_init:
  "openbao_init sample_env (PStr ''https://bao/'') (PStr ''s.t'') (PStr ''secret'') (PStr ''claw/{workspace_id}'') (PInt 5) (PFloat (Fin 30))
     = Inr sample_provider"
  by code_simp

lemma sample_plain: "plain_template (ob_path_template sample_provider)"
  by code_simp

theorem openbao_path_contained_witness:
  "\<exists>path. inj path \<and> safe_path (path ''ws1'')
     \<and> List.map rq_url (snd (get_secrets sample_env (\<lambda>rq. Inr \<lparr>hr_status = 404, hr_json = Inr PNone\<rparr>) sample_provider (PStr ''ws1'')))
         = [''https://bao/v1/secret/data/'' @ path ''ws1'']"
proof -
  have "segment_name ''ws1''" by code_simp
  with openbao_path_contained [OF sample_init sample_plain] show ?thesis
    by (auto simp: sample_provider_def)
qed

text \<open>A template with a format specification is accepted, and can undo the check of the workspace id.\<close>

lemma format_spec_escapes:
  "case openbao_init sample_env (PStr ''https://bao'') (PStr ''t'') (PStr ''secret'') (PStr ''a/{workspace_id:.2}'') (PInt 5) (PInt 5) of
     Inl e \<Rightarrow> False
   | Inr p \<Rightarrow> List.map rq_url (snd (get_secrets sample_env (\<lambda>rq. Inr \<lparr>hr_status = 404, hr_json = Inr PNone\<rparr>) p (PStr ''..b'')))
               = [''https://bao/v1/secret/data/a/..'']"
  by code_simp

subsection \<open>What a call answers\<close>

lemma failure_shown:
  "safe_url_for_error E p ws = Inr shown \<Longrightarrow> stage \<in> set SECRET_STAGES
     \<Longrightarrow> failure E p ws msg stage status = Inl (SecretProviderError (msg shown) stage status)"
  by (simp add: failure_def secret_error_def)

definition data_data :: "exn + pyv \<Rightarrow> pyv option" where
  \<comment> \<open>the value below \<open>data.data\<close> of a body, if there is one\<close>
  "data_data body =
     (case body of
        Inr (PDict b) \<Rightarrow> (case dict_get b ''data'' of Some (PDict d) \<Rightarrow> dict_get d ''data'' | _ \<Rightarrow> None)
      | _ \<Rightarrow> None)"

lemma indexed_data:
  "secrets_raw body = Inr v \<longleftrightarrow> data_data body = Some v"
  by (auto simp: secrets_raw_def py_index_Inr data_data_def split: sum.splits pyv.splits option.splits)

lemma indexed_no_data:
  assumes "data_data body = None" and "\<And>e. body = Inl e \<Longrightarrow> is_parse_error e"
  shows "\<exists>e. secrets_raw body = Inl e \<and> is_parse_error e"
proof (cases "secrets_raw body")
  case (Inl e)
  then have "is_parse_error e"
    using assms(2) by (auto dest!: py_index_Inl simp: secrets_raw_def is_parse_error_def)
  with Inl show ?thesis by blast
next
  case (Inr v)
  then show ?thesis using assms(1) by (simp add: indexed_data)
qed

lemma read_secrets_cases:
  assumes shown: "safe_url_for_error E p ws = Inr shown" and "\<And>e. body = Inl e \<Longrightarrow> is_parse_error e"
  shows "case data_data body of
      None \<Rightarrow> \<exists>m. read_secrets E p ws body = Inl (SecretProviderError m ''parse'' (Some 200))
    | Some (PDict kvs) \<Rightarrow> read_secrets E p ws body = Inr (List.map (\<lambda>(k, v). (k, py_str (pe_float E) v)) kvs)
    | Some v \<Rightarrow> \<exists>m. read_secrets E p ws body = Inl (AttributeError m)"
proof (cases "data_data body")
  case None
  then obtain e where "secrets_raw body = Inl e" "is_parse_error e"
    using indexed_no_data [OF None assms(2)] by blast
  then show ?thesis using None by (simp add: read_secrets_def failure_shown [OF shown] SECRET_STAGES_def)
next
  case (Some v)
  then have "secrets_raw body = Inr v" by (simp only: indexed_data)
  then show ?thesis using Some by (cases v) (simp_all add: read_secrets_def)
qed

lemma error_classes_disjoint: "is_timeout e \<or> is_connection_error e \<Longrightarrow> (\<exists>c m. e = OtherError c m)"
  by (auto simp: is_timeout_def is_connection_error_def split: exn.splits)

text \<open>What a call for a valid workspace answers, for every answer of the server. A dictionary comes back for a
  404, empty, and for a 200 whose \<open>data.data\<close> is an object, with the same keys in the same order and every
  value as a string. A timeout, a connection error, a refused token, any other status and a body without
  \<open>data.data\<close> are \<open>SecretProviderError\<close>s with the stage and the status of the table. Two answers escape the
  table: a \<open>data.data\<close> that is no object (an \<open>AttributeError\<close>) and any other exception of the HTTP library.
\<close>

theorem openbao_outcomes:
  assumes "segment_name ws" and "openbao_url E p ws = Inr url" and shown: "safe_url_for_error E p ws = Inr shown"
    and json: "\<forall>rq r e. http rq = Inr r \<and> hr_json r = Inl e \<longrightarrow> is_parse_error e"
    and call: "get_secrets E http p (PStr ws) = (res, rqs)"
  shows "\<exists>rq. rqs = [rq]
     \<and> (case http rq of
          Inl e \<Rightarrow>
            if is_timeout e then (\<exists>m. res = Inl (SecretProviderError m ''timeout'' None))
            else if is_connection_error e then (\<exists>m. res = Inl (SecretProviderError m ''network'' None))
            else res = Inl e
        | Inr r \<Rightarrow>
            if hr_status r = 404 then res = Inr []
            else if hr_status r = 200
            then (case data_data (hr_json r) of
                    None \<Rightarrow> \<exists>m. res = Inl (SecretProviderError m ''parse'' (Some 200))
                  | Some (PDict kvs) \<Rightarrow> res = Inr (List.map (\<lambda>(k, v). (k, py_str (pe_float E) v)) kvs)
                  | Some v \<Rightarrow> \<exists>m. res = Inl (AttributeError m))
            else (\<exists>m. res = Inl (SecretProviderError m (if hr_status r \<in> {401, 403} then ''auth'' else ''backend'') (Some (hr_status r)))))"
proof -
  have "\<exists>rq. get_secrets E http p (PStr ws)
      = (case http rq of Inl e \<Rightarrow> on_request_error E p ws e | Inr r \<Rightarrow> on_response E p ws r, [rq])"
    using get_secrets_cases [OF assms(1,2)] unfolding Let_def by blast
  then obtain rq where rq: "rqs = [rq]"
    and res: "res = (case http rq of Inl e \<Rightarrow> on_request_error E p ws e | Inr r \<Rightarrow> on_response E p ws r)"
    using call by auto
  note fail = failure_shown [OF shown]
  show ?thesis
  proof (cases "http rq")
    case (Inl e)
    then show ?thesis using rq res by (auto simp: op_defs fail)
  next
    case (Inr r)
    have body: "\<And>e. hr_json r = Inl e \<Longrightarrow> is_parse_error e" using json Inr by blast
    show ?thesis
      using rq res Inr read_secrets_cases [OF shown body, of "hr_json r"]
      by (auto simp: op_defs fail)
  qed
qed

definition sample_http :: http_get where
  \<comment> \<open>a server that knows one secret\<close>
  "sample_http rq = Inr \<lparr>hr_status = 200, hr_json = Inr (PDict [(''data'', PDict [(''data'', PDict [(''port'', PInt 1), (''key'', PStr ''v'')])])])\<rparr>"

theorem openbao_outcomes_witness:
  "fst (get_secrets sample_env sample_http sample_provider (PStr ''ws1'')) = Inr [(''port'', ''1''), (''key'', ''v'')]"
proof -
  have 1: "segment_name ''ws1''" by code_simp
  have 2: "openbao_url sample_env sample_provider ''ws1'' = Inr ''https://bao/v1/secret/data/claw/ws1''" by code_simp
  have 3: "safe_url_for_error sample_env sample_provider ''ws1'' = Inr ''https://bao/v1/secret/data/claw/ws1''" by code_simp
  have 4: "\<forall>rq r e. sample_http rq = Inr r \<and> hr_json r = Inl e \<longrightarrow> is_parse_error e" by (auto simp: sample_http_def)
  have one: "int_str 1 = ''1''" by code_simp
  have 5: "\<exists>r. sample_http rq = Inr r \<and> hr_status r = 200
      \<and> data_data (hr_json r) = Some (PDict [(''port'', PInt 1), (''key'', PStr ''v'')])" for rq
    by (simp add: sample_http_def data_data_def dict_get_def)
  obtain res rqs where call: "get_secrets sample_env sample_http sample_provider (PStr ''ws1'') = (res, rqs)" by fastforce
  obtain rq where out: "case sample_http rq of
      Inl e \<Rightarrow> if is_timeout e then (\<exists>m. res = Inl (SecretProviderError m ''timeout'' None))
            else if is_connection_error e then (\<exists>m. res = Inl (SecretProviderError m ''network'' None)) else res = Inl e
    | Inr r \<Rightarrow>
        if hr_status r = 404 then res = Inr []
        else if hr_status r = 200
        then (case data_data (hr_json r) of
                None \<Rightarrow> \<exists>m. res = Inl (SecretProviderError m ''parse'' (Some 200))
              | Some (PDict kvs) \<Rightarrow> res = Inr (List.map (\<lambda>(k, v). (k, py_str (pe_float sample_env) v)) kvs)
              | Some v \<Rightarrow> \<exists>m. res = Inl (AttributeError m))
        else (\<exists>m. res = Inl (SecretProviderError m (if hr_status r \<in> {401, 403} then ''auth'' else ''backend'') (Some (hr_status r))))"
    using openbao_outcomes [OF 1 2 3 4 call] by blast
  obtain r where r: "sample_http rq = Inr r" "hr_status r = 200"
      "data_data (hr_json r) = Some (PDict [(''port'', PInt 1), (''key'', PStr ''v'')])"
    using 5 [of rq] by blast
  from out [unfolded r(1)] r(2,3) show ?thesis by (simp add: call py_str_def one)
qed

subsection \<open>A source of the workspace resolver\<close>

definition openbao_source :: "python_env \<Rightarrow> http_get \<Rightarrow> openbao \<Rightarrow> string \<Rightarrow> exn + string dict" where
  \<comment> \<open>the provider as the resolver calls it\<close>
  "openbao_source E http p ws = fst (get_secrets E http p (PStr ws))"

locale json_server =
  fixes http :: http_get
  assumes distinct_keys: "http rq = Inr r \<Longrightarrow> data_data (hr_json r) = Some (PDict kvs) \<Longrightarrow> dict_wf kvs"
begin

lemma read_wf:
  assumes "http rq = Inr r" and "read_secrets E p ws (hr_json r) = Inr d"
  shows "dict_wf d"
proof (cases "secrets_raw (hr_json r)")
  case (Inl e)
  with assms(2) show ?thesis by (auto simp: read_secrets_def failure_def split: if_splits)
next
  case (Inr v)
  with assms(2) obtain kvs where v: "v = PDict kvs" and d: "d = List.map (\<lambda>(k, v). (k, py_str (pe_float E) v)) kvs"
    by (cases v) (auto simp: read_secrets_def)
  with Inr distinct_keys [OF assms(1)] have "dict_wf kvs" by (simp add: indexed_data)
  then show ?thesis by (simp add: d dict_wf_def dict_keys_def o_def split_beta)
qed

lemma source_wf: "openbao_source E http p ws = Inr d \<Longrightarrow> dict_wf d"
  by (auto simp: openbao_source_def get_secrets_def Let_def on_response_def on_request_error_def failure_def
      split: if_splits sum.splits dest: read_wf)

end

sublocale json_server \<subseteq> bao: env_source "openbao_source E http p" for E p
  by unfold_locales (rule source_wf)

interpretation sample_server: json_server sample_http
  by unfold_locales (auto simp: sample_http_def data_data_def dict_get_def dict_wf_def dict_keys_def)

subsection \<open>The token\<close>

definition answers_alike :: "exn + http_response \<Rightarrow> exn + http_response \<Rightarrow> bool" where
  \<comment> \<open>equal but for the text of a timeout or a connection error\<close>
  "answers_alike a b \<longleftrightarrow>
     a = b \<or> (\<exists>c m m'. a = Inl (OtherError c m) \<and> b = Inl (OtherError c m')
                \<and> (is_timeout (OtherError c m) \<or> is_connection_error (OtherError c m)))"

lemma failure_token: "failure E (p\<lparr>ob_token := t\<rparr>) ws msg stage status = failure E p ws msg stage status"
  by (simp add: failure_def safe_url_for_error_def openbao_url_def)

lemma on_response_token: "on_response E (p\<lparr>ob_token := t\<rparr>) ws r = on_response E p ws r"
  unfolding on_response_def read_secrets_def failure_token ..

lemma map_sum_bind: "map_sum id g (res_bind m f) = res_bind m (\<lambda>x. map_sum id g (f x))"
  by (cases m) auto

lemma on_error_token:
  "answers_alike (Inl e) (Inl e') \<Longrightarrow> on_request_error E (p\<lparr>ob_token := t\<rparr>) ws e' = on_request_error E p ws e"
  by (auto simp: answers_alike_def on_request_error_def failure_token is_timeout_def is_connection_error_def)

lemma get_secrets_token:
  assumes "\<forall>rq. answers_alike (http rq) (http (rq\<lparr>rq_headers := dict_set ''X-Vault-Token'' t (rq_headers rq)\<rparr>))"
  shows "fst (get_secrets E http (p\<lparr>ob_token := t\<rparr>) v) = fst (get_secrets E http p v)"
proof (cases "\<exists>ws url. v = PStr ws \<and> segment_name ws \<and> openbao_url E p ws = Inr url")
  case True
  then obtain ws url where v: "v = PStr ws" and ws: "segment_name ws" and url: "openbao_url E p ws = Inr url" by blast
  then have url': "openbao_url E (p\<lparr>ob_token := t\<rparr>) ws = Inr url" by (simp add: openbao_url_def)
  let ?rq = "\<lparr>rq_url = url, rq_headers = [(''X-Vault-Token'', ob_token p), (''Accept'', ''application/json'')],
      rq_timeout = (ob_timeout_connect p, ob_timeout_read p)\<rparr>"
  let ?rq' = "?rq\<lparr>rq_headers := [(''X-Vault-Token'', t), (''Accept'', ''application/json'')]\<rparr>"
  have "answers_alike (http ?rq) (http ?rq')"
    using spec [OF assms, of ?rq] by (simp add: dict_set_def)
  then show ?thesis
    unfolding v get_secrets_cases [OF ws url] get_secrets_cases [OF ws url']
    by (cases "http ?rq"; cases "http ?rq'") (auto simp: Let_def on_response_token on_error_token answers_alike_def dest!: on_error_token)
next
  case False
  then show ?thesis
    by (cases v) (auto simp: get_secrets_def Let_def openbao_url_def split: sum.splits)
qed

lemma init_token:
  "t \<noteq> [] \<Longrightarrow> t' \<noteq> [] \<Longrightarrow>
     openbao_init E endpoint (PStr t') mount template tc tr
       = map_sum id (\<lambda>p. p\<lparr>ob_token := t'\<rparr>) (openbao_init E endpoint (PStr t) mount template tc tr)"
  by (simp add: openbao_init_def map_sum_bind)

text \<open>The comment on \<open>SecretProviderError\<close> says that its representation leaves the message out; it holds the message.\<close>

lemma repr_quotes_message: "sublist (repr_str m) (secret_error_repr m stage status)"
  unfolding secret_error_repr_def by (rule sublist_appendI)

text \<open>C34. The token reaches only the header of the request. Changing it changes neither whether the constructor
  accepts nor its error, nor the representation of the provider, nor anything a call answers or raises,
  as long as the server and the HTTP library answer alike; the text of their timeouts and connection errors
  may depend on the token, it is dropped.
\<close>

theorem openbao_hides_token:
  assumes "t \<noteq> []" and "t' \<noteq> []"
    and "\<forall>rq. answers_alike (http rq) (http (rq\<lparr>rq_headers := dict_set ''X-Vault-Token'' t' (rq_headers rq)\<rparr>))"
  shows "case openbao_init E endpoint (PStr t) mount template tc tr of
      Inl e \<Rightarrow> openbao_init E endpoint (PStr t') mount template tc tr = Inl e
    | Inr p \<Rightarrow> \<exists>p'. openbao_init E endpoint (PStr t') mount template tc tr = Inr p' \<and> ob_token p' = t'
        \<and> openbao_repr p' = openbao_repr p
        \<and> (\<forall>v. fst (get_secrets E http p' v) = fst (get_secrets E http p v))"
  using init_token [OF assms(1,2)] get_secrets_token [OF assms(3)]
  by (auto simp: openbao_repr_def split: sum.splits)

definition leaky_http :: http_get where
  \<comment> \<open>a connection error whose text holds the token\<close>
  "leaky_http rq = Inl (OtherError ''ConnectionError'' (snd (hd (rq_headers rq))))"

theorem openbao_hides_token_witness:
  "fst (get_secrets sample_env leaky_http (sample_provider\<lparr>ob_token := ''other''\<rparr>) (PStr ''ws1''))
     = fst (get_secrets sample_env leaky_http sample_provider (PStr ''ws1''))"
proof -
  have alike: "\<forall>rq. answers_alike (leaky_http rq) (leaky_http (rq\<lparr>rq_headers := dict_set ''X-Vault-Token'' t (rq_headers rq)\<rparr>))" for t
    by (simp add: leaky_http_def answers_alike_def is_timeout_def is_connection_error_def)
  have other: "openbao_init sample_env (PStr ''https://bao/'') (PStr ''other'') (PStr ''secret'') (PStr ''claw/{workspace_id}'') (PInt 5) (PFloat (Fin 30))
      = Inr (sample_provider\<lparr>ob_token := ''other''\<rparr>)"
    using init_token [of "''s.t''" "''other''"] sample_init by simp
  show ?thesis
    using openbao_hides_token [of "''s.t''" "''other''" leaky_http sample_env "PStr ''https://bao/''" "PStr ''secret''" "PStr ''claw/{workspace_id}''"
        "PInt 5" "PFloat (Fin 30)"] alike
    by (simp add: sample_init other)
qed

end
