(* ===== verification/Sql_Validation.thy ===== *)
theory Sql_Validation
  imports Sqlite_Store Context
begin

section \<open>Validation and schema of the SQLAlchemy store\<close>

text \<open>
  \<open>adapters/persistence/sqlalchemy/validation.py\<close> and \<open>schema.py\<close>: the checks of the constructor and of
  every field that crosses the adapter, and the two tables as data. \<open>make_url\<close> of SQLAlchemy is a parameter.
\<close>

subsection \<open>Fields\<close>

definition FIELD_CAPS :: "nat dict" where
  "FIELD_CAPS =
     [(''workspace_id'', 128), (''channel'', 64), (''external_thread_key'', 256), (''backend_name'', 64),
      (''session_id'', 64), (''backend_thread_id'', 256), (''message_id'', 256)]"

fun py_len :: "pyv \<Rightarrow> exn + nat" where
  "py_len (PStr s) = Inr (length s)"
| "py_len (PList xs) = Inr (length xs)"
| "py_len (PDict kvs) = Inr (length kvs)"
| "py_len v = Inl (TypeError (''object of type '' @ repr_str (type_name v) @ '' has no len()''))"

definition validate_field :: "string \<Rightarrow> bool \<Rightarrow> pyv \<Rightarrow> exn + unit" where
  "validate_field name nullable v =
     (if v = PNone
      then (if nullable then Inr () else Inl (ValueError (name @ '' must not be None'')))
      else if \<not> truthy v then Inl (ValueError (name @ '' must not be empty''))
      else (case dict_get FIELD_CAPS name of
              None \<Rightarrow> Inr ()
            | Some cap \<Rightarrow>
                res_bind (py_len v)
                  (\<lambda>n. if cap < n
                       then Inl (ValueError (name @ '' exceeds maximum length '' @ nat_str cap @ '' (got '' @ nat_str n @ '')''))
                       else Inr ())))"

subsection \<open>Names that go into DDL\<close>

definition is_word_char :: "char \<Rightarrow> bool" where
  "is_word_char c \<longleftrightarrow> is_alpha c \<or> is_digit c \<or> c = CHR ''_''"

definition sql_name :: "nat \<Rightarrow> string \<Rightarrow> bool" where
  \<comment> \<open>\<open>[A-Za-z_][A-Za-z0-9_]*\<close> with at least \<open>n\<close> characters after the first\<close>
  "sql_name n s \<longleftrightarrow>
     (case s of [] \<Rightarrow> False | c # r \<Rightarrow> (is_alpha c \<or> c = CHR ''_'') \<and> list_all is_word_char r \<and> n \<le> length r)"

definition dollar_match :: "(string \<Rightarrow> bool) \<Rightarrow> string \<Rightarrow> bool" where
  \<comment> \<open>\<open>^...$\<close> with \<open>re.match\<close>: the end, or before a newline that ends the text\<close>
  "dollar_match P s \<longleftrightarrow> P s \<or> (s \<noteq> [] \<and> code (last s) = 10 \<and> P (butlast s))"

definition TABLE_PREFIX_MAX :: nat where
  "TABLE_PREFIX_MAX = 32"

definition ALLOWED_SCHEMES :: "string list" where
  "ALLOWED_SCHEMES = [''mysql+pymysql'', ''postgresql+psycopg'', ''sqlite'']"

definition ALLOWED_DSN_QUERY_KEYS :: "string list" where
  "ALLOWED_DSN_QUERY_KEYS =
     [''application_name'', ''charset'', ''connect_timeout'', ''ssl_ca'', ''ssl_cert'', ''ssl_key'', ''ssl_verify_cert'',
      ''ssl_verify_identity'', ''sslcert'', ''sslkey'', ''sslmode'', ''sslrootcert'']"

definition SQL_KEYWORDS :: "string list" where
  "SQL_KEYWORDS =
     [''select'', ''from'', ''where'', ''insert'', ''update'', ''delete'', ''drop'',
      ''alter'', ''create'', ''table'', ''index'', ''into'', ''values'', ''set'',
      ''join'', ''on'', ''order'', ''group'', ''by'', ''having'', ''union'', ''all'',
      ''distinct'', ''as'', ''null'', ''not'', ''and'', ''or'', ''in'', ''is'', ''like'',
      ''between'', ''case'', ''when'', ''then'', ''else'', ''end'']"

definition names_repr :: "string list \<Rightarrow> string" where
  "names_repr ns = ''['' @ join_with '', '' (List.map repr_str ns) @ '']''"

record sa_url =
  su_drivername :: string
  su_username :: pyv
  su_password :: pyv
  su_query :: "string list"

type_synonym make_url = "string \<Rightarrow> exn + sa_url"

definition parse_dsn :: "make_url \<Rightarrow> string \<Rightarrow> exn + sa_url" where
  "parse_dsn mk url =
     (case mk url of
        Inl e \<Rightarrow> Inl (if is_exception e then ValueError (''url is not a valid SQLAlchemy DSN: '' @ exn_type e) else e)
      | Inr u \<Rightarrow> Inr u)"

definition validate_dsn :: "sa_url \<Rightarrow> exn + unit" where
  "validate_dsn u =
     (let scheme = lower (su_drivername u) in
      if scheme \<notin> set ALLOWED_SCHEMES
      then Inl (ValueError (''url scheme '' @ repr_str scheme @ '' is not supported. Allowed: '' @ names_repr ALLOWED_SCHEMES
             @ ''. For mysql, use '' @ repr_str ''mysql+pymysql://...'' @ ''; for postgres, use '' @ repr_str ''postgresql+psycopg://...''
             @ ''. The bare '' @ repr_str ''mysql://'' @ '', '' @ repr_str ''postgresql://'' @ '', and '' @ repr_str ''postgres://''
             @ '' aliases pick default drivers (MySQLdb / psycopg2) that are NOT shipped via the [persistence-mysql] / [persistence-postgres] extras.''))
      else if truthy (su_username u) \<or> truthy (su_password u)
      then Inl (ValueError (''url must not contain embedded credentials (username / password). ''
             @ ''Use driver-level env vars or a SecretProvider instead.''))
      else (case List.find (\<lambda>key. key \<notin> set ALLOWED_DSN_QUERY_KEYS) (su_query u) of
              Some key \<Rightarrow> Inl (ValueError (''url query key '' @ repr_str key @ '' is not in the allowed list. Allowed keys: ''
                                @ names_repr ALLOWED_DSN_QUERY_KEYS @ ''.''))
            | None \<Rightarrow> Inr ()))"

definition validate_prefix :: "string \<Rightarrow> exn + unit" where
  "validate_prefix pfx =
     (if pfx \<noteq> [] \<and> \<not> dollar_match (sql_name 0) pfx
      then Inl (ValueError (''table_prefix '' @ repr_str pfx @ '' is invalid. Must match [A-Za-z_][A-Za-z0-9_]* or be empty string.''))
      else if TABLE_PREFIX_MAX < length pfx
      then Inl (ValueError (''table_prefix exceeds maximum length '' @ nat_str TABLE_PREFIX_MAX @ '' (got '' @ nat_str (length pfx) @ '')''))
      else Inr ())"

fun validate_schema :: "string option \<Rightarrow> exn + unit" where
  "validate_schema None = Inr ()"
| "validate_schema (Some schema) =
     (if \<not> dollar_match (sql_name 1) schema
      then Inl (ValueError (''schema '' @ repr_str schema @ '' is invalid. Must match [A-Za-z_][A-Za-z0-9_]+ (at least 2 chars).''))
      else if lower schema \<in> set SQL_KEYWORDS
      then Inl (ValueError (''schema '' @ repr_str schema @ '' is a reserved SQL keyword.''))
      else Inr ())"

definition validate_construction_args :: "make_url \<Rightarrow> string \<Rightarrow> string option \<Rightarrow> string \<Rightarrow> exn + unit" where
  "validate_construction_args mk url schema pfx =
     (if url = [] then Inl (ValueError ''url must not be empty'')
      else res_bind (parse_dsn mk url)
             (\<lambda>u. res_bind (validate_dsn u) (\<lambda>_. res_bind (validate_prefix pfx) (\<lambda>_. validate_schema schema))))"

subsection \<open>Tables\<close>

datatype sql_type = SqlString nat | SqlInteger | SqlFloat

record sql_column =
  cl_name :: string
  cl_type :: sql_type
  cl_nullable :: bool
  cl_default :: "string option"

record sql_table =
  tb_name :: string
  tb_schema :: "string option"
  tb_columns :: "sql_column list"
  tb_primary_key :: "string list"
  tb_unique :: "(string \<times> string list) list"
  tb_foreign_keys :: "(string \<times> string \<times> string) list"
    \<comment> \<open>column, target, what a deletion does\<close>

definition column :: "string \<Rightarrow> sql_type \<Rightarrow> sql_column" where
  "column name t = \<lparr>cl_name = name, cl_type = t, cl_nullable = False, cl_default = None\<rparr>"

definition sessions_table :: "string \<Rightarrow> string option \<Rightarrow> sql_table" where
  "sessions_table pfx schema =
     \<lparr>tb_name = pfx @ ''sessions'', tb_schema = schema,
      tb_columns =
        [column ''session_id'' (SqlString 64), column ''workspace_id'' (SqlString 128), column ''channel'' (SqlString 64),
         column ''external_thread_key'' (SqlString 256), column ''backend_name'' (SqlString 64),
         (column ''backend_thread_id'' (SqlString 256))\<lparr>cl_nullable := True\<rparr>,
         (column ''round_count'' SqlInteger)\<lparr>cl_default := Some ''0''\<rparr>,
         (column ''max_rounds'' SqlInteger)\<lparr>cl_default := Some ''50''\<rparr>,
         (column ''last_active'' SqlFloat)\<lparr>cl_default := Some ''0.0''\<rparr>],
      tb_primary_key = [''session_id''],
      tb_unique = [(''uq_'' @ pfx @ ''sessions_natural_key'', [''workspace_id'', ''channel'', ''external_thread_key''])],
      tb_foreign_keys = []\<rparr>"

definition processed_table :: "string \<Rightarrow> string option \<Rightarrow> sql_table" where
  "processed_table pfx schema =
     (let target = pfx @ ''sessions.session_id'';
          fk_target = (case schema of None \<Rightarrow> target | Some s \<Rightarrow> if s = [] then target else s @ ''.'' @ target) in
      \<lparr>tb_name = pfx @ ''processed_messages'', tb_schema = schema,
       tb_columns = [column ''session_id'' (SqlString 64), column ''message_id'' (SqlString 256)],
       tb_primary_key = [''session_id'', ''message_id''], tb_unique = [],
       tb_foreign_keys = [(''session_id'', fk_target, ''CASCADE'')]\<rparr>)"

definition build_tables :: "string \<Rightarrow> string option \<Rightarrow> sql_table \<times> sql_table" where
  "build_tables pfx schema = (sessions_table pfx schema, processed_table pfx schema)"

fun holds_value :: "sql_column \<Rightarrow> pyv \<Rightarrow> bool" where
  \<comment> \<open>may the column hold the value: type, width and nullability; the range of INTEGER depends on the database and
    is what its driver lets through (\<open>sb_int\<close>)\<close>
  "holds_value c PNone = cl_nullable c"
| "holds_value c (PStr s) = (case cl_type c of SqlString n \<Rightarrow> length s \<le> n | _ \<Rightarrow> False)"
| "holds_value c (PInt i) = (cl_type c = SqlInteger)"
| "holds_value c (PFloat x) = (cl_type c = SqlFloat)"
| "holds_value c v = False"

definition row_values :: "session_row \<Rightarrow> pyv list" where
  \<comment> \<open>in the order of the columns\<close>
  "row_values row =
     [PStr (col_session_id row), PStr (col_workspace_id row), PStr (col_channel row), PStr (col_external_thread_key row),
      PStr (col_backend_name row), col_backend_thread_id row, PInt (col_round_count row), PInt (col_max_rounds row),
      PFloat (Fin (col_last_active row))]"

definition fits_table :: "sql_table \<Rightarrow> pyv list \<Rightarrow> bool" where
  "fits_table t vs \<longleftrightarrow> list_all2 holds_value (tb_columns t) vs"

end
