(* ===== verification/Sqlalchemy_Store.thy ===== *)
theory Sqlalchemy_Store
  imports Sql_Validation
begin

section \<open>SQLAlchemySessionStore\<close>

text \<open>
  \<open>adapters/persistence/sqlalchemy/store.py\<close>. The rows of the two tables are those of the SQLite store; what
  differs between the databases is the record \<open>sa_backend\<close>: how text compares, what a driver makes of a
  parameter, whether foreign keys are enforced, and what creating the engine and the tables answers.
  \<open>get_or_create\<close> is a state machine with one transaction per step, so that several processes can be
  interleaved on one database.
\<close>

subsection \<open>Construction\<close>

record sa_config =
  sc_url :: string
  sc_schema :: "string option"
  sc_table_prefix :: string
  sc_connect_args :: "pyv dict option"

definition sa_init :: "make_url \<Rightarrow> string \<Rightarrow> string option \<Rightarrow> string \<Rightarrow> pyv dict option \<Rightarrow> exn + sa_config" where
  "sa_init mk url schema pfx connect_args =
     res_bind (validate_construction_args mk url schema pfx)
       (\<lambda>_. Inr \<lparr>sc_url = url, sc_schema = schema, sc_table_prefix = pfx, sc_connect_args = map_option dict_of connect_args\<rparr>)"

definition sa_repr :: "make_url \<Rightarrow> (sa_url \<Rightarrow> string) \<Rightarrow> sa_config \<Rightarrow> string" where
  \<comment> \<open>\<open>render\<close> is \<open>render_as_string(hide_password=True)\<close>\<close>
  "sa_repr mk render c =
     (let safe_url = (case mk (sc_url c) of Inl e \<Rightarrow> ''<unparseable-url>'' | Inr u \<Rightarrow> render u) in
      ''SQLAlchemySessionStore(url='' @ repr_str safe_url
      @ '', schema='' @ (case sc_schema c of None \<Rightarrow> ''None'' | Some s \<Rightarrow> repr_str s)
      @ '', table_prefix='' @ repr_str (sc_table_prefix c) @ '')'')"

subsection \<open>The database\<close>

record sa_backend =
  sb_boot :: "exn + unit"
    \<comment> \<open>\<open>create_engine\<close> and \<open>create_all\<close>\<close>
  sb_same :: "string \<Rightarrow> string \<Rightarrow> bool"
    \<comment> \<open>equality of text under the collation\<close>
  sb_text :: "pyv \<Rightarrow> exn + string option"
    \<comment> \<open>what a parameter for a text column becomes\<close>
  sb_int :: "int \<Rightarrow> exn + int"
    \<comment> \<open>what a parameter for an INTEGER column becomes; it refuses what is out of its range\<close>
  sb_float :: "rat \<Rightarrow> rat"
    \<comment> \<open>what a FLOAT column keeps of a number\<close>
  sb_fk :: bool

record sa_store =
  sa_ready :: bool
  sa_db :: sqlite_db

definition sa_new :: sa_store where
  \<comment> \<open>no engine yet, and no rows in the database\<close>
  "sa_new = \<lparr>sa_ready = False, sa_db = sqlite_init\<rparr>"

definition is_sqlalchemy_error :: "exn \<Rightarrow> bool" where
  "is_sqlalchemy_error e =
     (case e of
        IntegrityError m \<Rightarrow> True | DatabaseError m \<Rightarrow> True
      | OtherError c m \<Rightarrow> c \<in> {''OperationalError'', ''InterfaceError'', ''DataError'', ''InternalError'', ''NotSupportedError'',
                            ''ArgumentError'', ''NoSuchModuleError'', ''CompileError'', ''TimeoutError''}
      | _ \<Rightarrow> False)"

definition is_integrity_error :: "exn \<Rightarrow> bool" where
  "is_integrity_error e = (case e of IntegrityError m \<Rightarrow> True | _ \<Rightarrow> False)"

definition STORE_STAGES :: "string list" where
  "STORE_STAGES = [''init'', ''query'']"

definition store_error :: "string \<Rightarrow> string option \<Rightarrow> exn" where
  \<comment> \<open>what raising \<open>SessionStoreError(message, stage)\<close> raises\<close>
  "store_error message stage =
     (case stage of
        Some s \<Rightarrow>
          (if s \<notin> set STORE_STAGES
           then ValueError (''stage must be one of '' @ names_repr STORE_STAGES @ '' or None, got '' @ repr_str s)
           else SessionStoreError message stage)
      | None \<Rightarrow> SessionStoreError message stage)"

definition init_failure :: "exn \<Rightarrow> exn" where
  \<comment> \<open>the text of the failure may quote the URL and is left out\<close>
  "init_failure e =
     (if is_sqlalchemy_error e
      then store_error (''failed to initialize engine or create schema: '' @ exn_type e) (Some ''init'') else e)"

definition ensure_engine :: "sa_backend \<Rightarrow> sa_store \<Rightarrow> (exn + unit) \<times> sa_store" where
  "ensure_engine B st =
     (if sa_ready st then (Inr (), st)
      else (case sb_boot B of
              Inl e \<Rightarrow> (Inl (init_failure e), st)
            | Inr _ \<Rightarrow> (Inr (), st\<lparr>sa_ready := True\<rparr>)))"

definition on_engine :: "sa_backend \<Rightarrow> exn + unit \<Rightarrow> (sqlite_db \<Rightarrow> (exn + 'a) \<times> sqlite_db) \<Rightarrow> sa_store \<Rightarrow> (exn + 'a) \<times> sa_store" where
  \<comment> \<open>the checks of the fields, the engine, then the statements\<close>
  "on_engine B checks f st =
     (case checks of
        Inl e \<Rightarrow> (Inl e, st)
      | Inr _ \<Rightarrow>
          (case ensure_engine B st of
             (Inl e, st1) \<Rightarrow> (Inl e, st1)
           | (Inr _, st1) \<Rightarrow> (let (r, d) = f (sa_db st1) in (r, st1\<lparr>sa_db := d\<rparr>))))"

subsection \<open>Statements\<close>

definition sa_has_key :: "sa_backend \<Rightarrow> sess_key \<Rightarrow> session_row \<Rightarrow> bool" where
  "sa_has_key B key row \<longleftrightarrow>
     sb_same B (col_workspace_id row) (fst key) \<and> sb_same B (col_channel row) (fst (snd key))
     \<and> sb_same B (col_external_thread_key row) (snd (snd key))"

definition sa_select_key :: "sa_backend \<Rightarrow> sess_key \<Rightarrow> sqlite_db \<Rightarrow> session_row option" where
  "sa_select_key B key d = List.find (sa_has_key B key) (db_sessions d)"

text \<open>The constraints that an INSERT is checked against are those of the table that \<open>_build_tables\<close> declares
  (its columns and keys do not depend on the prefix and the schema).\<close>

definition same_value :: "sa_backend \<Rightarrow> pyv \<Rightarrow> pyv \<Rightarrow> bool" where
  \<comment> \<open>equality in a key; NULL equals nothing\<close>
  "same_value B v w = (case (v, w) of (PStr a, PStr b) \<Rightarrow> sb_same B a b | _ \<Rightarrow> v = w \<and> v \<noteq> PNone)"

definition column_value :: "sql_table \<Rightarrow> pyv list \<Rightarrow> string \<Rightarrow> pyv" where
  "column_value t vs name = (case map_of (zip (List.map cl_name (tb_columns t)) vs) name of None \<Rightarrow> PNone | Some v \<Rightarrow> v)"

definition violates :: "sa_backend \<Rightarrow> sql_table \<Rightarrow> pyv list list \<Rightarrow> pyv list \<Rightarrow> bool" where
  \<comment> \<open>a NULL in a column that is not nullable, or the primary key or a unique constraint of a row that is there\<close>
  "violates B t rows vs \<longleftrightarrow>
     list_ex (\<lambda>(c, v). v = PNone \<and> \<not> cl_nullable c) (zip (tb_columns t) vs)
     \<or> list_ex (\<lambda>names. list_ex (\<lambda>r. list_all (\<lambda>n. same_value B (column_value t r n) (column_value t vs n)) names) rows)
         (tb_primary_key t # List.map snd (tb_unique t))"

definition sa_insert_session :: "sa_backend \<Rightarrow> session_row \<Rightarrow> sqlite_db \<Rightarrow> (exn + unit) \<times> sqlite_db" where
  "sa_insert_session B row d =
     (case res_bind (sb_int B (col_round_count row)) (\<lambda>rc. res_bind (sb_int B (col_max_rounds row)) (\<lambda>mr. Inr (rc, mr))) of
        Inl e \<Rightarrow> (Inl e, d)
      | Inr (rc, mr) \<Rightarrow>
          (let stored = row\<lparr>col_round_count := rc, col_max_rounds := mr, col_last_active := sb_float B (col_last_active row)\<rparr> in
           if violates B (fst (build_tables [] None)) (List.map row_values (db_sessions d)) (row_values stored)
           then (Inl (IntegrityError ''sessions''), d)
           else (Inr (), d\<lparr>db_sessions := db_sessions d @ [stored]\<rparr>)))"

definition processed_values :: "string \<times> string \<Rightarrow> pyv list" where
  "processed_values p = [PStr (fst p), PStr (snd p)]"

definition sa_is_row :: "sa_backend \<Rightarrow> string \<Rightarrow> string \<Rightarrow> string \<times> string \<Rightarrow> bool" where
  "sa_is_row B sid m p \<longleftrightarrow> sb_same B (fst p) sid \<and> sb_same B (snd p) m"

definition sa_insert_processed :: "sa_backend \<Rightarrow> string \<Rightarrow> string option \<Rightarrow> sqlite_db \<Rightarrow> (exn + unit) \<times> sqlite_db" where
  "sa_insert_processed B sid m d =
     (if violates B (snd (build_tables [] None)) (List.map processed_values (db_processed d)) [PStr sid, opt_str m]
      then (Inl (IntegrityError ''processed_messages''), d)
      else if sb_fk B \<and> \<not> list_ex (\<lambda>r. sb_same B (col_session_id r) sid) (db_sessions d)
      then (Inl (IntegrityError ''foreign key''), d)
      else (Inr (), case m of None \<Rightarrow> d | Some t \<Rightarrow> d\<lparr>db_processed := db_processed d @ [(sid, t)]\<rparr>))"

definition sa_update_session :: "sa_backend \<Rightarrow> string option \<Rightarrow> int \<Rightarrow> int \<Rightarrow> rat \<Rightarrow> string \<Rightarrow> sqlite_db \<Rightarrow> sqlite_db" where
  "sa_update_session B tid rc mr la sid d =
     d\<lparr>db_sessions := List.map (\<lambda>row. if sb_same B (col_session_id row) sid
          then row\<lparr>col_backend_thread_id := opt_str tid, col_round_count := rc, col_max_rounds := mr, col_last_active := sb_float B la\<rparr>
          else row) (db_sessions d)\<rparr>"

subsection \<open>Operations\<close>

datatype goc_pc = Check | Attempt session | Refetch | Answer "exn + session"
  \<comment> \<open>where a call of \<open>get_or_create\<close> stands: each step is one transaction\<close>

definition sa_row_to_session :: "session_row \<Rightarrow> session" where
  "sa_row_to_session row =
     \<lparr>ss_id = col_session_id row, ss_workspace_id = col_workspace_id row, ss_channel = col_channel row,
      ss_thread_key = col_external_thread_key row, ss_backend_name = col_backend_name row,
      ss_backend_thread_id = col_backend_thread_id row, ss_round_count = col_round_count row,
      ss_max_rounds = col_max_rounds row, ss_last_active = col_last_active row\<rparr>"

lemma sa_row_to_session [simp]: "sa_row_to_session = row_to_session"
  by (intro ext) (simp add: sa_row_to_session_def row_to_session_def)

definition row_or :: "goc_pc \<Rightarrow> session_row option \<Rightarrow> goc_pc" where
  "row_or pc found = (case found of Some row \<Rightarrow> Answer (Inr (sa_row_to_session row)) | None \<Rightarrow> pc)"

fun goc_step :: "sa_backend \<Rightarrow> string \<Rightarrow> sess_key \<Rightarrow> string \<Rightarrow> int \<Rightarrow> goc_pc \<Rightarrow> sqlite_db \<Rightarrow> goc_pc \<times> sqlite_db" where
  "goc_step B uuid key bn mr Check d = (row_or (Attempt (new_session uuid key bn mr)) (sa_select_key B key d), d)"
| "goc_step B uuid key bn mr (Attempt x) d =
     (case sa_insert_session B (session_to_row x) d of
        (Inr _, d') \<Rightarrow> (Answer (Inr x), d')
      | (Inl e, d') \<Rightarrow> (if is_integrity_error e then Refetch else Answer (Inl e), d'))"
| "goc_step B uuid key bn mr Refetch d =
     (row_or (Answer (Inl (store_error ''get_or_create: session not found after concurrent insert'' (Some ''query''))))
        (sa_select_key B key d), d)"
| "goc_step B uuid key bn mr (Answer r) d = (Answer r, d)"

fun goc_rank :: "goc_pc \<Rightarrow> nat" where
  "goc_rank Check = 3"
| "goc_rank (Attempt x) = 2"
| "goc_rank Refetch = 1"
| "goc_rank (Answer r) = 0"

lemma goc_step_rank: "goc_step B uuid key bn mr pc d = (pc', d') \<Longrightarrow> goc_rank pc' \<le> goc_rank pc - 1"
  by (cases pc) (auto simp: row_or_def split: prod.splits sum.splits option.splits if_splits)

function goc_run :: "sa_backend \<Rightarrow> string \<Rightarrow> sess_key \<Rightarrow> string \<Rightarrow> int \<Rightarrow> goc_pc \<Rightarrow> sqlite_db \<Rightarrow> (exn + session) \<times> sqlite_db" where
  "goc_run B uuid key bn mr pc d =
     (case pc of
        Answer r \<Rightarrow> (r, d)
      | _ \<Rightarrow> (let (pc', d') = goc_step B uuid key bn mr pc d in goc_run B uuid key bn mr pc' d'))"
  by pat_completeness auto
termination
proof (relation "measure (\<lambda>(B, uuid, key, bn, mr, pc, d). goc_rank pc)")
  fix B uuid key bn mr pc d x pc' d'
  assume "x = goc_step B uuid key bn mr pc d" "(pc', d') = x"
  then have "goc_rank pc' \<le> goc_rank pc - 1" using goc_step_rank by metis
  then show "pc = Check \<Longrightarrow> ((B, uuid, key, bn, mr, pc', d'), (B, uuid, key, bn, mr, pc, d)) \<in> measure (\<lambda>(B, uuid, key, bn, mr, pc, d). goc_rank pc)"
    and "pc = Attempt y \<Longrightarrow> ((B, uuid, key, bn, mr, pc', d'), (B, uuid, key, bn, mr, pc, d)) \<in> measure (\<lambda>(B, uuid, key, bn, mr, pc, d). goc_rank pc)"
    and "pc = Refetch \<Longrightarrow> ((B, uuid, key, bn, mr, pc', d'), (B, uuid, key, bn, mr, pc, d)) \<in> measure (\<lambda>(B, uuid, key, bn, mr, pc, d). goc_rank pc)" for y
    by simp_all
qed simp

declare goc_run.simps [simp del]

definition check_all :: "(exn + unit) list \<Rightarrow> exn + unit" where
  "check_all = res_all id"

definition sa_get_or_create :: "sa_backend \<Rightarrow> string \<Rightarrow> sess_key \<Rightarrow> string \<Rightarrow> int \<Rightarrow> sa_store \<Rightarrow> (exn + session) \<times> sa_store" where
  "sa_get_or_create B uuid key bn mr =
     on_engine B
       (check_all [validate_field ''workspace_id'' False (PStr (fst key)), validate_field ''channel'' False (PStr (fst (snd key))),
                   validate_field ''external_thread_key'' False (PStr (snd (snd key))), validate_field ''backend_name'' False (PStr bn)])
       (goc_run B uuid key bn mr Check)"

definition sa_save :: "sa_backend \<Rightarrow> session \<Rightarrow> sa_store \<Rightarrow> (exn + unit) \<times> sa_store" where
  "sa_save B x =
     on_engine B
       (check_all [validate_field ''session_id'' False (PStr (ss_id x)), validate_field ''backend_thread_id'' True (ss_backend_thread_id x)])
       (\<lambda>d. case res_bind (sb_text B (ss_backend_thread_id x))
                   (\<lambda>tid. res_bind (sb_int B (ss_round_count x))
                      (\<lambda>rc. res_bind (sb_int B (ss_max_rounds x)) (\<lambda>mr. Inr (tid, rc, mr)))) of
              Inl e \<Rightarrow> (Inl e, d)
            | Inr (tid, rc, mr) \<Rightarrow> (Inr (), sa_update_session B tid rc mr (ss_last_active x) (ss_id x) d))"

definition message_fields :: "string \<Rightarrow> pyv \<Rightarrow> exn + unit" where
  "message_fields sid m = check_all [validate_field ''session_id'' False (PStr sid), validate_field ''message_id'' False m]"

definition sa_is_processed :: "sa_backend \<Rightarrow> string \<Rightarrow> pyv \<Rightarrow> sa_store \<Rightarrow> (exn + bool) \<times> sa_store" where
  "sa_is_processed B sid m =
     on_engine B (message_fields sid m)
       (\<lambda>d. (res_bind (sb_text B m)
               (\<lambda>t. Inr (case t of None \<Rightarrow> False | Some s \<Rightarrow> list_ex (sa_is_row B sid s) (db_processed d))), d))"

definition sa_mark_processed :: "sa_backend \<Rightarrow> string \<Rightarrow> pyv \<Rightarrow> sa_store \<Rightarrow> (exn + unit) \<times> sa_store" where
  "sa_mark_processed B sid m =
     on_engine B (message_fields sid m)
       (\<lambda>d. case sb_text B m of
              Inl e \<Rightarrow> (if is_integrity_error e then Inr () else Inl e, d)
            | Inr t \<Rightarrow>
                (case sa_insert_processed B sid t d of
                   (Inl e, d') \<Rightarrow> (if is_integrity_error e then Inr () else Inl e, d')
                 | (Inr _, d') \<Rightarrow> (Inr (), d')))"

definition sa_store_ops :: "sa_backend \<Rightarrow> sa_store session_store_ops" where
  "sa_store_ops B =
     \<lparr>sop_get_or_create = sa_get_or_create B, sop_save = sa_save B, sop_is_processed = sa_is_processed B,
      sop_mark_processed = sa_mark_processed B\<rparr>"

lemma sa_store_ops_sel [simp]:
  "sop_get_or_create (sa_store_ops B) = sa_get_or_create B" "sop_save (sa_store_ops B) = sa_save B"
  "sop_is_processed (sa_store_ops B) = sa_is_processed B" "sop_mark_processed (sa_store_ops B) = sa_mark_processed B"
  by (simp_all add: sa_store_ops_def)

lemmas sa_operations [op_defs] =
  sa_get_or_create_def sa_save_def sa_is_processed_def sa_mark_processed_def message_fields_def

end
