(* ===== verification/Sqlalchemy_Properties.thy ===== *)
theory Sqlalchemy_Properties
  imports Sqlalchemy_Store Memory_Store
begin

section \<open>What the SQLAlchemy store promises\<close>

text \<open>
  The locale \<open>sql_backend\<close> states what the store relies on in a database: text compares exactly, drivers pass
  text, NULL and 32-bit integers on, no text wider than its column is stored, and a FLOAT column keeps the number it
  is given (a double, as on SQLite and PostgreSQL; MySQL's FLOAT has single precision and is not covered). Over it the store keeps the
  contract of a \<open>SessionStore\<close>, and processes that race to create a session agree.
\<close>

locale sql_backend =
  fixes B :: sa_backend
  assumes boot: "sb_boot B = Inr ()"
    and same: "sb_same B a b \<longleftrightarrow> a = b"
    and text_str: "sb_text B (PStr s) = Inr (Some s)"
    and text_null: "sb_text B PNone = Inr None"
    and text_width: "sb_text B v = Inr (Some s) \<Longrightarrow> v = PStr s \<or> length s \<le> 256"
    and int_32: "- (2 ^ 31) \<le> i \<Longrightarrow> i < 2 ^ 31 \<Longrightarrow> sb_int B i = Inr i"
    and float: "sb_float B x = x"

definition fits_32 :: "int \<Rightarrow> bool" where
  "fits_32 i \<longleftrightarrow> - (2 ^ 31) \<le> i \<and> i < 2 ^ 31"

definition field_ok :: "string \<Rightarrow> bool \<Rightarrow> pyv \<Rightarrow> bool" where
  "field_ok name nullable v \<longleftrightarrow> validate_field name nullable v = Inr ()"

definition sa_accepts :: "session \<Rightarrow> bool" where
  \<comment> \<open>the fields pass the checks and the numbers fit\<close>
  "sa_accepts x \<longleftrightarrow>
     field_ok ''workspace_id'' False (PStr (ss_workspace_id x)) \<and> field_ok ''channel'' False (PStr (ss_channel x))
     \<and> field_ok ''external_thread_key'' False (PStr (ss_thread_key x)) \<and> field_ok ''backend_name'' False (PStr (ss_backend_name x))
     \<and> field_ok ''session_id'' False (PStr (ss_id x))
     \<and> is_opt_str (ss_backend_thread_id x) \<and> field_ok ''backend_thread_id'' True (ss_backend_thread_id x)
     \<and> fits_32 (ss_round_count x) \<and> fits_32 (ss_max_rounds x)"

definition sa_accepts_msg :: "string \<Rightarrow> string \<Rightarrow> bool" where
  "sa_accepts_msg sid m \<longleftrightarrow> field_ok ''session_id'' False (PStr sid) \<and> field_ok ''message_id'' False (PStr m)"

lemma list_ex_column: "list_ex (\<lambda>r. f r = a) rows \<longleftrightarrow> a \<in> set (List.map f rows)"
  by (induction rows) auto

lemma check_all_ok: "check_all cs = Inr () \<longleftrightarrow> (\<forall>c \<in> set cs. c = Inr ())"
  by (simp add: check_all_def res_all_Inr_iff)

lemma on_engine_ok:
  assumes "checks = Inr ()" and "sa_ready st \<or> sb_boot B = Inr ()"
  shows "on_engine B checks f st = (fst (f (sa_db st)), \<lparr>sa_ready = True, sa_db = snd (f (sa_db st))\<rparr>)"
  using assms by (auto simp: on_engine_def ensure_engine_def split: prod.splits)

context sql_backend
begin

lemma same_eq: "sb_same B = (=)"
  using same by (intro ext) simp

lemma select_key: "sa_select_key B key d = sql_select_key key d"
proof -
  have "sa_has_key B key = (\<lambda>row. row_key row = key)"
    by (cases key) (auto simp: sa_has_key_def row_key_def same)
  then show ?thesis by (simp add: sa_select_key_def sql_select_key_def)
qed

lemma violates_session:
  "violates B (fst (build_tables pfx schema)) (List.map row_values rows) (row_values row)
     \<longleftrightarrow> col_session_id row \<in> set (List.map col_session_id rows) \<or> row_key row \<in> set (List.map row_key rows)"
proof -
  have "violates B (fst (build_tables pfx schema)) (List.map row_values rows) (row_values row)
      \<longleftrightarrow> (\<exists>r \<in> set rows. col_session_id r = col_session_id row) \<or> (\<exists>r \<in> set rows. row_key r = row_key row)"
    by (simp add: violates_def build_tables_def sessions_table_def column_def row_values_def column_value_def same_value_def
        list_ex_iff same row_key_def)
  then show ?thesis by (simp add: image_iff) metis
qed

lemma violates_processed:
  "violates B (snd (build_tables pfx schema)) (List.map processed_values ps) [PStr sid, opt_str m]
     \<longleftrightarrow> (case m of None \<Rightarrow> True | Some t \<Rightarrow> (sid, t) \<in> set ps)"
  by (cases m) (force simp: violates_def build_tables_def processed_table_def column_def processed_values_def column_value_def
      same_value_def list_ex_iff same Let_def)+

lemma insert_session:
  assumes "fits_32 (col_round_count row)" and "fits_32 (col_max_rounds row)"
  shows "sa_insert_session B row d =
    (if col_session_id row \<in> set (List.map col_session_id (db_sessions d)) \<or> row_key row \<in> set (List.map row_key (db_sessions d))
     then (Inl (IntegrityError ''sessions''), d)
     else (Inr (), d\<lparr>db_sessions := db_sessions d @ [row]\<rparr>))"
  using assms by (simp add: sa_insert_session_def fits_32_def int_32 float violates_session)

lemma update_session: "sa_update_session B tid = sql_update_session (opt_str tid)"
  by (intro ext) (simp add: sa_update_session_def sql_update_session_def same float)

lemma is_row: "list_ex (sa_is_row B sid m) ps \<longleftrightarrow> (sid, m) \<in> set ps"
proof -
  have "sa_is_row B sid m = (\<lambda>p. p = (sid, m))" by (auto simp: sa_is_row_def same)
  then show ?thesis by (simp add: list_ex_column [of id, simplified])
qed

lemma insert_processed:
  "sa_insert_processed B sid (Some t) d =
    (if (sid, t) \<in> set (db_processed d) then (Inl (IntegrityError ''processed_messages''), d)
     else if sb_fk B \<and> sid \<notin> set (List.map col_session_id (db_sessions d)) then (Inl (IntegrityError ''foreign key''), d)
     else (Inr (), d\<lparr>db_processed := db_processed d @ [(sid, t)]\<rparr>))"
  using violates_processed [of "[]" None "db_processed d" sid "Some t"]
  by (simp add: sa_insert_processed_def same list_ex_column)

lemma get_or_create_answer:
  assumes "sa_accepts (new_session uuid key bn mr)"
  shows "sa_get_or_create B uuid key bn mr st =
     (fst (goc_run B uuid key bn mr Check (sa_db st)), \<lparr>sa_ready = True, sa_db = snd (goc_run B uuid key bn mr Check (sa_db st))\<rparr>)"
  using assms boot
  by (cases key) (auto simp: op_defs sa_accepts_def field_ok_def check_all_ok new_session_def intro!: on_engine_ok)

lemma goc_found: "sql_select_key key d = Some row \<Longrightarrow> goc_run B uuid key bn mr Check d = (Inr (row_to_session row), d)"
  by (simp add: goc_run.simps select_key row_or_def)

lemma goc_fresh:
  assumes "fits_32 mr" and "sql_select_key key d = None"
    and "uuid \<notin> set (List.map col_session_id (db_sessions d))" and "key \<notin> set (List.map row_key (db_sessions d))"
  shows "goc_run B uuid key bn mr Check d =
     (Inr (new_session uuid key bn mr), d\<lparr>db_sessions := db_sessions d @ [session_to_row (new_session uuid key bn mr)]\<rparr>)"
proof -
  let ?x = "new_session uuid key bn mr"
  have "fits_32 (col_round_count (session_to_row ?x))" "fits_32 (col_max_rounds (session_to_row ?x))"
    using assms(1) by (simp_all add: session_to_row_def fits_32_def)
  from insert_session [OF this] assms(2-4) show ?thesis
    by (simp add: goc_run.simps [of B uuid key bn mr Check] goc_run.simps [of B uuid key bn mr "Attempt ?x"]
        goc_run.simps [of B uuid key bn mr "Answer (Inr ?x)"] select_key row_or_def)
qed

end

sublocale sql_backend \<subseteq> sa: session_store "sa_store_ops B" "\<lambda>st. sqlite_abs (sa_db st)" "\<lambda>st. sqlite_inv (sa_db st)" sa_accepts sa_accepts_msg
proof unfold_locales
  show "spec_wf (sqlite_abs (sa_db s))" if "sqlite_inv (sa_db s)" for s
    using that by (rule sqlite_spec_wf)
next
  fix s uuid key bn mr x r s'
  assume "sp_sessions (sqlite_abs (sa_db s)) key = Some x" "sqlite_inv (sa_db s)" and acc: "sa_accepts (new_session uuid key bn mr)"
    and "sop_get_or_create (sa_store_ops B) uuid key bn mr s = (r, s')"
  then show "r = Inr x \<and> sqlite_abs (sa_db s') = sqlite_abs (sa_db s) \<and> sqlite_inv (sa_db s')"
    by (auto simp: get_or_create_answer [OF acc] goc_found sqlite_abs_def)
next
  fix s uuid key bn mr r s'
  assume inv: "sqlite_inv (sa_db s)" and acc: "sa_accepts (new_session uuid key bn mr)"
    and n: "sp_sessions (sqlite_abs (sa_db s)) key = None" "\<not> known_id (sqlite_abs (sa_db s)) uuid"
    and g: "sop_get_or_create (sa_store_ops B) uuid key bn mr s = (r, s')"
  have sel: "sql_select_key key (sa_db s) = None" using n(1) by (simp add: sqlite_abs_def)
  have fresh: "uuid \<notin> set (List.map col_session_id (db_sessions (sa_db s)))" "key \<notin> set (List.map row_key (db_sessions (sa_db s)))"
    using n inv by (simp_all add: sqlite_lookup_None sqlite_known_id)
  have fits: "fits_32 mr" using acc by (simp add: sa_accepts_def)
  have ins: "sqlite_inv (sa_db s\<lparr>db_sessions := db_sessions (sa_db s) @ [session_to_row (new_session uuid key bn mr)]\<rparr>)"
    "sqlite_abs (sa_db s\<lparr>db_sessions := db_sessions (sa_db s) @ [session_to_row (new_session uuid key bn mr)]\<rparr>)
       = put_session (new_session uuid key bn mr) (sqlite_abs (sa_db s))"
    using fresh by (intro sqlite_insert [OF inv]; simp)+
  show "r = Inr (new_session uuid key bn mr)
      \<and> sqlite_abs (sa_db s') = put_session (new_session uuid key bn mr) (sqlite_abs (sa_db s)) \<and> sqlite_inv (sa_db s')"
    using g ins by (auto simp: get_or_create_answer [OF acc] goc_fresh [OF fits sel fresh])
next
  fix s x y u s'
  assume inv: "sqlite_inv (sa_db s)" and acc: "sa_accepts x"
    and k: "sp_sessions (sqlite_abs (sa_db s)) (key_of x) = Some y" "same_identity x y"
    and g: "sop_save (sa_store_ops B) x s = (u, s')"
  have row: "session_to_row y \<in> set (db_sessions (sa_db s))" using k(1) inv by (simp add: sqlite_lookup)
  obtain tid where tid: "ss_backend_thread_id x = opt_str tid" using acc by (auto simp: sa_accepts_def is_opt_str_iff)
  have "sb_text B (opt_str tid) = Inr tid" by (cases tid) (simp_all add: text_str text_null)
  then have "(u, s') = (Inr (), \<lparr>sa_ready = True, sa_db = sql_update_session (opt_str tid) (ss_round_count x) (ss_max_rounds x)
      (ss_last_active x) (ss_id x) (sa_db s)\<rparr>)"
    using g acc boot
    by (simp add: op_defs sa_accepts_def field_ok_def check_all_ok on_engine_ok tid int_32 fits_32_def update_session)
  with sqlite_update [OF inv row k(2)]
  show "u = Inr () \<and> sqlite_abs (sa_db s') = put_session x (sqlite_abs (sa_db s)) \<and> sqlite_inv (sa_db s')"
    by (simp add: tid)
next
  fix s sid m b s'
  assume "sqlite_inv (sa_db s)" "sa_accepts_msg sid m" "sop_is_processed (sa_store_ops B) sid (PStr m) s = (b, s')"
  then show "b = Inr ((sid, m) \<in> sp_done (sqlite_abs (sa_db s))) \<and> sqlite_abs (sa_db s') = sqlite_abs (sa_db s) \<and> sqlite_inv (sa_db s')"
    using boot
    by (auto simp: op_defs sa_accepts_msg_def field_ok_def check_all_ok on_engine_ok text_str is_row sqlite_abs_def)
next
  fix s sid m u s'
  assume inv: "sqlite_inv (sa_db s)" and "sa_accepts_msg sid m" "sop_mark_processed (sa_store_ops B) sid (PStr m) s = (u, s')"
    and "known_id (sqlite_abs (sa_db s)) sid"
  then show "u = Inr () \<and> sqlite_abs (sa_db s') = put_done sid m (sqlite_abs (sa_db s)) \<and> sqlite_inv (sa_db s')"
    using boot
    by (auto simp: op_defs sa_accepts_msg_def field_ok_def check_all_ok on_engine_ok text_str
        insert_processed sqlite_known_id sqlite_mark is_integrity_error_def split: if_splits)
qed

subsection \<open>Databases\<close>

definition plain_text :: "pyv \<Rightarrow> exn + string option" where
  \<comment> \<open>a driver that takes text and NULL only\<close>
  "plain_text v =
     (case v of PStr s \<Rightarrow> Inr (Some s) | PNone \<Rightarrow> Inr None
      | _ \<Rightarrow> Inl (DatabaseError (''cannot adapt type '' @ repr_str (type_name v))))"

definition int32_range :: "int \<Rightarrow> exn + int" where
  "int32_range i = (if fits_32 i then Inr i else Inl (OtherError ''DataError'' ''integer out of range''))"

definition postgres_like :: sa_backend where
  \<comment> \<open>exact text, enforced foreign keys, 32-bit integers\<close>
  "postgres_like = \<lparr>sb_boot = Inr (), sb_same = (=), sb_text = plain_text, sb_int = int32_range, sb_float = (\<lambda>x. x), sb_fk = True\<rparr>"

definition sqlite_like :: sa_backend where
  \<comment> \<open>exact text, foreign keys declared but not enforced, 64-bit integers\<close>
  "sqlite_like = \<lparr>sb_boot = Inr (), sb_same = (=), sb_text = plain_text, sb_int = sql_int, sb_float = (\<lambda>x. x), sb_fk = False\<rparr>"

interpretation pg: sql_backend postgres_like
  by unfold_locales (auto simp: postgres_like_def plain_text_def int32_range_def fits_32_def split: pyv.splits)

interpretation lite: sql_backend sqlite_like
  by unfold_locales (auto simp: sqlite_like_def plain_text_def sql_int_def split: pyv.splits)


subsection \<open>The contract\<close>

context sql_backend
begin

lemma calls_answer:
  "legal_calls empty_spec cs \<Longrightarrow> \<forall>c \<in> set cs. admits sa_accepts sa_accepts_msg c
     \<Longrightarrow> fst (run_calls (sa_store_ops B) cs sa_new) = fst (spec_calls cs empty_spec)"
  using sa.replies_refine [of sa_new cs] by (simp add: sa_new_def sqlite_inv_init sqlite_abs_init)

end

text \<open>Over any database that keeps the assumptions, the store answers every legal sequence of calls whose values
  pass the adapter's checks as the specification does, and so as the store in memory: the lazy engine, the
  three transactions of \<open>get_or_create\<close> and the swallowed integrity errors cannot be observed.
\<close>

theorem sqlalchemy_answers_alike:
  assumes "sql_backend B" and "legal_calls empty_spec cs" and "\<forall>c \<in> set cs. admits sa_accepts sa_accepts_msg c"
  shows "fst (run_calls (sa_store_ops B) cs sa_new) = fst (spec_calls cs empty_spec)
    \<and> fst (run_calls (sa_store_ops B) cs sa_new) = fst (run_calls memory_store_ops cs mem_init)"
proof -
  have any: "\<forall>c \<in> set cs. admits (\<lambda>_. True) (\<lambda>_ _. True) c"
  proof
    fix c show "admits (\<lambda>_. True) (\<lambda>_ _. True) c" by (cases c) auto
  qed
  show ?thesis
    using sql_backend.calls_answer [OF assms] mem.replies_refine [OF mem_inv_init _ any] assms(2) by (simp add: mem_abs_init)
qed

definition sa_calls :: "store_call list" where
  "sa_calls =
     [CGetOrCreate ''s1'' (''ws1'', ''web'', ''t1'') ''codex'' 50, CGetOrCreate ''s2'' (''ws1'', ''web'', ''t1'') ''claude'' 9,
      CMarkProcessed ''s1'' ''m1'', CMarkProcessed ''s1'' ''m1'', CIsProcessed ''s1'' ''m1'']"

theorem sqlalchemy_answers_alike_witness:
  "fst (run_calls (sa_store_ops postgres_like) sa_calls sa_new) = fst (run_calls memory_store_ops sa_calls mem_init)"
proof -
  let ?x = "new_session ''s1'' (''ws1'', ''web'', ''t1'') ''codex'' 50"
  have "known_id (put_session ?x sp) ''s1''" for sp
    using known_id_lookup [of "put_session ?x sp" "key_of ?x" ?x] by simp
  then have "legal_calls empty_spec sa_calls"
    by (simp add: sa_calls_def) (simp add: known_id_def empty_spec_def)
  moreover have "\<forall>c \<in> set sa_calls. admits sa_accepts sa_accepts_msg c"
    by (simp add: sa_calls_def sa_accepts_def sa_accepts_msg_def field_ok_def validate_field_def FIELD_CAPS_def dict_get_def
        new_session_def fits_32_def)
  ultimately show ?thesis
    using sqlalchemy_answers_alike [OF pg.sql_backend_axioms] by blast
qed

subsection \<open>Processes that race\<close>

record goc_call =
  gc_uuid :: string
  gc_key :: sess_key
  gc_backend :: string
  gc_rounds :: int

fun race :: "sa_backend \<Rightarrow> (nat \<Rightarrow> goc_call) \<Rightarrow> nat list \<Rightarrow> (nat \<Rightarrow> goc_pc) \<times> sqlite_db \<Rightarrow> (nat \<Rightarrow> goc_pc) \<times> sqlite_db" where
  \<comment> \<open>process \<open>i\<close> makes the call \<open>cl i\<close>; the schedule says whose transaction comes next\<close>
  "race B cl [] s = s"
| "race B cl (i # sched) s =
     (let (pc, d) = goc_step B (gc_uuid (cl i)) (gc_key (cl i)) (gc_backend (cl i)) (gc_rounds (cl i)) (fst s i) (snd s) in
      race B cl sched ((fst s)(i := pc), d))"

definition pc_ok :: "goc_call \<Rightarrow> sqlite_db \<Rightarrow> goc_pc \<Rightarrow> bool" where
  "pc_ok c d pc =
     (case pc of
        Check \<Rightarrow> \<not> known_id (sqlite_abs d) (gc_uuid c)
      | Attempt x \<Rightarrow> x = new_session (gc_uuid c) (gc_key c) (gc_backend c) (gc_rounds c) \<and> \<not> known_id (sqlite_abs d) (gc_uuid c)
      | Refetch \<Rightarrow> sp_sessions (sqlite_abs d) (gc_key c) \<noteq> None
      | Answer r \<Rightarrow> (\<exists>x. r = Inr x \<and> sp_sessions (sqlite_abs d) (gc_key c) = Some x))"

lemma pc_ok_row_or:
  "sqlite_inv d \<Longrightarrow> pc_ok c d pc \<or> sql_select_key (gc_key c) d \<noteq> None \<Longrightarrow> pc_ok c d (row_or pc (sql_select_key (gc_key c) d))"
  by (auto simp: row_or_def pc_ok_def sqlite_abs_def split: option.splits)

lemma pc_ok_insert:
  assumes "sqlite_abs d' = put_session x (sqlite_abs d)" and "sp_sessions (sqlite_abs d) (key_of x) = None"
    and "pc_ok c d pc" and "gc_uuid c \<noteq> ss_id x" and "sqlite_inv d"
  shows "pc_ok c d' pc"
proof -
  have "known_id (sqlite_abs d') (gc_uuid c) \<longleftrightarrow> known_id (sqlite_abs d) (gc_uuid c)"
    using known_id_put_iff [OF sqlite_spec_wf [OF assms(5)], of x "gc_uuid c"] assms by simp
  with assms show ?thesis by (cases pc) (auto simp: pc_ok_def)
qed

context sql_backend
begin

lemma attempt:
  assumes inv: "sqlite_inv d" and ok: "pc_ok c d (Attempt x)" and fits: "fits_32 (gc_rounds c)"
    and step: "goc_step B (gc_uuid c) (gc_key c) (gc_backend c) (gc_rounds c) (Attempt x) d = (pc, d')"
  shows "sqlite_inv d' \<and> pc_ok c d' pc
    \<and> (d' = d \<or> sqlite_abs d' = put_session x (sqlite_abs d) \<and> sp_sessions (sqlite_abs d) (key_of x) = None \<and> ss_id x = gc_uuid c)"
proof -
  have x: "x = new_session (gc_uuid c) (gc_key c) (gc_backend c) (gc_rounds c)"
    and fresh: "ss_id x \<notin> set (List.map col_session_id (db_sessions d))"
    using ok inv by (simp_all add: pc_ok_def sqlite_known_id)
  have "fits_32 (col_round_count (session_to_row x))" "fits_32 (col_max_rounds (session_to_row x))"
    using fits by (simp_all add: x session_to_row_def fits_32_def)
  note ins = insert_session [OF this, of d]
  show ?thesis
  proof (cases "key_of x \<in> set (List.map row_key (db_sessions d))")
    case True
    then have "sp_sessions (sqlite_abs d) (gc_key c) \<noteq> None" by (simp add: sqlite_lookup_None x)
    with True step fresh inv show ?thesis
      by (auto simp: ins is_integrity_error_def pc_ok_def)
  next
    case False
    with step fresh have "pc = Answer (Inr x)" "d' = d\<lparr>db_sessions := db_sessions d @ [session_to_row x]\<rparr>"
      by (auto simp: ins)
    with sqlite_insert [OF inv False fresh] False show ?thesis
      by (simp add: pc_ok_def sqlite_lookup_None x)
  qed
qed

lemma race_step:
  assumes inv: "sqlite_inv d" and ok: "\<forall>i. pc_ok (cl i) d (pcs i)"
    and calls: "inj (\<lambda>i. gc_uuid (cl i))" "\<forall>i. fits_32 (gc_rounds (cl i))"
    and step: "goc_step B (gc_uuid (cl i)) (gc_key (cl i)) (gc_backend (cl i)) (gc_rounds (cl i)) (pcs i) d = (pc, d')"
  shows "sqlite_inv d' \<and> (\<forall>j. pc_ok (cl j) d' ((pcs(i := pc)) j))"
proof (cases "pcs i")
  case (Attempt x)
  have oki: "pc_ok (cl i) d (Attempt x)" using ok Attempt by metis
  note a = attempt [OF inv oki calls(2) [rule_format] step [unfolded Attempt]]
  have "pc_ok (cl j) d' (pcs j)" if "j \<noteq> i" for j
  proof -
    have "gc_uuid (cl j) \<noteq> gc_uuid (cl i)" using calls(1) that by (auto dest: injD)
    with a ok inv show ?thesis using pc_ok_insert [of d' x d "cl j" "pcs j"] by metis
  qed
  with a show ?thesis by simp
next
  case Check
  have "pc_ok (cl i) d (Attempt (new_session (gc_uuid (cl i)) (gc_key (cl i)) (gc_backend (cl i)) (gc_rounds (cl i))))"
    using ok [rule_format, of i] Check by (simp add: pc_ok_def)
  with step Check inv ok show ?thesis by (auto simp: select_key intro: pc_ok_row_or)
next
  case Refetch
  then have "sql_select_key (gc_key (cl i)) d \<noteq> None"
    using ok [rule_format, of i] by (simp add: pc_ok_def sqlite_abs_def)
  with step Refetch inv ok show ?thesis by (auto simp: select_key intro: pc_ok_row_or)
next
  case (Answer r)
  with step inv ok show ?thesis by auto
qed

lemma race_ok:
  assumes "inj (\<lambda>i. gc_uuid (cl i))" "\<forall>i. fits_32 (gc_rounds (cl i))"
  shows "\<lbrakk>sqlite_inv d; \<forall>i. pc_ok (cl i) d (pcs i); race B cl sched (pcs, d) = (pcs', d')\<rbrakk>
     \<Longrightarrow> sqlite_inv d' \<and> (\<forall>i. pc_ok (cl i) d' (pcs' i))"
proof (induction sched arbitrary: pcs d)
  case Nil
  then show ?case by simp
next
  case (Cons i sched)
  obtain pc d1 where step: "goc_step B (gc_uuid (cl i)) (gc_key (cl i)) (gc_backend (cl i)) (gc_rounds (cl i)) (pcs i) d = (pc, d1)"
    by fastforce
  have rest: "race B cl sched (pcs(i := pc), d1) = (pcs', d')"
    using Cons.prems(3) by (simp add: step)
  from Cons.IH [OF _ _ rest] race_step [OF Cons.prems(1,2) assms step] show ?case by blast
qed

end

lemma race_rank:
  "race B cl sched (pcs, d) = (pcs', d') \<Longrightarrow> goc_rank (pcs' i) \<le> goc_rank (pcs i) - count_list sched i"
proof (induction sched arbitrary: pcs d)
  case Nil
  then show ?case by simp
next
  case (Cons j sched)
  obtain pc d1 where step: "goc_step B (gc_uuid (cl j)) (gc_key (cl j)) (gc_backend (cl j)) (gc_rounds (cl j)) (pcs j) d = (pc, d1)"
    by fastforce
  have "race B cl sched (pcs(j := pc), d1) = (pcs', d')" using Cons.prems by (simp add: step)
  from Cons.IH [OF this] goc_step_rank [OF step] show ?case
    by (cases "i = j") auto
qed

lemma rank_answer: "goc_rank pc = 0 \<longleftrightarrow> (\<exists>r. pc = Answer r)"
  by (cases pc) auto

text \<open>C36. Any number of processes call \<open>get_or_create\<close> on one database that keeps the assumptions of
  \<open>sql_backend\<close>, each with an id of its own that the database does not hold yet and a budget of 32 bits, their
  transactions interleaved in any order. A process has its answer after three of its own steps at the latest; an answer is never an error but
  the row the database holds for the key, so two processes that asked for the same thread got the same
  session, whoever inserted it, and the keys of the tables stay unique.
\<close>

theorem racing_creators_agree:
  assumes "sql_backend B" and "sqlite_inv d" and "inj (\<lambda>i. gc_uuid (cl i))"
    and "\<forall>i. fits_32 (gc_rounds (cl i)) \<and> \<not> known_id (sqlite_abs d) (gc_uuid (cl i))"
    and "race B cl sched (\<lambda>i. Check, d) = (pcs, d')"
  shows "sqlite_inv d'
    \<and> (\<forall>i. 3 \<le> count_list sched i \<longrightarrow> (\<exists>r. pcs i = Answer r))
    \<and> (\<forall>i r. pcs i = Answer r \<longrightarrow> (\<exists>x. r = Inr x \<and> sp_sessions (sqlite_abs d') (gc_key (cl i)) = Some x))
    \<and> (\<forall>i j r q. pcs i = Answer r \<longrightarrow> pcs j = Answer q \<longrightarrow> gc_key (cl i) = gc_key (cl j) \<longrightarrow> r = q)"
proof -
  have "\<forall>i. pc_ok (cl i) d Check" using assms(4) by (simp add: pc_ok_def)
  then have inv: "sqlite_inv d'" and ok: "\<forall>i. pc_ok (cl i) d' (pcs i)"
    using sql_backend.race_ok [OF assms(1,3) _ assms(2) _ assms(5)] assms(4) by auto
  have "\<exists>x. r = Inr x \<and> sp_sessions (sqlite_abs d') (gc_key (cl i)) = Some x" if "pcs i = Answer r" for i r
    using ok [rule_format, of i] that by (simp add: pc_ok_def)
  moreover have "\<exists>r. pcs i = Answer r" if "3 \<le> count_list sched i" for i
    using race_rank [OF assms(5), of i] that by (simp flip: rank_answer)
  ultimately show ?thesis using inv by (metis option.inject)
qed

definition two_calls :: "nat \<Rightarrow> goc_call" where
  "two_calls i = \<lparr>gc_uuid = replicate i CHR ''a'', gc_key = (''ws1'', ''web'', ''t1''), gc_backend = ''codex'', gc_rounds = 50\<rparr>"

theorem racing_creators_agree_witness:
  "case race postgres_like two_calls [0, 1, 1, 0, 0] (\<lambda>i. Check, sqlite_init) of
     (pcs, d) \<Rightarrow> \<exists>x. pcs 0 = Answer (Inr x) \<and> pcs 1 = Answer (Inr x) \<and> ss_id x = ''a''"
proof -
  obtain pcs d where r: "race postgres_like two_calls [0, 1, 1, 0, 0] (\<lambda>i. Check, sqlite_init) = (pcs, d)" by fastforce
  have inj: "inj (\<lambda>i. gc_uuid (two_calls i))" by (auto simp: inj_def two_calls_def dest: arg_cong [of _ _ length])
  have ok: "\<forall>i. fits_32 (gc_rounds (two_calls i)) \<and> \<not> known_id (sqlite_abs sqlite_init) (gc_uuid (two_calls i))"
    by (simp add: fits_32_def two_calls_def sqlite_abs_init known_id_def empty_spec_def)
  note all = racing_creators_agree [OF pg.sql_backend_axioms sqlite_inv_init inj ok r]
  have "pcs 1 = fst (race postgres_like two_calls [0, 1, 1, 0, 0] (\<lambda>i. Check, sqlite_init)) 1" unfolding r by simp
  also have "\<dots> = Answer (Inr (new_session ''a'' (''ws1'', ''web'', ''t1'') ''codex'' 50))" by code_simp
  finally have one: "pcs 1 = Answer (Inr (new_session ''a'' (''ws1'', ''web'', ''t1'') ''codex'' 50))" .
  have "3 \<le> count_list [0, 1, 1, 0, 0] (0 :: nat)" by simp
  then obtain q where "pcs 0 = Answer q" using all by blast
  with all one have "pcs 0 = pcs 1" by (metis goc_call.select_convs(2) two_calls_def)
  with one r show ?thesis by simp
qed

end
