(* ===== verification/Sqlalchemy_Tables.thy ===== *)
theory Sqlalchemy_Tables
  imports Sqlalchemy_Properties
begin

section \<open>What is in the tables of the SQLAlchemy store\<close>

text \<open>
  The rows the store can reach stay within the schema it declares; what the constructor lets through; and the
  edges where a database differs from the specification.
\<close>

subsection \<open>The rows\<close>

inductive sa_reach :: "sa_backend \<Rightarrow> sa_store \<Rightarrow> bool" for B where
  \<comment> \<open>the states after any calls, whatever their arguments; \<open>uuid4().hex\<close> has 32 characters\<close>
  new: "sa_reach B sa_new"
| get: "sa_reach B st \<Longrightarrow> length uuid = 32 \<Longrightarrow> sa_reach B (snd (sa_get_or_create B uuid key bn mr st))"
| save: "sa_reach B st \<Longrightarrow> sa_reach B (snd (sa_save B x st))"
| test: "sa_reach B st \<Longrightarrow> sa_reach B (snd (sa_is_processed B sid m st))"
| mark: "sa_reach B st \<Longrightarrow> sa_reach B (snd (sa_mark_processed B sid m st))"

definition driver_int :: "sa_backend \<Rightarrow> int \<Rightarrow> bool" where
  \<comment> \<open>a number that the INTEGER columns of the database take\<close>
  "driver_int B n \<longleftrightarrow> (\<exists>i. sb_int B i = Inr n)"

definition sa_inv :: "sa_backend \<Rightarrow> sqlite_db \<Rightarrow> bool" where
  "sa_inv B d \<longleftrightarrow>
     sqlite_inv d \<and> distinct (db_processed d)
     \<and> (\<forall>row \<in> set (db_sessions d). \<forall>pfx schema. fits_table (sessions_table pfx schema) (row_values row))
     \<and> (\<forall>row \<in> set (db_sessions d). driver_int B (col_round_count row) \<and> driver_int B (col_max_rounds row))
     \<and> (\<forall>p \<in> set (db_processed d). \<forall>pfx schema. fits_table (processed_table pfx schema) (processed_values p))
     \<and> (sb_fk B \<longrightarrow> fst ` set (db_processed d) \<subseteq> col_session_id ` set (db_sessions d))"

lemma fits_sessions:
  "fits_table (sessions_table pfx schema) (row_values row) \<longleftrightarrow>
     length (col_session_id row) \<le> 64 \<and> length (col_workspace_id row) \<le> 128 \<and> length (col_channel row) \<le> 64
     \<and> length (col_external_thread_key row) \<le> 256 \<and> length (col_backend_name row) \<le> 64
     \<and> (\<exists>t. col_backend_thread_id row = opt_str t \<and> (\<forall>s. t = Some s \<longrightarrow> length s \<le> 256))"
proof -
  have "holds_value ((column ''backend_thread_id'' (SqlString 256))\<lparr>cl_nullable := True\<rparr>) v
      \<longleftrightarrow> (\<exists>t. v = opt_str t \<and> (\<forall>s. t = Some s \<longrightarrow> length s \<le> 256))" for v
    by (cases v) (auto simp: column_def intro: exI [of _ None] exI [of _ "Some _"] dest: sym elim: opt_str.elims)
  then show ?thesis
    by (simp add: fits_table_def sessions_table_def row_values_def) (auto simp: column_def)
qed

lemma fits_processed: "fits_table (processed_table pfx schema) (processed_values p) \<longleftrightarrow> length (fst p) \<le> 64 \<and> length (snd p) \<le> 256"
  by (simp add: fits_table_def processed_table_def processed_values_def Let_def column_def)

lemma field_cap:
  "validate_field name nullable (PStr s) = Inr () \<Longrightarrow> dict_get FIELD_CAPS name = Some cap \<Longrightarrow> length s \<le> cap"
  by (auto simp: validate_field_def split: if_splits)

lemma caps:
  "dict_get FIELD_CAPS ''workspace_id'' = Some 128" "dict_get FIELD_CAPS ''channel'' = Some 64"
  "dict_get FIELD_CAPS ''external_thread_key'' = Some 256" "dict_get FIELD_CAPS ''backend_name'' = Some 64"
  "dict_get FIELD_CAPS ''session_id'' = Some 64" "dict_get FIELD_CAPS ''backend_thread_id'' = Some 256"
  "dict_get FIELD_CAPS ''message_id'' = Some 256"
  by (simp_all add: FIELD_CAPS_def dict_get_def)

lemma on_engine_inv:
  assumes "sa_inv B (sa_db st)" and "checks = Inr () \<Longrightarrow> sa_inv B (snd (f (sa_db st)))"
  shows "sa_inv B (sa_db (snd (on_engine B checks f st)))"
  using assms by (cases checks) (auto simp: on_engine_def ensure_engine_def split: prod.splits sum.splits)

context sql_backend
begin

lemma insert_any:
  assumes "sa_insert_session B row d = (r, d')"
  shows "d' = d \<or> (\<exists>rc mr. driver_int B rc \<and> driver_int B mr
     \<and> d' = d\<lparr>db_sessions := db_sessions d @ [row\<lparr>col_round_count := rc, col_max_rounds := mr\<rparr>]\<rparr>
     \<and> col_session_id row \<notin> set (List.map col_session_id (db_sessions d)) \<and> row_key row \<notin> set (List.map row_key (db_sessions d)))"
proof (cases "res_bind (sb_int B (col_round_count row)) (\<lambda>rc. res_bind (sb_int B (col_max_rounds row)) (\<lambda>mr. Inr (rc, mr)))")
  case (Inl e)
  with assms show ?thesis by (simp add: sa_insert_session_def)
next
  case (Inr n)
  then obtain rc mr where n: "n = (rc, mr)" "sb_int B (col_round_count row) = Inr rc" "sb_int B (col_max_rounds row) = Inr mr"
    by (cases "sb_int B (col_round_count row)"; cases "sb_int B (col_max_rounds row)") auto
  let ?row = "row\<lparr>col_round_count := rc, col_max_rounds := mr\<rparr>"
  have k: "col_session_id ?row = col_session_id row" "row_key ?row = row_key row" by (simp_all add: row_key_def)
  have "sa_insert_session B row d = (if violates B (fst (build_tables [] None)) (List.map row_values (db_sessions d)) (row_values ?row)
      then (Inl (IntegrityError ''sessions''), d) else (Inr (), d\<lparr>db_sessions := db_sessions d @ [?row]\<rparr>))"
    using Inr n by (simp add: sa_insert_session_def float)
  moreover have "driver_int B rc" "driver_int B mr" using n(2,3) unfolding driver_int_def by blast+
  ultimately show ?thesis
    using assms k unfolding violates_session by (auto split: if_splits simp del: list.set_map)
qed

lemma goc_run_any:
  "snd (goc_run B uuid key bn mr Check d) = d
     \<or> snd (goc_run B uuid key bn mr Check d) = snd (sa_insert_session B (session_to_row (new_session uuid key bn mr)) d)"
proof -
  let ?x = "new_session uuid key bn mr"
  have ans: "goc_run B uuid key bn mr (Answer r) d = (r, d)" for r d by (simp add: goc_run.simps)
  have ref: "snd (goc_run B uuid key bn mr Refetch d) = d" for d
    by (simp add: goc_run.simps [of B uuid key bn mr Refetch] row_or_def ans split: option.splits)
  have att: "snd (goc_run B uuid key bn mr (Attempt ?x) d) = snd (sa_insert_session B (session_to_row ?x) d)"
    by (simp add: goc_run.simps [of B uuid key bn mr "Attempt ?x"] ans ref split: prod.splits sum.splits)
  show ?thesis
    by (simp add: goc_run.simps [of B uuid key bn mr Check] row_or_def ans att split: option.splits)
qed

lemma create_inv:
  assumes inv: "sa_inv B d" and fits: "\<And>pfx schema. fits_table (sessions_table pfx schema) (row_values (session_to_row (new_session uuid key bn mr)))"
  shows "sa_inv B (snd (goc_run B uuid key bn mr Check d))"
proof -
  let ?row = "session_to_row (new_session uuid key bn mr)"
  obtain r d' where i: "sa_insert_session B ?row d = (r, d')" by fastforce
  have "fits_table (sessions_table pfx schema) (row_values (?row\<lparr>col_round_count := rc, col_max_rounds := m\<rparr>))" for pfx schema rc m
    using fits by (simp add: fits_sessions)
  moreover have "row_key (?row\<lparr>col_round_count := rc, col_max_rounds := m\<rparr>) = row_key ?row" for rc m by (simp add: row_key_def)
  ultimately have "sa_inv B d'"
    using insert_any [OF i] inv by (auto simp: sa_inv_def sqlite_inv_def image_subset_iff) (metis fst_conv)
  with goc_run_any [of uuid key bn mr d] inv i show ?thesis by auto
qed

lemma update_inv:
  assumes inv: "sa_inv B d" and tid: "\<And>s. tid = Some s \<Longrightarrow> length s \<le> 256" and n: "driver_int B rc" "driver_int B mr"
  shows "sa_inv B (sa_update_session B tid rc mr la sid d)"
proof -
  define f :: "session_row \<Rightarrow> session_row" where
    "f row = (if col_session_id row = sid
       then row\<lparr>col_backend_thread_id := opt_str tid, col_round_count := rc, col_max_rounds := mr, col_last_active := la\<rparr> else row)" for row
  have d: "sa_update_session B tid rc mr la sid d = d\<lparr>db_sessions := List.map f (db_sessions d)\<rparr>"
    by (simp add: update_session sql_update_session_def f_def [abs_def])
  have ids: "col_session_id (f row) = col_session_id row" "row_key (f row) = row_key row" for row
    by (simp_all add: f_def row_key_def)
  have "fits_table (sessions_table pfx schema) (row_values row) \<Longrightarrow> fits_table (sessions_table pfx schema) (row_values (f row))" for pfx schema row
    using tid by (auto simp: fits_sessions f_def)
  moreover have "driver_int B (col_round_count row) \<and> driver_int B (col_max_rounds row)
      \<Longrightarrow> driver_int B (col_round_count (f row)) \<and> driver_int B (col_max_rounds (f row))" for row
    using n by (simp add: f_def)
  ultimately show ?thesis
    using inv by (simp add: d sa_inv_def sqlite_inv_def ids image_image o_def)
qed

lemma mark_inv:
  assumes inv: "sa_inv B d" and "length sid \<le> 64" and "\<And>t. m = Some t \<Longrightarrow> length t \<le> 256"
  shows "sa_inv B (snd (sa_insert_processed B sid m d))"
proof (cases m)
  case None
  with inv show ?thesis using violates_processed [of "[]" None "db_processed d" sid None] by (simp add: sa_insert_processed_def)
next
  case (Some t)
  with assms show ?thesis
    by (auto simp: insert_processed sa_inv_def sqlite_inv_def fits_processed)
qed

lemma text_fits:
  "sb_text B v = Inr (Some s) \<Longrightarrow> validate_field name nullable v = Inr () \<Longrightarrow> dict_get FIELD_CAPS name = Some 256 \<Longrightarrow> length s \<le> 256"
  using text_width field_cap by blast

lemma reach_inv: "sa_reach B st \<Longrightarrow> sa_inv B (sa_db st)"
proof (induction rule: sa_reach.induct)
  case new
  then show ?case by (simp add: sa_new_def sa_inv_def sqlite_inv_def sqlite_init_def)
next
  case (get st uuid key bn mr)
  show ?case
    unfolding sa_get_or_create_def
  proof (rule on_engine_inv [OF get.IH])
    assume "check_all [validate_field ''workspace_id'' False (PStr (fst key)), validate_field ''channel'' False (PStr (fst (snd key))),
        validate_field ''external_thread_key'' False (PStr (snd (snd key))), validate_field ''backend_name'' False (PStr bn)] = Inr ()"
    then have "length (fst key) \<le> 128" "length (fst (snd key)) \<le> 64" "length (snd (snd key)) \<le> 256" "length bn \<le> 64"
      by (auto simp: check_all_ok dest!: field_cap [OF _ caps(1)] field_cap [OF _ caps(2)] field_cap [OF _ caps(3)] field_cap [OF _ caps(4)])
    then show "sa_inv B (snd (goc_run B uuid key bn mr Check (sa_db st)))"
      using get.hyps
      by (intro create_inv [OF get.IH]) (simp add: fits_sessions session_to_row_def new_session_def exI [of _ None])
  qed
next
  case (save st x)
  show ?case
    unfolding sa_save_def
  proof (rule on_engine_inv [OF save.IH])
    assume "check_all [validate_field ''session_id'' False (PStr (ss_id x)), validate_field ''backend_thread_id'' True (ss_backend_thread_id x)] = Inr ()"
    then have "validate_field ''backend_thread_id'' True (ss_backend_thread_id x) = Inr ()" by (simp add: check_all_ok)
    then have "sb_text B (ss_backend_thread_id x) = Inr (Some s) \<Longrightarrow> length s \<le> 256" for s
      using text_fits caps(6) by blast
    then show "sa_inv B (snd (case res_bind (sb_text B (ss_backend_thread_id x))
                   (\<lambda>tid. res_bind (sb_int B (ss_round_count x))
                      (\<lambda>rc. res_bind (sb_int B (ss_max_rounds x)) (\<lambda>mr. Inr (tid, rc, mr)))) of
              Inl e \<Rightarrow> (Inl e, sa_db st)
            | Inr (tid, rc, mr) \<Rightarrow> (Inr (), sa_update_session B tid rc mr (ss_last_active x) (ss_id x) (sa_db st))))"
      using save.IH
      by (cases "sb_text B (ss_backend_thread_id x)"; cases "sb_int B (ss_round_count x)"; cases "sb_int B (ss_max_rounds x)")
        (auto simp: driver_int_def intro!: update_inv)
  qed
next
  case (test st sid m)
  then show ?case unfolding sa_is_processed_def by (intro on_engine_inv) auto
next
  case (mark st sid m)
  show ?case
    unfolding sa_mark_processed_def
  proof (rule on_engine_inv [OF mark.IH])
    assume "message_fields sid m = Inr ()"
    then have "length sid \<le> 64" and m: "validate_field ''message_id'' False m = Inr ()"
      by (auto simp: message_fields_def check_all_ok dest!: field_cap [OF _ caps(5)])
    moreover have "sb_text B m = Inr (Some s) \<Longrightarrow> length s \<le> 256" for s
      using text_fits m caps(7) by blast
    ultimately show "sa_inv B (snd (case sb_text B m of
              Inl e \<Rightarrow> (if is_integrity_error e then Inr () else Inl e, sa_db st)
            | Inr t \<Rightarrow>
                (case sa_insert_processed B sid t (sa_db st) of
                   (Inl e, d') \<Rightarrow> (if is_integrity_error e then Inr () else Inl e, d')
                 | (Inr _, d') \<Rightarrow> (Inr (), d'))))"
      using mark.IH mark_inv [OF mark.IH, of sid] by (auto split: sum.splits prod.splits) (metis snd_conv)+
  qed
qed

end

text \<open>C39. Whatever is called with whatever arguments, the two tables stay within what the schema declares: every
  value fits the type, the width and the nullability of its column, the counts are numbers that the database's
  INTEGER takes, the primary keys and the natural key are unique, and where the database enforces foreign keys every processed message has its session. The caps of
  the field checks are what keeps the widths; the uniqueness is the database's, which refuses a row that breaks a
  key the tables declare.
\<close>

theorem tables_keep_schema:
  assumes "sql_backend B" and "sa_reach B st" and "build_tables pfx schema = (sessions, processed)"
  shows "(\<forall>row \<in> set (db_sessions (sa_db st)). fits_table sessions (row_values row))
    \<and> (\<forall>row \<in> set (db_sessions (sa_db st)). driver_int B (col_round_count row) \<and> driver_int B (col_max_rounds row))
    \<and> (\<forall>p \<in> set (db_processed (sa_db st)). fits_table processed (processed_values p))
    \<and> distinct (List.map col_session_id (db_sessions (sa_db st))) \<and> distinct (List.map row_key (db_sessions (sa_db st)))
    \<and> distinct (db_processed (sa_db st))
    \<and> (sb_fk B \<longrightarrow> fst ` set (db_processed (sa_db st)) \<subseteq> col_session_id ` set (db_sessions (sa_db st)))"
  using sql_backend.reach_inv [OF assms(1,2)] assms(3) by (auto simp: sa_inv_def sqlite_inv_def build_tables_def)

definition one_session :: sa_store where
  "one_session = snd (sa_get_or_create postgres_like (replicate 32 CHR ''0'') (''ws1'', ''web'', ''t1'') ''codex'' 50 sa_new)"

theorem tables_keep_schema_witness:
  "length (db_sessions (sa_db one_session)) = 1
    \<and> list_all (\<lambda>row. fits_table (sessions_table ''claw_'' None) (row_values row)) (db_sessions (sa_db one_session))"
proof -
  have "sa_reach postgres_like one_session"
    unfolding one_session_def by (intro sa_reach.intros) simp
  moreover have "length (db_sessions (sa_db one_session)) = 1" by code_simp
  ultimately show ?thesis
    using tables_keep_schema [OF pg.sql_backend_axioms _ build_tables_def] by (simp add: list_all_iff)
qed

subsection \<open>Construction\<close>

lemma accepted_construction:
  assumes "sa_init mk url schema pfx args = Inr c"
  shows "\<exists>u. mk url = Inr u \<and> lower (su_drivername u) \<in> set ALLOWED_SCHEMES
     \<and> \<not> truthy (su_username u) \<and> \<not> truthy (su_password u) \<and> set (su_query u) \<subseteq> set ALLOWED_DSN_QUERY_KEYS
     \<and> (pfx = [] \<or> dollar_match (sql_name 0) pfx) \<and> length pfx \<le> TABLE_PREFIX_MAX
     \<and> (\<forall>s. schema = Some s \<longrightarrow> dollar_match (sql_name 1) s \<and> lower s \<notin> set SQL_KEYWORDS)"
  using assms
  by (cases schema)
    (auto simp: sa_init_def validate_construction_args_def parse_dsn_def validate_dsn_def validate_prefix_def Let_def find_None_iff
      split: sum.splits if_splits option.splits)

text \<open>A refused URL is refused with the same words whatever its credentials are.\<close>

lemma credentials_not_echoed:
  assumes "truthy (su_username u) \<or> truthy (su_password u) \<longleftrightarrow> truthy a \<or> truthy b"
  shows "validate_dsn (u\<lparr>su_username := a, su_password := b\<rparr>) = validate_dsn u"
  using assms by (simp add: validate_dsn_def Let_def)

subsection \<open>At the edges\<close>

text \<open>Where foreign keys are enforced, marking a message of an unknown session reports success and keeps nothing.\<close>

lemma unknown_mark_is_lost:
  "fst (sa_mark_processed postgres_like ''s9'' (PStr ''m1'') sa_new) = Inr ()
    \<and> fst (sa_is_processed postgres_like ''s9'' (PStr ''m1'') (snd (sa_mark_processed postgres_like ''s9'' (PStr ''m1'') sa_new))) = Inr False"
  by code_simp

text \<open>Under a collation that ignores case, two threads whose keys differ only in case share one session.\<close>

lemma collation_merges_threads:
  "let B = postgres_like\<lparr>sb_same := (\<lambda>a b. lower a = lower b)\<rparr>;
       (r1, st) = sa_get_or_create B ''s1'' (''ws1'', ''web'', ''T1'') ''codex'' 50 sa_new;
       (r2, _) = sa_get_or_create B ''s2'' (''ws1'', ''web'', ''t1'') ''codex'' 50 st in
   r1 = r2 \<and> r1 = Inr (new_session ''s1'' (''ws1'', ''web'', ''T1'') ''codex'' 50)"
  by code_simp

text \<open>The names that go into DDL may end in a newline.\<close>

lemma name_with_newline: "validate_prefix (''claw_'' @ [char_of (10 :: nat)]) = Inr ()"
  by code_simp

text \<open>An engine that cannot be made is tried again by the next call; only errors of SQLAlchemy are translated.\<close>

lemma failed_start:
  assumes "\<not> sa_ready st" and "sb_boot B = Inl e"
  shows "on_engine B (Inr ()) f st
      = (Inl (if is_sqlalchemy_error e
              then SessionStoreError (''failed to initialize engine or create schema: '' @ exn_type e) (Some ''init'') else e), st)"
  using assms by (simp add: on_engine_def ensure_engine_def init_failure_def store_error_def STORE_STAGES_def)

end
