(* ===== verification/Sqlalchemy_Service.thy ===== *)
theory Sqlalchemy_Service
  imports Sqlalchemy_Properties Store_Agreement
begin

section \<open>Conversations over the SQLAlchemy store\<close>

text \<open>
  \<open>ConversationService\<close> on a database that keeps the assumptions of \<open>sql_backend\<close>, against the store in memory.
\<close>

definition sa_step :: "conv_step \<Rightarrow> bool" where
  \<comment> \<open>the fields of a message pass the checks of the adapter, and the budget fits its column\<close>
  "sa_step st =
     (let u = fst st; a = snd (snd st) in
      sa_accepts (new_session u (ca_key a) (ca_backend_name a) (ca_max_rounds a))
      \<and> (case ca_message_id a of PStr m \<Rightarrow> field_ok ''message_id'' False (PStr m) | _ \<Rightarrow> True))"

definition sa_handle :: "pyv \<Rightarrow> bool" where
  "sa_handle tid \<longleftrightarrow> is_opt_str tid \<and> field_ok ''backend_thread_id'' True tid"

interpretation sa_rows: row_limits sa_accepts sa_accepts_msg sa_step sa_handle
proof unfold_locales
  show "sa_accepts (new_session u (ca_key a) (ca_backend_name a) (ca_max_rounds a))" if "sa_step (u, n, a)" for u n a
    using that by (simp add: sa_step_def Let_def)
next
  fix x tid now
  assume "sa_accepts x" "0 \<le> ss_round_count x" "ss_round_count x < ss_max_rounds x" "sa_handle tid"
  then show "sa_accepts (with_turn tid now x)"
    by (simp add: sa_accepts_def sa_handle_def fits_32_def with_turn_def)
next
  fix u n a m x
  assume "sa_step (u, n, a)" "ca_message_id a = PStr m" "sa_accepts x"
  then show "sa_accepts_msg (ss_id x) m"
    by (simp add: sa_step_def sa_accepts_msg_def sa_accepts_def Let_def)
qed

context sql_backend
begin

lemma service_refines:
  assumes "cw_store v = sa_new" and "well_named steps empty_spec" and "\<forall>st \<in> set steps. sa_step st" and "result_handles sa_handle reg"
  shows "fst (conv_run (sa_store_ops B) T reg steps v)
      = fst (conv_run spec_store_ops T reg steps \<lparr>cw_store = empty_spec, cw_engine = cw_engine v\<rparr>)"
    and "cw_engine (snd (conv_run (sa_store_ops B) T reg steps v))
      = cw_engine (snd (conv_run spec_store_ops T reg steps \<lparr>cw_store = empty_spec, cw_engine = cw_engine v\<rparr>))"
proof -
  have a: "sa.conv_abs v = \<lparr>cw_store = empty_spec, cw_engine = cw_engine v\<rparr>"
    using assms(1) by (simp add: sa.conv_abs_def sa_new_def sqlite_abs_init)
  have "conv_legal sa_accepts sa_accepts_msg T reg steps (sa.conv_abs v)"
    using assms(2-4) by (intro sa_rows.named_legal) (simp_all add: a sa_rows.held_empty)
  with sa.outcomes_refine [of v T reg steps] assms(1)
  show "fst (conv_run (sa_store_ops B) T reg steps v)
      = fst (conv_run spec_store_ops T reg steps \<lparr>cw_store = empty_spec, cw_engine = cw_engine v\<rparr>)"
    and "cw_engine (snd (conv_run (sa_store_ops B) T reg steps v))
      = cw_engine (snd (conv_run spec_store_ops T reg steps \<lparr>cw_store = empty_spec, cw_engine = cw_engine v\<rparr>))"
    by (simp_all add: a sa_new_def sqlite_inv_init)
qed

end

text \<open>C35. A conversation cannot tell which store it runs on, the databases behind SQLAlchemy included: over
  histories whose fields pass the checks of the adapter, with fresh identifiers and backends whose thread handles
  fit their column, every message has the same outcome, and the same turns run and leave the same traces, on a
  fresh \<open>SQLAlchemySessionStore\<close> over any database of \<open>sql_backend\<close> (exact text, 32-bit integers, floats kept as
  doubles) as on a fresh \<open>MemorySessionStore\<close>.\<close>

theorem service_same_over_sqlalchemy:
  assumes "sql_backend B" and "well_named steps empty_spec" and "\<forall>st \<in> set steps. sa_step st"
    and "result_handles sa_handle reg"
    and "cw_store w = mem_init" and "cw_store v = sa_new" and "cw_engine v = cw_engine w"
  shows "fst (conv_run (sa_store_ops B) T reg steps v) = fst (conv_run memory_store_ops T reg steps w)
    \<and> cw_engine (snd (conv_run (sa_store_ops B) T reg steps v))
        = cw_engine (snd (conv_run memory_store_ops T reg steps w))"
proof -
  have "mem.conv_abs w = \<lparr>cw_store = empty_spec, cw_engine = cw_engine v\<rparr>"
    using assms(5,7) by (simp add: mem.conv_abs_def mem_abs_init)
  with sql_backend.service_refines [OF assms(1,6,2-4), of T] mem_run(1) [OF assms(5,2), of T reg] show ?thesis
    by (simp add: mem.conv_abs_sel)
qed

theorem service_same_over_sqlalchemy_witness:
  "fst (conv_run (sa_store_ops postgres_like) memory_tracer_ops demo_registry demo_steps (demo_world sa_new))
     = fst (conv_run memory_store_ops memory_tracer_ops demo_registry demo_steps (demo_world mem_init))"
proof -
  have "\<forall>st \<in> set demo_steps. sa_step st"
    by (simp add: demo_steps_def demo_msg_def sa_step_def sa_accepts_def field_ok_def validate_field_def FIELD_CAPS_def
        dict_get_def fits_32_def new_session_def Let_def ca_key_def)
  moreover have "result_handles sa_handle demo_registry"
    by (auto simp: result_handles_def sa_handle_def field_ok_def validate_field_def demo_registry_def echo_run_def Let_def
        split: if_splits)
  ultimately show ?thesis
    using service_same_over_sqlalchemy [OF pg.sql_backend_axioms demo_named, of demo_registry "demo_world mem_init" "demo_world sa_new" memory_tracer_ops]
    by simp
qed

end
