(* ===== verification/Sqlalchemy_Engine.thy ===== *)
theory Sqlalchemy_Engine
  imports Sqlalchemy_Properties
begin

section \<open>The engine that threads share\<close>

text \<open>
  \<open>SQLAlchemySessionStore._ensure_engine\<close> and \<open>_engine_and_tables\<close> run by any number of threads on one store: a
  step reads or writes one attribute of the store, takes or releases the lock, or makes one call of the library. The
  position of a thread is its place in the code, so a schedule is any sequence of steps of threads. What the
  library does at the k-th call of \<open>create_engine\<close> is a parameter; an engine is the number of the call that made it,
  a table the engine it was created on.
\<close>

subsection \<open>Threads\<close>

record sa_library =
  lib_create :: "nat \<Rightarrow> exn option"
  lib_schema :: "nat \<Rightarrow> exn option"
  lib_dispose :: "nat \<Rightarrow> exn option"

record engine_mem =
  em_engine :: "nat option"
  em_sessions :: "nat option"
  em_processed :: "nat option"
  em_lock :: "nat option"
  em_calls :: nat
  em_live :: "nat list"
    \<comment> \<open>how often \<open>create_engine\<close> was called, and the engines that were made and not disposed of\<close>

datatype ensure_pc =
    Fast_check
  | Acquire
  | Recheck
  | Recheck_return
  | Create
  | Schema nat
  | Dispose nat exn
  | Set_sessions nat
  | Set_processed nat
  | Set_engine nat
  | Release "(exn + nat option) option"
  | Read_engine
  | Assert_sessions "nat option"
  | Assert_processed "nat option"
  | Read_sessions "nat option"
  | Read_processed "nat option" "nat option"
  | Finished "exn + nat option \<times> nat option \<times> nat option"

fun ensure_step :: "sa_library \<Rightarrow> nat \<Rightarrow> ensure_pc \<Rightarrow> engine_mem \<Rightarrow> (ensure_pc \<times> engine_mem) option" where
  "ensure_step L i Fast_check m = Some (if em_engine m \<noteq> None then Read_engine else Acquire, m)"
| "ensure_step L i Acquire m = (if em_lock m = None then Some (Recheck, m\<lparr>em_lock := Some i\<rparr>) else None)"
| "ensure_step L i Recheck m = Some (if em_engine m \<noteq> None then Recheck_return else Create, m)"
| "ensure_step L i Recheck_return m = Some (Release (Some (Inr (em_engine m))), m)"
| "ensure_step L i Create m =
     (let k = em_calls m; m1 = m\<lparr>em_calls := Suc k\<rparr>
      in case lib_create L k of
           Some e \<Rightarrow> Some (Release (Some (Inl (init_failure e))), m1)
         | None \<Rightarrow> Some (Schema k, m1\<lparr>em_live := k # em_live m\<rparr>))"
| "ensure_step L i (Schema k) m =
     (case lib_schema L k of
        Some e \<Rightarrow> Some (if is_sqlalchemy_error e then Dispose k e else Release (Some (Inl e)), m)
      | None \<Rightarrow> Some (Set_sessions k, m))"
| "ensure_step L i (Dispose k e) m =
     (case lib_dispose L k of
        None \<Rightarrow> Some (Release (Some (Inl (init_failure e))), m\<lparr>em_live := removeAll k (em_live m)\<rparr>)
      | Some d \<Rightarrow> Some (Release (Some (Inl (if is_exception d then init_failure e else d))), m))"
| "ensure_step L i (Set_sessions k) m = Some (Set_processed k, m\<lparr>em_sessions := Some k\<rparr>)"
| "ensure_step L i (Set_processed k) m = Some (Set_engine k, m\<lparr>em_processed := Some k\<rparr>)"
| "ensure_step L i (Set_engine k) m = Some (Release None, m\<lparr>em_engine := Some k\<rparr>)"
| "ensure_step L i (Release out) m =
     Some (case out of None \<Rightarrow> Read_engine | Some (Inl e) \<Rightarrow> Finished (Inl e) | Some (Inr r) \<Rightarrow> Assert_sessions r,
           m\<lparr>em_lock := None\<rparr>)"
| "ensure_step L i Read_engine m = Some (Assert_sessions (em_engine m), m)"
| "ensure_step L i (Assert_sessions r) m =
     Some (if em_sessions m = None then Finished (Inl (AssertionError '''')) else Assert_processed r, m)"
| "ensure_step L i (Assert_processed r) m =
     Some (if em_processed m = None then Finished (Inl (AssertionError '''')) else Read_sessions r, m)"
| "ensure_step L i (Read_sessions r) m = Some (Read_processed r (em_sessions m), m)"
| "ensure_step L i (Read_processed r s) m = Some (Finished (Inr (r, s, em_processed m)), m)"
| "ensure_step L i (Finished out) m = None"

record ensure_sys =
  es_mem :: engine_mem
  es_pcs :: "ensure_pc list"

definition ensure_start :: "nat \<Rightarrow> ensure_sys" where
  \<comment> \<open>n callers on a store that was just constructed\<close>
  "ensure_start n =
     \<lparr>es_mem = \<lparr>em_engine = None, em_sessions = None, em_processed = None, em_lock = None, em_calls = 0, em_live = []\<rparr>,
      es_pcs = replicate n Fast_check\<rparr>"

definition ensure_move :: "sa_library \<Rightarrow> nat \<Rightarrow> ensure_sys \<Rightarrow> ensure_sys option" where
  "ensure_move L i s =
     (if i < length (es_pcs s)
      then map_option (\<lambda>(pc, m). s\<lparr>es_mem := m, es_pcs := (es_pcs s)[i := pc]\<rparr>) (ensure_step L i (es_pcs s ! i) (es_mem s))
      else None)"

inductive ensure_next :: "sa_library \<Rightarrow> ensure_sys \<Rightarrow> ensure_sys \<Rightarrow> bool" for L where
  ensure_nextI: "ensure_move L i s = Some s' \<Longrightarrow> ensure_next L s s'"

inductive_cases ensure_nextE: "ensure_next L s s'"

fun ensure_schedule :: "sa_library \<Rightarrow> nat list \<Rightarrow> ensure_sys \<Rightarrow> ensure_sys" where
  \<comment> \<open>threads in the order in which they are given the processor; one that cannot move waits\<close>
  "ensure_schedule L [] s = s"
| "ensure_schedule L (i # is) s =
     ensure_schedule L is (case ensure_move L i s of None \<Rightarrow> s | Some s' \<Rightarrow> s')"

lemma ensure_schedule_reach: "(ensure_next L)\<^sup>*\<^sup>* s (ensure_schedule L is s)"
proof (induction "is" arbitrary: s)
  case (Cons i ks)
  then show ?case
    by (cases "ensure_move L i s") (auto intro: ensure_nextI converse_rtranclp_into_rtranclp)
qed simp

subsection \<open>Invariant\<close>

fun in_lock :: "ensure_pc \<Rightarrow> bool" where
  "in_lock Recheck = True"
| "in_lock Recheck_return = True"
| "in_lock Create = True"
| "in_lock (Schema k) = True"
| "in_lock (Dispose k e) = True"
| "in_lock (Set_sessions k) = True"
| "in_lock (Set_processed k) = True"
| "in_lock (Set_engine k) = True"
| "in_lock (Release out) = True"
| "in_lock pc = False"

fun builds :: "ensure_pc \<Rightarrow> nat option" where
  "builds (Schema k) = Some k"
| "builds (Dispose k e) = Some k"
| "builds (Set_sessions k) = Some k"
| "builds (Set_processed k) = Some k"
| "builds (Set_engine k) = Some k"
| "builds pc = None"

definition call_error :: "sa_library \<Rightarrow> exn \<Rightarrow> bool" where
  \<comment> \<open>what a call may raise: a failure of the library at some attempt, translated\<close>
  "call_error L e \<longleftrightarrow> (\<exists>k x. (lib_create L k = Some x \<or> lib_create L k = None \<and> lib_schema L k = Some x) \<and> e = init_failure x)
     \<or> (\<exists>k. lib_dispose L k = Some e \<and> \<not> is_exception e)"

definition half_built :: "sa_library \<Rightarrow> nat \<Rightarrow> bool" where
  \<comment> \<open>an engine that nobody disposes of: its failure was none of the library's, or disposing failed\<close>
  "half_built L k \<longleftrightarrow> (\<exists>e. lib_schema L k = Some e \<and> (is_sqlalchemy_error e \<longrightarrow> lib_dispose L k \<noteq> None))"

fun pc_ok :: "sa_library \<Rightarrow> engine_mem \<Rightarrow> ensure_pc \<Rightarrow> bool" where
  "pc_ok L m Fast_check = True"
| "pc_ok L m Acquire = True"
| "pc_ok L m Recheck = True"
| "pc_ok L m Recheck_return = (em_engine m \<noteq> None)"
| "pc_ok L m Create = (em_engine m = None)"
| "pc_ok L m (Schema k) = (em_engine m = None \<and> lib_create L k = None)"
| "pc_ok L m (Dispose k e) = (em_engine m = None \<and> lib_create L k = None \<and> lib_schema L k = Some e \<and> is_sqlalchemy_error e)"
| "pc_ok L m (Set_sessions k) = (em_engine m = None)"
| "pc_ok L m (Set_processed k) = (em_engine m = None \<and> em_sessions m = Some k)"
| "pc_ok L m (Set_engine k) = (em_engine m = None \<and> em_sessions m = Some k \<and> em_processed m = Some k)"
| "pc_ok L m (Release out) =
     (case out of None \<Rightarrow> em_engine m \<noteq> None | Some (Inl e) \<Rightarrow> call_error L e | Some (Inr r) \<Rightarrow> r \<noteq> None \<and> r = em_engine m)"
| "pc_ok L m Read_engine = (em_engine m \<noteq> None)"
| "pc_ok L m (Assert_sessions r) = (r \<noteq> None \<and> r = em_engine m)"
| "pc_ok L m (Assert_processed r) = (r \<noteq> None \<and> r = em_engine m)"
| "pc_ok L m (Read_sessions r) = (r \<noteq> None \<and> r = em_engine m)"
| "pc_ok L m (Read_processed r s) = (r \<noteq> None \<and> r = em_engine m \<and> s = r)"
| "pc_ok L m (Finished out) =
     (case out of Inl e \<Rightarrow> call_error L e | Inr (r, s, p) \<Rightarrow> r \<noteq> None \<and> r = em_engine m \<and> s = r \<and> p = r)"

definition tables_set :: "engine_mem \<Rightarrow> bool" where
  "tables_set m \<longleftrightarrow> em_engine m = None \<or> em_sessions m = em_engine m \<and> em_processed m = em_engine m"

definition ensure_inv :: "sa_library \<Rightarrow> ensure_sys \<Rightarrow> bool" where
  "ensure_inv L s \<longleftrightarrow> tables_set (es_mem s)
     \<and> (\<forall>i < length (es_pcs s). pc_ok L (es_mem s) (es_pcs s ! i) \<and> (in_lock (es_pcs s ! i) \<longleftrightarrow> em_lock (es_mem s) = Some i))
     \<and> (\<forall>k \<in> set (em_live (es_mem s)). em_engine (es_mem s) = Some k \<or> (\<exists>j < length (es_pcs s). builds (es_pcs s ! j) = Some k) \<or> half_built L k)"

definition built :: "ensure_pc \<Rightarrow> engine_mem \<Rightarrow> ensure_pc \<Rightarrow> engine_mem \<Rightarrow> nat \<Rightarrow> bool" where
  "built pc m pc' m' k \<longleftrightarrow> (k \<in> set (em_live m) \<and> builds pc \<noteq> Some k) \<or> builds pc' = Some k \<or> em_engine m' = Some k"

lemma call_errors [intro]:
  "lib_create L k = Some x \<Longrightarrow> call_error L (init_failure x)"
  "lib_create L k = None \<Longrightarrow> lib_schema L k = Some x \<Longrightarrow> call_error L (init_failure x)"
  "lib_create L k = None \<Longrightarrow> lib_schema L k = Some x \<Longrightarrow> \<not> is_sqlalchemy_error x \<Longrightarrow> call_error L x"
  "lib_dispose L k = Some x \<Longrightarrow> \<not> is_exception x \<Longrightarrow> call_error L x"
  unfolding call_error_def by (blast, blast, metis init_failure_def, blast)

lemma step_pc_ok:
  assumes "ensure_step L i pc m = Some (pc', m')" and "pc_ok L m pc" and "tables_set m"
  shows "pc_ok L m' pc'" and "tables_set m'" and "em_engine m = None \<or> em_engine m' = em_engine m"
proof -
  show "pc_ok L m' pc'"
    using assms by (cases pc) (auto simp: tables_set_def Let_def split: option.splits if_splits sum.splits)
  show "tables_set m'"
    using assms by (cases pc) (auto simp: tables_set_def Let_def split: option.splits sum.splits if_splits)
  show "em_engine m = None \<or> em_engine m' = em_engine m"
    using assms by (cases pc) (auto simp: Let_def split: option.splits sum.splits if_splits)
qed

lemma step_lock:
  assumes "ensure_step L i pc m = Some (pc', m')" and "in_lock pc \<longleftrightarrow> em_lock m = Some i"
  shows "in_lock pc' \<longleftrightarrow> em_lock m' = Some i" and "j \<noteq> i \<Longrightarrow> em_lock m' = Some j \<longleftrightarrow> em_lock m = Some j"
    and "\<not> in_lock pc \<Longrightarrow> em_engine m' = em_engine m \<and> em_sessions m' = em_sessions m \<and> em_processed m' = em_processed m"
proof -
  show "in_lock pc' \<longleftrightarrow> em_lock m' = Some i"
    using assms by (cases pc) (auto simp: Let_def split: option.splits sum.splits if_splits)
  show "j \<noteq> i \<Longrightarrow> em_lock m' = Some j \<longleftrightarrow> em_lock m = Some j"
    using assms by (cases pc) (auto simp: Let_def split: option.splits sum.splits if_splits)
  show "\<not> in_lock pc \<Longrightarrow> em_engine m' = em_engine m \<and> em_sessions m' = em_sessions m \<and> em_processed m' = em_processed m"
    using assms(1) by (cases pc) (auto split: if_splits)
qed

lemma step_live:
  assumes "ensure_step L i pc m = Some (pc', m')" and "pc_ok L m pc" and "k \<in> set (em_live m')"
  shows "built pc m pc' m' k \<or> half_built L k"
  using assms by (cases pc) (auto simp: built_def half_built_def Let_def split: option.splits sum.splits if_splits)

lemma pc_ok_other:
  "pc_ok L m pc \<Longrightarrow> \<not> in_lock pc \<Longrightarrow> em_engine m = None \<or> em_engine m' = em_engine m \<Longrightarrow> pc_ok L m' pc"
  by (cases pc) (auto split: sum.splits)

lemma pc_ok_same:
  "pc_ok L m pc \<Longrightarrow> em_engine m' = em_engine m \<and> em_sessions m' = em_sessions m \<and> em_processed m' = em_processed m \<Longrightarrow> pc_ok L m' pc"
  by (cases pc) (auto split: sum.splits option.splits)


lemma move_step:
  assumes "ensure_move L i s = Some s'"
  obtains pc' m' where "i < length (es_pcs s)" "ensure_step L i (es_pcs s ! i) (es_mem s) = Some (pc', m')"
    "es_mem s' = m'" "es_pcs s' = (es_pcs s)[i := pc']"
  using assms by (auto simp: ensure_move_def split: if_splits)

lemma ensure_inv_start: "ensure_inv L (ensure_start n)"
  by (simp add: ensure_inv_def ensure_start_def tables_set_def)

lemma ensure_inv_next:
  assumes "ensure_next L s s'" and inv: "ensure_inv L s"
  shows "ensure_inv L s'"
proof -
  let ?m = "es_mem s" and ?pcs = "es_pcs s"
  obtain i pc' m' where i: "i < length ?pcs" and st: "ensure_step L i (?pcs ! i) ?m = Some (pc', m')"
    and s': "es_mem s' = m'" "es_pcs s' = ?pcs[i := pc']"
    using assms(1) by (elim ensure_nextE move_step)
  have ok: "pc_ok L ?m (?pcs ! j)" and lock: "in_lock (?pcs ! j) \<longleftrightarrow> em_lock ?m = Some j" if "j < length ?pcs" for j
    using inv that by (simp_all add: ensure_inv_def)
  have tabs: "tables_set ?m" using inv by (simp add: ensure_inv_def)
  note p = step_pc_ok [OF st ok [OF i] tabs] and l = step_lock [OF st lock [OF i]]
  have other: "pc_ok L m' (?pcs ! j)" if j: "j < length ?pcs" "j \<noteq> i" for j
  proof (cases "in_lock (?pcs ! i)")
    case True
    then have "\<not> in_lock (?pcs ! j)" using lock [OF i] lock [OF j(1)] j(2) by auto
    then show ?thesis using pc_ok_other [OF ok [OF j(1)] _ p(3)] by simp
  next
    case False
    then show ?thesis using pc_ok_same [OF ok [OF j(1)]] l(3) by blast
  qed
  have "em_engine m' = Some k \<or> (\<exists>j < length ?pcs. builds (?pcs[i := pc'] ! j) = Some k) \<or> half_built L k"
    if k: "k \<in> set (em_live m')" for k
  proof -
    have "k \<in> set (em_live ?m) \<Longrightarrow> em_engine ?m = Some k \<or> (\<exists>j < length ?pcs. builds (?pcs ! j) = Some k) \<or> half_built L k"
      using inv by (simp add: ensure_inv_def)
    with step_live [OF st ok [OF i] k] p(3) i show ?thesis
      unfolding built_def by (metis length_list_update nth_list_update option.distinct(1))
  qed
  moreover have "pc_ok L m' (?pcs[i := pc'] ! j)" "in_lock (?pcs[i := pc'] ! j) \<longleftrightarrow> em_lock m' = Some j" if "j < length ?pcs" for j
    using that p(1) l(1,2) other lock by (cases "j = i"; simp)+
  ultimately show ?thesis using p(2) by (simp add: ensure_inv_def s')
qed

definition ensure_reach :: "sa_library \<Rightarrow> nat \<Rightarrow> ensure_sys \<Rightarrow> bool" where
  "ensure_reach L n s \<longleftrightarrow> (ensure_next L)\<^sup>*\<^sup>* (ensure_start n) s"

lemma ensure_reach_inv: "ensure_reach L n s \<Longrightarrow> ensure_inv L s"
  unfolding ensure_reach_def by (induction rule: rtranclp_induct) (auto intro: ensure_inv_start ensure_inv_next)

subsection \<open>Progress\<close>

fun pc_left :: "ensure_pc \<Rightarrow> nat" where
  \<comment> \<open>no more than this many steps are left for a thread\<close>
  "pc_left Fast_check = 15"
| "pc_left Acquire = 14"
| "pc_left Recheck = 13"
| "pc_left Recheck_return = 8"
| "pc_left Create = 12"
| "pc_left (Schema k) = 11"
| "pc_left (Dispose k e) = 8"
| "pc_left (Set_sessions k) = 10"
| "pc_left (Set_processed k) = 9"
| "pc_left (Set_engine k) = 8"
| "pc_left (Release out) = 7"
| "pc_left Read_engine = 6"
| "pc_left (Assert_sessions r) = 5"
| "pc_left (Assert_processed r) = 4"
| "pc_left (Read_sessions r) = 3"
| "pc_left (Read_processed r s) = 2"
| "pc_left (Finished out) = 0"

definition sys_left :: "ensure_sys \<Rightarrow> nat" where
  "sys_left s = sum_list (map pc_left (es_pcs s))"

lemma step_left: "ensure_step L i pc m = Some (pc', m') \<Longrightarrow> pc_left pc' < pc_left pc"
  by (cases pc) (auto simp: Let_def split: option.splits sum.splits if_splits)

lemma next_left: "ensure_next L s s' \<Longrightarrow> sys_left s' < sys_left s"
proof (elim ensure_nextE move_step)
  fix i pc' m' assume i: "i < length (es_pcs s)" and st: "ensure_step L i (es_pcs s ! i) (es_mem s) = Some (pc', m')"
    and s': "es_pcs s' = (es_pcs s)[i := pc']"
  have "pc_left (es_pcs s ! i) \<le> sys_left s"
    using i member_le_sum_list [of "pc_left (es_pcs s ! i)" "map pc_left (es_pcs s)"] by (simp add: sys_left_def)
  with i step_left [OF st] show ?thesis by (simp add: sys_left_def s' map_update sum_list_update)
qed

lemma steps_left: "(ensure_next L ^^ m) s s' \<Longrightarrow> m + sys_left s' \<le> sys_left s"
proof (induction m arbitrary: s')
  case (Suc m)
  then obtain t where "(ensure_next L ^^ m) s t" and "ensure_next L t s'" by auto
  with Suc.IH [of t] next_left [of L t s'] show ?case by simp
qed simp

fun finished :: "ensure_pc \<Rightarrow> bool" where
  "finished (Finished out) = True"
| "finished pc = False"

lemma step_unless: "\<not> finished pc \<Longrightarrow> pc = Acquire \<and> em_lock m \<noteq> None \<or> ensure_step L i pc m \<noteq> None"
  by (cases pc) (auto simp: Let_def split: option.splits)

lemma stuck_finished:
  assumes inv: "ensure_inv L s" and stuck: "\<nexists>s'. ensure_next L s s'"
    and lock: "\<And>i. em_lock (es_mem s) = Some i \<Longrightarrow> i < length (es_pcs s)"
  shows "list_all finished (es_pcs s)"
proof -
  have no: "ensure_step L i (es_pcs s ! i) (es_mem s) = None" if "i < length (es_pcs s)" for i
  proof (rule ccontr)
    assume "ensure_step L i (es_pcs s ! i) (es_mem s) \<noteq> None"
    with that have "ensure_move L i s \<noteq> None" by (simp add: ensure_move_def)
    with stuck show False by (auto intro: ensure_nextI)
  qed
  have free: "em_lock (es_mem s) = None"
  proof (rule ccontr)
    assume "em_lock (es_mem s) \<noteq> None"
    then obtain i where i: "em_lock (es_mem s) = Some i" "i < length (es_pcs s)" using lock by auto
    then have "in_lock (es_pcs s ! i)" using inv by (simp add: ensure_inv_def)
    then show False using no [OF i(2)] step_unless [of "es_pcs s ! i" "es_mem s" L i] by (cases "es_pcs s ! i") auto
  qed
  have "finished (es_pcs s ! i)" if "i < length (es_pcs s)" for i
    using no [OF that] step_unless free by blast
  then show ?thesis by (simp add: list_all_length)
qed

lemma next_lock_bound:
  assumes "ensure_next L s s'" and "\<And>i. em_lock (es_mem s) = Some i \<Longrightarrow> i < length (es_pcs s)"
    and "em_lock (es_mem s') = Some j"
  shows "j < length (es_pcs s')"
proof -
  obtain i pc' m' where i: "i < length (es_pcs s)" and st: "ensure_step L i (es_pcs s ! i) (es_mem s) = Some (pc', m')"
    and s': "es_mem s' = m'" "es_pcs s' = (es_pcs s)[i := pc']"
    using assms(1) by (elim ensure_nextE move_step)
  have "em_lock m' = Some j \<Longrightarrow> j = i \<or> em_lock (es_mem s) = Some j"
    using st by (cases "es_pcs s ! i") (auto simp: Let_def split: option.splits sum.splits if_splits)
  with assms(2,3) i s' show ?thesis by auto
qed

lemma reach_lock_bound: "ensure_reach L n s \<Longrightarrow> em_lock (es_mem s) = Some i \<Longrightarrow> i < length (es_pcs s)"
  unfolding ensure_reach_def
proof (induction arbitrary: i rule: rtranclp_induct)
  case base
  then show ?case by (simp add: ensure_start_def)
next
  case (step t u)
  then show ?case using next_lock_bound by blast
qed

lemma reach_trans: "ensure_reach L n s \<Longrightarrow> (ensure_next L)\<^sup>*\<^sup>* s s' \<Longrightarrow> ensure_reach L n s'"
  unfolding ensure_reach_def by (rule rtranclp_trans)

lemma reach_stuck_finished: "ensure_reach L n s \<Longrightarrow> \<nexists>s'. ensure_next L s s' \<Longrightarrow> list_all finished (es_pcs s)"
  using stuck_finished ensure_reach_inv reach_lock_bound by blast

subsection \<open>Publication\<close>

lemma next_published:
  assumes "ensure_next L s s'" and "ensure_inv L s" and "em_engine (es_mem s) = Some k"
  shows "em_engine (es_mem s') = Some k \<and> em_calls (es_mem s') = em_calls (es_mem s)"
proof -
  obtain i pc' m' where i: "i < length (es_pcs s)" and st: "ensure_step L i (es_pcs s ! i) (es_mem s) = Some (pc', m')"
    and s': "es_mem s' = m'"
    using assms(1) by (elim ensure_nextE move_step)
  have "pc_ok L (es_mem s) (es_pcs s ! i)" using assms(2) i by (simp add: ensure_inv_def)
  with st assms(3) show ?thesis
    unfolding s' by (cases "es_pcs s ! i") (auto simp: Let_def split: option.splits sum.splits if_splits)
qed

lemma published_stays:
  assumes "(ensure_next L)\<^sup>*\<^sup>* s s'" and "ensure_inv L s" and "em_engine (es_mem s) = Some k"
  shows "em_engine (es_mem s') = Some k \<and> em_calls (es_mem s') = em_calls (es_mem s)"
proof -
  have "ensure_inv L s' \<and> em_engine (es_mem s') = Some k \<and> em_calls (es_mem s') = em_calls (es_mem s)"
    using assms(1)
  proof (induction rule: rtranclp_induct)
    case base
    then show ?case using assms(2,3) by simp
  next
    case (step t u)
    then show ?case using next_published ensure_inv_next by fastforce
  qed
  then show ?thesis by simp
qed

lemma finished_ok:
  assumes "ensure_inv L s" and "Finished (Inr a) \<in> set (es_pcs s)"
  shows "\<exists>k. em_engine (es_mem s) = Some k \<and> a = (Some k, Some k, Some k)"
  using assms by (cases a) (force simp: ensure_inv_def in_set_conv_nth)

lemma finished_err: "ensure_inv L s \<Longrightarrow> Finished (Inl e) \<in> set (es_pcs s) \<Longrightarrow> call_error L e"
  by (force simp: ensure_inv_def in_set_conv_nth)

lemma one_builder:
  assumes "ensure_inv L s" and "i < length (es_pcs s)" and "j < length (es_pcs s)"
    and "in_lock (es_pcs s ! i)" and "in_lock (es_pcs s ! j)"
  shows "i = j"
  using assms by (auto simp: ensure_inv_def)

lemma live_when_done:
  assumes "ensure_inv L s" and "list_all finished (es_pcs s)" and "k \<in> set (em_live (es_mem s))"
  shows "em_engine (es_mem s) = Some k \<or> half_built L k"
proof -
  have "builds (es_pcs s ! j) = None" if "j < length (es_pcs s)" for j
    using assms(2) that by (cases "es_pcs s ! j") (auto simp: list_all_length)
  with assms(1,3) show ?thesis unfolding ensure_inv_def by fastforce
qed

subsection \<open>The calls against the store\<close>

definition boots_as :: "sa_library \<Rightarrow> sa_backend \<Rightarrow> bool" where
  \<comment> \<open>every attempt ends as the start of the database does, in one of its two calls\<close>
  "boots_as L B \<longleftrightarrow> (\<forall>k. (case sb_boot B of
       Inr _ \<Rightarrow> lib_create L k = None \<and> lib_schema L k = None
     | Inl e \<Rightarrow> lib_create L k = Some e \<or> lib_create L k = None \<and> lib_schema L k = Some e)
     \<and> (\<forall>d. lib_dispose L k = Some d \<longrightarrow> is_exception d))"

lemma boots_as_ok: "boots_as L B \<Longrightarrow> sb_boot B = Inr u \<Longrightarrow> lib_create L k = None \<and> lib_schema L k = None"
  by (simp add: boots_as_def)

lemma boots_as_fails:
  "boots_as L B \<Longrightarrow> sb_boot B = Inl e \<Longrightarrow> lib_create L k = Some e \<or> lib_create L k = None \<and> lib_schema L k = Some e"
  by (simp add: boots_as_def)

lemma boots_as_never: "boots_as L B \<Longrightarrow> sb_boot B = Inl e \<Longrightarrow> lib_create L k = None \<Longrightarrow> lib_schema L k = Some e"
  using boots_as_fails [of L B e k] by simp

lemma boots_as_error:
  assumes "boots_as L B" and "call_error L e"
  shows "\<exists>x. sb_boot B = Inl x \<and> e = init_failure x"
proof -
  have "\<not> (\<exists>k. lib_dispose L k = Some e \<and> \<not> is_exception e)" using assms(1) by (auto simp: boots_as_def)
  with assms(2) obtain k x where x: "lib_create L k = Some x \<or> lib_create L k = None \<and> lib_schema L k = Some x" "e = init_failure x"
    by (auto simp: call_error_def)
  show ?thesis
  proof (cases "sb_boot B")
    case (Inl y)
    with boots_as_fails [OF assms(1) Inl, of k] x show ?thesis by auto
  next
    case (Inr u)
    with boots_as_ok [OF assms(1) Inr, of k] x show ?thesis by auto
  qed
qed

fun past_schema :: "ensure_pc \<Rightarrow> bool" where
  "past_schema (Set_sessions k) = True"
| "past_schema (Set_processed k) = True"
| "past_schema (Set_engine k) = True"
| "past_schema pc = False"

lemma unbootable:
  assumes "ensure_reach L n s" and "boots_as L B" and "sb_boot B = Inl e"
  shows "em_engine (es_mem s) = None \<and> list_all (\<lambda>pc. \<not> past_schema pc) (es_pcs s)"
  using assms(1) unfolding ensure_reach_def
proof (induction rule: rtranclp_induct)
  case base
  then show ?case by (simp add: ensure_start_def list_all_iff)
next
  case (step t u)
  obtain i pc' m' where i: "i < length (es_pcs t)" and st: "ensure_step L i (es_pcs t ! i) (es_mem t) = Some (pc', m')"
    and u: "es_mem u = m'" "es_pcs u = (es_pcs t)[i := pc']"
    using step.hyps(2) by (elim ensure_nextE move_step)
  have "pc_ok L (es_mem t) (es_pcs t ! i)"
    using i step.hyps(1) ensure_reach_inv [of L n t] by (simp add: ensure_reach_def ensure_inv_def)
  moreover have "\<not> past_schema (es_pcs t ! i)" using step.IH i by (simp add: list_all_length)
  ultimately have "\<not> past_schema pc' \<and> em_engine m' = em_engine (es_mem t)"
    using st boots_as_never [OF assms(2,3)] by (cases "es_pcs t ! i") (auto simp: Let_def split: option.splits sum.splits if_splits)
  with step.IH i show ?case by (auto simp: u list_all_length nth_list_update)
qed

lemma answers_as_store:
  assumes "ensure_reach L n s" and "boots_as L B" and "Finished out \<in> set (es_pcs s)" and "\<not> sa_ready st"
  shows "map_sum id (\<lambda>_. ()) out = fst (ensure_engine B st)
    \<and> sa_ready (snd (ensure_engine B st)) = (em_engine (es_mem s) \<noteq> None)"
proof (cases out)
  case (Inl e)
  with boots_as_error [OF assms(2)] finished_err [OF ensure_reach_inv [OF assms(1)]] assms(3)
  obtain x where x: "sb_boot B = Inl x" "e = init_failure x" by blast
  with unbootable [OF assms(1,2) x(1)] assms(4) Inl show ?thesis by (simp add: ensure_engine_def init_failure_def)
next
  case (Inr a)
  with finished_ok [OF ensure_reach_inv [OF assms(1)]] assms(3) have e: "em_engine (es_mem s) \<noteq> None" by blast
  then have "\<exists>u. sb_boot B = Inr u" using unbootable [OF assms(1,2)] by (cases "sb_boot B") auto
  with e assms(4) Inr show ?thesis by (auto simp: ensure_engine_def)
qed

text \<open>C37. Threads that use a new store at once. However their steps interleave and whatever the library does: at most one
  thread is between taking and releasing the lock; every call that returns has the same engine and the tables made
  on it, so its two assertions never fail; a call that raises carries a failure of the library, translated; once an
  engine is published it stays and no further one is created; and when all calls are over no other engine is
  alive than the published one, except those that could not be disposed of or whose schema failed with an
  exception that is not SQLAlchemy's.\<close>

theorem engine_is_shared:
  assumes "ensure_reach L n s"
  shows "(\<forall>i j. i < length (es_pcs s) \<and> j < length (es_pcs s) \<and> in_lock (es_pcs s ! i) \<and> in_lock (es_pcs s ! j) \<longrightarrow> i = j)
    \<and> (\<forall>a. Finished (Inr a) \<in> set (es_pcs s) \<longrightarrow> (\<exists>k. em_engine (es_mem s) = Some k \<and> a = (Some k, Some k, Some k)))
    \<and> (\<forall>e. Finished (Inl e) \<in> set (es_pcs s) \<longrightarrow> call_error L e)
    \<and> (\<forall>k s'. em_engine (es_mem s) = Some k \<and> (ensure_next L)\<^sup>*\<^sup>* s s'
         \<longrightarrow> em_engine (es_mem s') = Some k \<and> em_calls (es_mem s') = em_calls (es_mem s))
    \<and> (list_all finished (es_pcs s) \<longrightarrow> (\<forall>k \<in> set (em_live (es_mem s)). em_engine (es_mem s) = Some k \<or> half_built L k))"
proof -
  have inv: "ensure_inv L s" by (rule ensure_reach_inv [OF assms])
  then show ?thesis
    using one_builder [OF inv] finished_ok [OF inv] finished_err [OF inv] published_stays [OF _ inv] live_when_done [OF inv]
    by blast
qed

text \<open>C38. The calls of \<open>_engine_and_tables\<close> end: from any reachable state, and whatever the library does at each
  attempt, there is a bound on the steps that the threads can still make, and they cannot stop before every call
  is over - no deadlock. When moreover the library ends every attempt as the database of a store model \<open>B\<close> does
  (and a failing dispose raises an \<open>Exception\<close>), each call that is over has the answer of \<open>ensure_engine\<close> on a
  store that is not ready yet, and the store is ready exactly if that one is: the sequential model of the
  store stands for the locked code. (A call of the library that never comes back is not modelled.)\<close>

theorem engine_calls_finish:
  assumes "ensure_reach L n s"
  shows "\<exists>N. \<forall>m s'. (ensure_next L ^^ m) s s' \<longrightarrow> m \<le> N
    \<and> ((\<nexists>s''. ensure_next L s' s'') \<longrightarrow> list_all finished (es_pcs s'))
    \<and> (\<forall>B st out. boots_as L B \<and> \<not> sa_ready st \<and> Finished out \<in> set (es_pcs s') \<longrightarrow>
         map_sum id (\<lambda>_. ()) out = fst (ensure_engine B st)
         \<and> sa_ready (snd (ensure_engine B st)) = (em_engine (es_mem s') \<noteq> None))"
proof (intro exI allI impI)
  fix m s' assume st: "(ensure_next L ^^ m) s s'"
  then have r: "ensure_reach L n s'" using reach_trans [OF assms(1)] relpowp_imp_rtranclp by metis
  have "m \<le> sys_left s" using steps_left [OF st] by simp
  moreover have "map_sum id (\<lambda>_. ()) out = fst (ensure_engine B st)
      \<and> sa_ready (snd (ensure_engine B st)) = (em_engine (es_mem s') \<noteq> None)"
    if "boots_as L B" "\<not> sa_ready st" "Finished out \<in> set (es_pcs s')" for B st out
    by (rule answers_as_store [OF r that(1,3,2)])
  ultimately show "m \<le> sys_left s
    \<and> ((\<nexists>s''. ensure_next L s' s'') \<longrightarrow> list_all finished (es_pcs s'))
    \<and> (\<forall>B st out. boots_as L B \<and> \<not> sa_ready st \<and> Finished out \<in> set (es_pcs s') \<longrightarrow>
         map_sum id (\<lambda>_. ()) out = fst (ensure_engine B st)
         \<and> sa_ready (snd (ensure_engine B st)) = (em_engine (es_mem s') \<noteq> None))"
    using reach_stuck_finished [OF r] by blast
qed

definition flaky_library :: sa_library where
  \<comment> \<open>the first schema fails, the next ones succeed\<close>
  "flaky_library =
     \<lparr>lib_create = (\<lambda>_. None), lib_schema = (\<lambda>k. if k = 0 then Some (DatabaseError ''locked'') else None), lib_dispose = (\<lambda>_. None)\<rparr>"

definition flaky_run :: ensure_sys where
  \<comment> \<open>all threads pass the first check, then thread 0 fails, thread 1 publishes, thread 2 finds the engine\<close>
  "flaky_run = ensure_schedule flaky_library
     ([0, 1, 2] @ replicate 8 0 @ replicate 14 1 @ replicate 12 2) (ensure_start 3)"

theorem engine_is_shared_witness:
  "es_pcs flaky_run = [Finished (Inl (init_failure (DatabaseError ''locked''))),
     Finished (Inr (Some 1, Some 1, Some 1)), Finished (Inr (Some 1, Some 1, Some 1))]
   \<and> em_live (es_mem flaky_run) = [1] \<and> em_engine (es_mem flaky_run) = Some 1 \<and> \<not> half_built flaky_library 0"
proof -
  have "ensure_reach flaky_library 3 flaky_run"
    unfolding ensure_reach_def flaky_run_def by (rule ensure_schedule_reach)
  note shared = engine_is_shared [OF this]
  have pcs: "es_pcs flaky_run = [Finished (Inl (init_failure (DatabaseError ''locked''))),
     Finished (Inr (Some 1, Some 1, Some 1)), Finished (Inr (Some 1, Some 1, Some 1))]" by code_simp
  then have "em_engine (es_mem flaky_run) = Some 1" using shared by simp
  moreover have "em_live (es_mem flaky_run) = [1]" by code_simp
  moreover have "\<not> half_built flaky_library 0" by (simp add: half_built_def flaky_library_def is_sqlalchemy_error_def)
  ultimately show ?thesis using pcs by simp
qed

definition calm_library :: sa_library where
  "calm_library = \<lparr>lib_create = (\<lambda>_. None), lib_schema = (\<lambda>_. None), lib_dispose = (\<lambda>_. None)\<rparr>"

definition calm_run :: ensure_sys where
  "calm_run = ensure_schedule calm_library ([0, 1] @ replicate 14 1 @ replicate 12 0) (ensure_start 2)"

theorem engine_calls_finish_witness:
  "(\<exists>N. \<forall>m s'. (ensure_next flaky_library ^^ m) (ensure_start 3) s' \<longrightarrow> m \<le> N)
   \<and> es_pcs calm_run = [Finished (Inr (Some 0, Some 0, Some 0)), Finished (Inr (Some 0, Some 0, Some 0))]
   \<and> fst (ensure_engine postgres_like \<lparr>sa_ready = False, sa_db = sqlite_init\<rparr>) = Inr ()
   \<and> sa_ready (snd (ensure_engine postgres_like \<lparr>sa_ready = False, sa_db = sqlite_init\<rparr>))"
proof -
  let ?st = "\<lparr>sa_ready = False, sa_db = sqlite_init\<rparr>"
  have "ensure_reach flaky_library 3 (ensure_start 3)" by (simp add: ensure_reach_def)
  from engine_calls_finish [OF this]
  have bound: "\<exists>N. \<forall>m s'. (ensure_next flaky_library ^^ m) (ensure_start 3) s' \<longrightarrow> m \<le> N" by blast
  have r: "ensure_reach calm_library 2 calm_run"
    unfolding ensure_reach_def calm_run_def by (rule ensure_schedule_reach)
  have b: "boots_as calm_library postgres_like" by (simp add: boots_as_def calm_library_def postgres_like_def)
  have pcs: "es_pcs calm_run = [Finished (Inr (Some 0, Some 0, Some 0)), Finished (Inr (Some 0, Some 0, Some 0))]" by code_simp
  have e: "em_engine (es_mem calm_run) = Some 0" by code_simp
  have "(ensure_next calm_library ^^ 0) calm_run calm_run" by simp
  with engine_calls_finish [OF r] b
  have "\<forall>out. Finished out \<in> set (es_pcs calm_run) \<longrightarrow> map_sum id (\<lambda>_. ()) out = fst (ensure_engine postgres_like ?st)
      \<and> sa_ready (snd (ensure_engine postgres_like ?st)) = (em_engine (es_mem calm_run) \<noteq> None)"
    by (metis sa_store.select_convs(1))
  with pcs e bound show ?thesis by auto
qed

end
