(* ===== verification/Otel.thy ===== *)
theory Otel
  imports Engine_Trace "HOL-Library.Sublist"
begin

section \<open>The OpenTelemetry tracer\<close>

text \<open>
  \<open>adapters/observability/otel/tracer.py\<close>. What the adapter does to OpenTelemetry is a list of calls on
  each span, in order: the library behind them is not modelled (its interface answers nothing the adapter
  uses and never raises). A span handle is the position of the span. The values traced here come from
  JSON or are text, so \<open>json.dumps\<close> succeeds and its two fallbacks are never reached.
\<close>

subsection \<open>json.dumps\<close>

definition hex_nibble :: "nat \<Rightarrow> char" where
  "hex_nibble n = char_of (if n < 10 then 48 + n else 87 + n)"

definition json_char :: "char \<Rightarrow> string" where
  \<comment> \<open>with \<open>ensure_ascii=False\<close>\<close>
  "json_char c =
     (let n = code c; bs = char_of (92 :: nat) in
      if n = 34 then [bs, c] else if n = 92 then [bs, bs]
      else if n = 10 then bs # ''n'' else if n = 13 then bs # ''r'' else if n = 9 then bs # ''t''
      else if n = 8 then bs # ''b'' else if n = 12 then bs # ''f''
      else if n < 32 then bs # ''u00'' @ [hex_nibble (n div 16), hex_nibble (n mod 16)]
      else [c])"

definition json_str :: "string \<Rightarrow> string" where
  "json_str s = [char_of (34 :: nat)] @ concat (List.map json_char s) @ [char_of (34 :: nat)]"

fun json_dumps :: "(pyfloat \<Rightarrow> string) \<Rightarrow> pyv \<Rightarrow> string" where
  "json_dumps fr PNone = ''null''"
| "json_dumps fr (PBool b) = (if b then ''true'' else ''false'')"
| "json_dumps fr (PInt i) = int_str i"
| "json_dumps fr (PFloat f) = fr f"
| "json_dumps fr (PStr s) = json_str s"
| "json_dumps fr (PList xs) = ''['' @ join_with '', '' (List.map (json_dumps fr) xs) @ '']''"
| "json_dumps fr (PDict kvs) =
     ''{'' @ join_with '', '' (List.map (\<lambda>kv. json_str (fst kv) @ '': '' @ json_dumps fr (snd kv)) kvs) @ ''}''"

subsection \<open>Spans\<close>

definition MAX_ATTR_LEN :: nat where
  "MAX_ATTR_LEN = 4096"

datatype otel_status = STATUS_OK | STATUS_ERROR

datatype otel_call =
    AddEvent string "pyv dict"
  | SetStatus otel_status "string option"
  | SetAttribute string pyv
  | EndSpan

record otel_span =
  os_name :: string
  os_attributes :: "pyv dict"
  os_calls :: "otel_call list"
  os_ended :: bool

type_synonym otel_state = "otel_span list"

definition serialise :: "(pyfloat \<Rightarrow> string) \<Rightarrow> pyv \<Rightarrow> string \<times> bool" where
  "serialise fr v =
     (let text = (case v of PStr s \<Rightarrow> s | PInt i \<Rightarrow> py_str fr v | PFloat f \<Rightarrow> py_str fr v | PBool b \<Rightarrow> py_str fr v
                  | _ \<Rightarrow> json_dumps fr v)
      in if length text > MAX_ATTR_LEN then (take MAX_ATTR_LEN text, True) else (text, False))"

definition tool_value :: "(pyfloat \<Rightarrow> string) \<Rightarrow> string \<Rightarrow> pyv \<Rightarrow> pyv dict" where
  \<comment> \<open>the attributes for one value: none for None, a flag when it was cut\<close>
  "tool_value fr key v =
     (if v = PNone then []
      else let (text, truncated) = serialise fr v in
        (key, PStr text) # (if truncated then [(key @ ''.truncated'', PBool True)] else []))"

definition tool_event_call :: "(pyfloat \<Rightarrow> string) \<Rightarrow> pyv \<Rightarrow> pyv \<Rightarrow> pyv \<Rightarrow> otel_call" where
  "tool_event_call fr name input output =
     AddEvent ''tool'' ((''tool.name'', name) # tool_value fr ''tool.input'' input @ tool_value fr ''tool.output'' output)"

definition span_calls :: "nat \<Rightarrow> otel_call list \<Rightarrow> otel_state \<Rightarrow> otel_state" where
  "span_calls sp cs = upd_at sp (\<lambda>s. s\<lparr>os_calls := os_calls s @ cs\<rparr>)"

definition otel_record_tool :: "(pyfloat \<Rightarrow> string) \<Rightarrow> nat \<Rightarrow> pyv \<Rightarrow> pyv \<Rightarrow> pyv \<Rightarrow> otel_state \<Rightarrow> otel_state" where
  "otel_record_tool fr sp name input output = span_calls sp [tool_event_call fr name input output]"

definition finish_calls :: "(pyfloat \<Rightarrow> string) \<Rightarrow> pyv \<Rightarrow> string option \<Rightarrow> otel_call list" where
  "finish_calls fr output error =
     (case error of
        Some e \<Rightarrow> [SetStatus STATUS_ERROR (Some e), SetAttribute ''claw.error'' (PStr e)]
      | None \<Rightarrow> SetStatus STATUS_OK None # List.map (\<lambda>(k, v). SetAttribute k v) (tool_value fr ''claw.output'' output))
     @ [EndSpan]"

definition otel_finish :: "(pyfloat \<Rightarrow> string) \<Rightarrow> nat \<Rightarrow> pyv \<Rightarrow> string option \<Rightarrow> otel_state \<Rightarrow> otel_state" where
  "otel_finish fr sp output error =
     upd_at sp (\<lambda>s. if os_ended s then s
                    else s\<lparr>os_ended := True, os_calls := os_calls s @ finish_calls fr output error\<rparr>)"

definition otel_exit :: "(pyfloat \<Rightarrow> string) \<Rightarrow> nat \<Rightarrow> exn option \<Rightarrow> otel_state \<Rightarrow> otel_state" where
  "otel_exit fr sp x t =
     (if sp < length t \<and> \<not> os_ended (t ! sp) then otel_finish fr sp PNone (map_option exn_str x) t else t)"

definition dim_attrs :: "(pyfloat \<Rightarrow> string) \<Rightarrow> trace_dims \<Rightarrow> pyv dict" where
  "dim_attrs fr d =
     List.map (\<lambda>(k, v). (k, PStr (py_str fr v)))
       (filter (\<lambda>(k, v). v \<noteq> PNone)
          [(''claw.workspace_id'', dim_workspace_id d), (''claw.user_id'', dim_user_id d),
           (''claw.session_id'', dim_session_id d), (''claw.backend_name'', dim_backend_name d)])"

definition otel_start_trace :: "(pyfloat \<Rightarrow> string) \<Rightarrow> string \<Rightarrow> trace_dims \<Rightarrow> pyv \<Rightarrow> pyv dict option \<Rightarrow> otel_state \<Rightarrow> nat \<times> otel_state" where
  \<comment> \<open>the input and the metadata are not passed on\<close>
  "otel_start_trace fr name dims input metadata t =
     (length t, t @ [\<lparr>os_name = name, os_attributes = dim_attrs fr dims, os_calls = [], os_ended = False\<rparr>])"

definition otel_ops :: "(pyfloat \<Rightarrow> string) \<Rightarrow> (otel_state, nat) tracer_ops" where
  "otel_ops fr =
     \<lparr>op_start_trace = otel_start_trace fr, op_record_tool = otel_record_tool fr,
      op_finish = otel_finish fr, op_exit = otel_exit fr\<rparr>"

lemma otel_sel [simp]:
  "op_start_trace (otel_ops fr) = otel_start_trace fr" "op_record_tool (otel_ops fr) = otel_record_tool fr"
  "op_finish (otel_ops fr) = otel_finish fr" "op_exit (otel_ops fr) = otel_exit fr"
  by (simp_all add: otel_ops_def)

definition otel_ended :: "nat \<Rightarrow> otel_state \<Rightarrow> bool" where
  "otel_ended sp t \<longleftrightarrow> (sp < length t \<longrightarrow> os_ended (t ! sp))"

interpretation oteltr: recording_tracer "otel_ops fr" otel_ended
  by unfold_locales
    (auto simp: otel_ended_def otel_finish_def otel_exit_def otel_record_tool_def span_calls_def otel_start_trace_def upd_at_def)

subsection \<open>The span of a turn\<close>

definition record_tools :: "('t, 'sp) tracer_ops \<Rightarrow> 'sp \<Rightarrow> tool_event list \<Rightarrow> 't \<Rightarrow> 't" where
  "record_tools T sp tools t = fold (\<lambda>x. op_record_tool T sp (tool_name x) (tool_input x) (tool_output x)) tools t"

lemma record_tools_simps [simp]:
  "record_tools T sp [] t = t"
  "record_tools T sp (xs @ ys) t = record_tools T sp ys (record_tools T sp xs t)"
  "record_tools T sp [x] t = op_record_tool T sp (tool_name x) (tool_input x) (tool_output x) t"
  by (simp_all add: record_tools_def)

definition tools_of :: "agent_event list \<Rightarrow> tool_event list" where
  \<comment> \<open>the completed tool calls of a stream\<close>
  "tools_of evs = concat (List.map (\<lambda>ev. case ev_tool ev of
      Some x \<Rightarrow> if ev_kind ev = TOOL_CALL_COMPLETED then [x] else [] | None \<Rightarrow> []) evs)"

lemma tools_of_simps [simp]: "tools_of [] = []" "tools_of (ev # evs) = tools_of [ev] @ tools_of evs"
  by (simp_all add: tools_of_def)

declare tools_of_simps(2) [simp del]

definition outcome_fits :: "exn + agent_run_result \<Rightarrow> pyv \<Rightarrow> string option \<Rightarrow> bool" where
  \<comment> \<open>what a turn's outcome writes into its span\<close>
  "outcome_fits out text err =
     (case out of
        Inr r \<Rightarrow> text = final_text r \<and> err = None
      | Inl e \<Rightarrow> text = PNone \<and> (err = Some (exn_str e)
          \<or> e = RuntimeError (no_terminal_text @ '', contract violated'') \<and> err = Some no_terminal_text))"

context tracer_contract
begin

text \<open>What any tracer sees of a turn: tool calls on the open span, and then one \<open>finish\<close>, with the result's
  text or an error.\<close>

lemma record_tools_ended: "ended sp (record_tools T sp tools t) = ended sp t"
  by (induction tools arbitrary: t) (simp_all add: record_tools_def record_tool_ended)

lemma note_tool_shape: "es_tracer (note_tool T sp ev s) = record_tools T sp (tools_of [ev]) (es_tracer s)"
  by (simp add: note_tool_def tools_of_def split: option.split)

definition seen_tools where
  "seen_tools sp evs out t t' \<longleftrightarrow>
     (\<exists>tools. prefix tools (tools_of evs) \<and> ((\<exists>r. out = Inr r) \<longrightarrow> tools = tools_of evs)
       \<and> (t' = record_tools T sp tools t
          \<or> (\<exists>er. out = Inl (AgentRunFailed er) \<and> t' = op_finish T sp PNone (Some (error_text er)) (record_tools T sp tools t))))"

lemma seen_tools_Cons:
  assumes "seen_tools sp evs out (record_tools T sp (tools_of [ev]) t) t'" shows "seen_tools sp (ev # evs) out t t'"
proof -
  from assms obtain tools where "prefix tools (tools_of evs)" "(\<exists>r. out = Inr r) \<longrightarrow> tools = tools_of evs"
      "t' = record_tools T sp (tools_of [ev] @ tools) t
          \<or> (\<exists>er. out = Inl (AgentRunFailed er) \<and> t' = op_finish T sp PNone (Some (error_text er)) (record_tools T sp (tools_of [ev] @ tools) t))"
    unfolding seen_tools_def by auto
  then show ?thesis
    unfolding seen_tools_def tools_of_simps(2) [of ev evs] by (intro exI [of _ "tools_of [ev] @ tools"]) auto
qed

lemma consume_shape:
  "consume T st cb sp evs tail result s = (out, s') \<Longrightarrow> seen_tools sp evs out (es_tracer s) (es_tracer s')"
proof (induction evs arbitrary: result s)
  case Nil
  then show ?case by (auto simp: seen_tools_def split: option.splits)
next
  case (Cons ev evs)
  show ?case
  proof (cases "ev_kind ev = MESSAGE_DELTA \<and> \<not> st")
    case True
    then have none: "tools_of [ev] = []" by (simp add: tools_of_def split: option.split)
    from True Cons have "seen_tools sp evs out (es_tracer s) (es_tracer s')" by simp
    then show ?thesis by (intro seen_tools_Cons) (simp add: none)
  next
    case False
    obtain x s1 where d: "deliver cb ev s = (x, s1)" by fastforce
    then have t1: "es_tracer s1 = es_tracer s" by (auto dest: deliver_frame)
    let ?s2 = "note_tool T sp ev s1"
    have t2: "es_tracer ?s2 = record_tools T sp (tools_of [ev]) (es_tracer s)"
      using note_tool_shape [of sp ev s1] t1 by simp
    have rest: ?thesis if "consume T st cb sp evs tail r ?s2 = (out, s')" for r
      using Cons.IH [OF that] unfolding t2 by (rule seen_tools_Cons)
    have stop: ?thesis if "out = Inl e" "es_tracer s' = es_tracer ?s2 \<or>
        (\<exists>er. out = Inl (AgentRunFailed er) \<and> es_tracer s' = op_finish T sp PNone (Some (error_text er)) (es_tracer ?s2))" for e
      using that unfolding t2 seen_tools_def tools_of_simps(2) [of ev evs]
      by (intro exI [of _ "tools_of [ev]"]) auto
    show ?thesis
    proof (cases x)
      case (Some e)
      with Cons.prems False d t1 have "out = Inl e" "es_tracer s' = record_tools T sp [] (es_tracer s)" by simp_all
      then show ?thesis unfolding seen_tools_def by (intro exI [of _ "[]"]) auto
    next
      case None
      with Cons.prems False d rest stop show ?thesis
        by (auto simp: Let_def split: if_splits option.splits)
    qed
  qed
qed

lemma turn_shape:
  assumes rt: "run_turn T reg a s = (out, s')" and be: "resolve_backend reg (ta_backend_name a) = Inr be"
    and start: "op_start_trace T ''agent-turn'' (turn_dims a) (PStr (ta_prompt a)) (ta_trace_metadata a) (es_tracer s) = (sp, t1)"
    and open1: "\<not> ended sp t1"
  shows "\<exists>tools text err. es_tracer s' = op_finish T sp text err (record_tools T sp tools t1) \<and> outcome_fits out text err
    \<and> prefix tools (tools_of (fst (be_run be (turn_request (be_capabilities be) a))))
    \<and> ((\<exists>r. out = Inr r) \<longrightarrow> tools = tools_of (fst (be_run be (turn_request (be_capabilities be) a))))"
proof -
  let ?caps = "be_capabilities be"
  let ?stream = "be_run be (turn_request ?caps a)"
  let ?s1 = "s\<lparr>es_tracer := t1, es_runs := es_runs s @ [(ta_backend_name a, turn_request ?caps a)]\<rparr>"
  have s1: "es_tracer ?s1 = t1" by simp
  have lv: "leave_span T sp (turn_body T ?caps ?stream (ta_on_event a) sp ?s1) = (out, s')"
    using rt be start by (simp add: run_turn_def Let_def)
  obtain c s2 where c: "consume T (supports_streaming ?caps) (ta_on_event a) sp (fst ?stream) (snd ?stream) None ?s1 = (c, s2)"
    by fastforce
  from consume_shape [OF c] obtain tools where sh: "es_tracer s2 = record_tools T sp tools t1
       \<or> (\<exists>er. c = Inl (AgentRunFailed er) \<and> es_tracer s2 = op_finish T sp PNone (Some (error_text er)) (record_tools T sp tools t1))"
    and pre: "prefix tools (tools_of (fst ?stream))" "(\<exists>r. c = Inr r) \<longrightarrow> tools = tools_of (fst ?stream)"
    unfolding s1 seen_tools_def by blast
  have o: "\<not> ended sp (record_tools T sp tools t1)" using open1 by (simp add: record_tools_ended)
  have fin: "op_exit T sp x (op_finish T sp tx er t) = op_finish T sp tx er t" for x tx er t by (rule exit_after_finish)
  show ?thesis
  proof (cases c)
    case (Inl e)
    with c lv have out: "out = Inl e" and s': "es_tracer s' = op_exit T sp (Some e) (es_tracer s2)"
      by (auto simp: turn_body_def leave_span_def)
    from sh show ?thesis
    proof
      assume "es_tracer s2 = record_tools T sp tools t1"
      with o s' have "es_tracer s' = op_finish T sp PNone (Some (exn_str e)) (record_tools T sp tools t1)" by (simp add: exit_open)
      with pre show ?thesis by (intro exI) (auto simp: out outcome_fits_def)
    next
      assume "\<exists>er. c = Inl (AgentRunFailed er) \<and> es_tracer s2 = op_finish T sp PNone (Some (error_text er)) (record_tools T sp tools t1)"
      then obtain er where "e = AgentRunFailed er" "es_tracer s' = op_finish T sp PNone (Some (error_text er)) (record_tools T sp tools t1)"
        using Inl s' fin by auto
      with pre show ?thesis by (intro exI) (auto simp: out outcome_fits_def)
    qed
  next
    case (Inr v)
    with sh have s2: "es_tracer s2 = record_tools T sp tools t1" by auto
    show ?thesis
    proof (cases v)
      case None
      with c lv Inr s2 fin have "out = Inl (RuntimeError (no_terminal_text @ '', contract violated''))"
          "es_tracer s' = op_finish T sp PNone (Some no_terminal_text) (record_tools T sp tools t1)"
        by (auto simp: turn_body_def leave_span_def)
      with pre Inr show ?thesis by (intro exI) (auto simp: outcome_fits_def)
    next
      case (Some r)
      with c lv Inr s2 fin have "out = Inr r" "es_tracer s' = op_finish T sp (final_text r) None (record_tools T sp tools t1)"
        by (auto simp: turn_body_def leave_span_def)
      with pre Inr show ?thesis by (intro exI) (auto simp: outcome_fits_def)
    qed
  qed
qed

end

lemma otel_record_tools:
  "record_tools (otel_ops fr) (length t) tools (t @ [s]) =
     t @ [s\<lparr>os_calls := os_calls s @ List.map (\<lambda>x. tool_event_call fr (tool_name x) (tool_input x) (tool_output x)) tools\<rparr>]"
  by (induction tools arbitrary: s) (simp_all add: record_tools_def otel_record_tool_def span_calls_def)

lemma serialise_bound: "serialise fr v = (text, c) \<Longrightarrow> length text \<le> MAX_ATTR_LEN"
  by (auto simp: serialise_def Let_def split: if_splits)

lemma tool_value_bound:
  assumes "(k, PStr tx) \<in> set (tool_value fr key v)" shows "length tx \<le> MAX_ATTR_LEN"
proof (cases "serialise fr v")
  case (Pair s c)
  with assms have "tx = s" by (auto simp: tool_value_def split: if_splits)
  with serialise_bound [OF Pair] show ?thesis by simp
qed

text \<open>C32. A turn with the OpenTelemetry tracer adds one span, whatever the backend does. Its attributes are the
  dimensions that are set; then come the backend's completed tool calls, in order (all of them when the
  turn succeeds), whose input and output texts are at most 4096
  characters long, and then, once, the status, the output or the error of the turn, and \<open>end\<close>, after which
  nothing is written. The environment and the trace metadata do not enter.\<close>

theorem otel_turn_span:
  assumes "run_turn (otel_ops fr) reg a s = (out, s')" and "resolve_backend reg (ta_backend_name a) = Inr be"
  shows "\<exists>(tools :: tool_event list) text err.
    es_tracer s' = es_tracer s @ [\<lparr>os_name = ''agent-turn'', os_attributes = dim_attrs fr (turn_dims a),
      os_calls = List.map (\<lambda>x. tool_event_call fr (tool_name x) (tool_input x) (tool_output x)) tools @ finish_calls fr text err,
      os_ended = True\<rparr>]
    \<and> outcome_fits out text err
    \<and> prefix tools (tools_of (fst (be_run be (turn_request (be_capabilities be) a))))
    \<and> ((\<exists>r. out = Inr r) \<longrightarrow> tools = tools_of (fst (be_run be (turn_request (be_capabilities be) a))))
    \<and> (\<forall>x \<in> set tools. \<forall>n kvs k v. tool_event_call fr (tool_name x) (tool_input x) (tool_output x) = AddEvent n kvs
          \<longrightarrow> (k, PStr v) \<in> set kvs \<longrightarrow> k \<noteq> ''tool.name'' \<longrightarrow> length v \<le> 4096)"
proof -
  let ?s0 = "\<lparr>os_name = ''agent-turn'', os_attributes = dim_attrs fr (turn_dims a), os_calls = [], os_ended = False\<rparr>"
  have start: "op_start_trace (otel_ops fr) ''agent-turn'' (turn_dims a) (PStr (ta_prompt a)) (ta_trace_metadata a) (es_tracer s)
      = (length (es_tracer s), es_tracer s @ [?s0])"
    by (simp add: otel_start_trace_def)
  from oteltr.turn_shape [OF assms start oteltr.start_open [OF start]]
  obtain tools tx err where t: "es_tracer s' = otel_finish fr (length (es_tracer s)) tx err
      (record_tools (otel_ops fr) (length (es_tracer s)) tools (es_tracer s @ [?s0]))" and o: "outcome_fits out tx err"
    and pre: "prefix tools (tools_of (fst (be_run be (turn_request (be_capabilities be) a))))"
      "(\<exists>r. out = Inr r) \<longrightarrow> tools = tools_of (fst (be_run be (turn_request (be_capabilities be) a)))"
    by auto
  have span: "es_tracer s' = es_tracer s @ [\<lparr>os_name = ''agent-turn'', os_attributes = dim_attrs fr (turn_dims a),
      os_calls = List.map (\<lambda>x. tool_event_call fr (tool_name x) (tool_input x) (tool_output x)) tools @ finish_calls fr tx err,
      os_ended = True\<rparr>]"
    by (simp add: t otel_record_tools otel_finish_def)
  have cut: "length v \<le> 4096"
    if "tool_event_call fr n i out = AddEvent m kvs" "(k, PStr v) \<in> set kvs" "k \<noteq> ''tool.name''" for n i out m kvs k v
    using that tool_value_bound [of k v fr] by (auto simp: tool_event_call_def MAX_ATTR_LEN_def)
  have bound: "\<forall>x \<in> set tools. \<forall>n kvs k v. tool_event_call fr (tool_name x) (tool_input x) (tool_output x) = AddEvent n kvs
          \<longrightarrow> (k, PStr v) \<in> set kvs \<longrightarrow> k \<noteq> ''tool.name'' \<longrightarrow> length v \<le> 4096" using cut by blast
  show ?thesis
    by (rule exI [of _ tools], rule exI [of _ tx], rule exI [of _ err], intro conjI span o pre bound)
qed

theorem otel_turn_span_witness:
  "\<exists>sp. es_tracer (snd (run_turn (otel_ops (\<lambda>_. ''0.5'')) demo_registry demo_args \<lparr>es_tracer = [], es_runs = [], es_seen = []\<rparr>)) = [sp]
    \<and> os_ended sp \<and> last (os_calls sp) = EndSpan"
proof -
  obtain out s' where "run_turn (otel_ops (\<lambda>_. ''0.5'')) demo_registry demo_args \<lparr>es_tracer = [], es_runs = [], es_seen = []\<rparr> = (out, s')"
    by fastforce
  with otel_turn_span [OF this demo_resolve] show ?thesis by (auto simp: finish_calls_def)
qed

end
