(* ===== verification/Command_Line.thy ===== *)
theory Command_Line
  imports Backends Url_Text
begin

section \<open>The command line\<close>

text \<open>
  \<open>claw_engine/__main__.py\<close> from the words of the command line on: the option table that \<open>main\<close> declares,
  \<open>argparse\<close> (CPython 3.11) on a table whose options take one value or show the help, and the exit status. The
  text of the usage and of the help, which depend on the width of the terminal, are parameters. The lemmas show that
  every value the parser returns stands in the command line, and that every value can be given.
\<close>

subsection \<open>Options\<close>

datatype arg_action = Show_help | Store string

definition cli_options :: "(string \<times> arg_action) list" where
  "cli_options = [(''-h'', Show_help), (''--help'', Show_help), (''--backend'', Store ''backend''),
                  (''--prompt'', Store ''prompt''), (''--cwd'', Store ''cwd'')]"

datatype parser_exit = Help_shown | Usage_error string

text \<open>How a word is read: a plain word, the two dashes, a word that looks like an option and is none, or an
  option by its full name, with what is attached to it and whether an equals sign stands between them.\<close>

datatype arg_class = Plain | Dashes | Unknown | Opt string arg_action "(bool \<times> string) option"

definition negative_number :: "string \<Rightarrow> bool" where
  \<comment> \<open>\<open>^-\d+$|^-\d*\.\d+$\<close>, where the dollar also matches before a final newline\<close>
  "negative_number s =
     (let r = drop 1 s; b = (if r \<noteq> [] \<and> last r = char_of (10 :: nat) then butlast r else r)
      in case partition_at CHR ''.'' b of (i, dot, f) \<Rightarrow>
           take 1 s = ''-'' \<and> (b \<noteq> [] \<and> list_all is_digit b \<or> dot \<and> list_all is_digit i \<and> f \<noteq> [] \<and> list_all is_digit f))"

definition attached :: "string \<Rightarrow> string \<times> (bool \<times> string) option" where
  "attached s = (case partition_at CHR ''='' s of (n, eq, v) \<Rightarrow> (n, if eq then Some (True, v) else None))"

definition option_tuples :: "string \<Rightarrow> arg_class list" where
  \<comment> \<open>\<open>_get_option_tuples\<close>: abbreviations of long options, values glued to a short one\<close>
  "option_tuples s =
     (if take 2 s = ''--''
      then case attached s of (p, e) \<Rightarrow> List.map (\<lambda>(n, a). Opt n a e) (filter (\<lambda>(n, a). prefix p n) cli_options)
      else List.map (\<lambda>(n, a). Opt n a (if n = take 2 s then Some (False, drop 2 s) else None))
             (filter (\<lambda>(n, a). n = take 2 s \<or> prefix s n) cli_options))"

fun option_name :: "arg_class \<Rightarrow> string" where
  "option_name (Opt n a e) = n"
| "option_name c = []"

definition parse_optional :: "string \<Rightarrow> parser_exit + arg_class" where
  "parse_optional s =
     (if take 1 s \<noteq> ''-'' then Inr Plain
      else case map_of cli_options s of Some a \<Rightarrow> Inr (Opt s a None)
      | None \<Rightarrow>
          if length s = 1 then Inr Plain
          else case attached s of (n, e) \<Rightarrow>
            (case (if e = None then None else map_of cli_options n) of Some a \<Rightarrow> Inr (Opt n a e)
             | None \<Rightarrow>
                 (case option_tuples s of
                    [] \<Rightarrow> if negative_number s \<or> CHR '' '' \<in> set s then Inr Plain else Inr Unknown
                  | [c] \<Rightarrow> Inr c
                  | cs \<Rightarrow> Inl (Usage_error (''ambiguous option: '' @ s @ '' could match '' @ join_with '', '' (List.map option_name cs))))))"

fun classify :: "string list \<Rightarrow> parser_exit + (arg_class \<times> string) list" where
  "classify [] = Inr []"
| "classify (s # ws) =
     (if s = ''--'' then Inr ((Dashes, s) # List.map (Pair Plain) ws)
      else res_bind (parse_optional s) (\<lambda>c. res_bind (classify ws) (\<lambda>cs. Inr ((c, s) # cs))))"

subsection \<open>Values\<close>

text \<open>\<open>-hx\<close> stands for \<open>-h -x\<close>: the tail is read flag by flag until one is no option. What is returned is
  the text an error complains about.\<close>

fun flag_tail :: "string \<Rightarrow> string option" where
  "flag_tail [] = None"
| "flag_tail (c # cs) =
     (if c = CHR ''-'' then Some (c # cs)
      else if map_of cli_options [CHR ''-'', c] = None then None
      else case cs of [] \<Rightarrow> None | d # ds \<Rightarrow> if d = CHR ''='' then Some ds else flag_tail cs)"

definition help_exit :: "string \<Rightarrow> (bool \<times> string) option \<Rightarrow> parser_exit" where
  "help_exit n e =
     (case (case e of None \<Rightarrow> None | Some (eq, v) \<Rightarrow> if eq \<or> take 2 n = ''--'' \<or> v = [] then Some v else flag_tail v) of
        None \<Rightarrow> Help_shown
      | Some v \<Rightarrow> Usage_error (''argument -h/--help: ignored explicit argument '' @ repr_str v))"

fun parse_known :: "(arg_class \<times> string) list \<Rightarrow> string dict \<Rightarrow> string list \<Rightarrow> parser_exit + string dict \<times> string list" where
  "parse_known [] vs extras = Inr (vs, extras)"
| "parse_known ((Opt n Show_help e, s) # cs) vs extras = Inl (help_exit n e)"
| "parse_known ((Opt n (Store d) (Some (eq, v)), s) # cs) vs extras = parse_known cs (dict_set d v vs) extras"
| "parse_known ((Opt n (Store d) None, s) # (Plain, v) # cs) vs extras = parse_known cs (dict_set d v vs) extras"
| "parse_known ((Opt n (Store d) None, s) # cs) vs extras = Inl (Usage_error (''argument --'' @ d @ '': expected one argument''))"
| "parse_known ((c, s) # cs) vs extras = parse_known cs vs (extras @ [s])"

definition parse_args :: "string \<Rightarrow> string list \<Rightarrow> parser_exit + cli_args" where
  "parse_args cwd argv =
     res_bind (classify argv) (\<lambda>cs. res_bind (parse_known cs [] []) (\<lambda>(vs, extras).
       case dict_get vs ''prompt'' of
         None \<Rightarrow> Inl (Usage_error ''the following arguments are required: --prompt'')
       | Some p \<Rightarrow>
           if extras \<noteq> [] then Inl (Usage_error (''unrecognized arguments: '' @ join_with '' '' extras))
           else Inr \<lparr>cli_backend = (case dict_get vs ''backend'' of None \<Rightarrow> ''codex'' | Some b \<Rightarrow> b), cli_prompt = p,
                     cli_cwd = (case dict_get vs ''cwd'' of None \<Rightarrow> cwd | Some d \<Rightarrow> d)\<rparr>))"

record parser_text =
  pt_usage :: "string list"
  pt_help :: "string list"

definition cli_entry :: "parser_text \<Rightarrow> machine \<Rightarrow> string list \<Rightarrow> (exn + int) \<times> console" where
  \<comment> \<open>\<open>SystemExit\<close> carries the status, \<open>argparse\<close> raises it with 0 after the help and with 2 after an error\<close>
  "cli_entry X M argv =
     (case parse_args (mc_getcwd M) argv of
        Inl Help_shown \<Rightarrow> (Inr 0, \<lparr>con_stdout = pt_help X, con_stderr = []\<rparr>)
      | Inl (Usage_error m) \<Rightarrow> (Inr 2, \<lparr>con_stdout = [], con_stderr = pt_usage X @ [''claw_engine: error: '' @ m]\<rparr>)
      | Inr a \<Rightarrow> cli_main M a)"

subsection \<open>Every value stands in the command line\<close>


definition given :: "string list \<Rightarrow> string \<Rightarrow> string \<Rightarrow> bool" where
  \<comment> \<open>the option, perhaps abbreviated, stands in the words with the value attached or as the next word\<close>
  "given ws d v \<longleftrightarrow> (\<exists>pre k post. strict_prefix ''--'' k \<and> prefix k (''--'' @ d)
     \<and> (ws = pre @ (k @ ''='' @ v) # post \<or> ws = pre @ k # v # post))"

definition reads_as :: "arg_class \<Rightarrow> string \<Rightarrow> bool" where
  "reads_as c s \<longleftrightarrow> (case c of
       Opt n (Store d) e \<Rightarrow> n = ''--'' @ d
         \<and> (\<exists>k. strict_prefix ''--'' k \<and> prefix k n \<and> s = k @ (case e of None \<Rightarrow> [] | Some (_, v) \<Rightarrow> ''='' @ v))
     | _ \<Rightarrow> True)"

lemma reads_as_simps [simp]:
  "reads_as Plain s" "reads_as Dashes s" "reads_as Unknown s" "reads_as (Opt n Show_help e) s"
  by (simp_all add: reads_as_def)

lemma given_Cons [intro]: "given ws d v \<Longrightarrow> given (w # ws) d v"
  unfolding given_def by (metis append_Cons)

lemma given_attached [intro]: "strict_prefix ''--'' k \<Longrightarrow> prefix k (''--'' @ d) \<Longrightarrow> given ((k @ ''='' @ v) # ws) d v"
  unfolding given_def by (metis append_Nil)

lemma given_next [intro]: "strict_prefix ''--'' k \<Longrightarrow> prefix k (''--'' @ d) \<Longrightarrow> given (k # v # ws) d v"
  unfolding given_def by (metis append_Nil)

lemma attached_parts: "attached s = (n, e) \<Longrightarrow> s = n @ (case e of None \<Rightarrow> [] | Some (_, v) \<Rightarrow> ''='' @ v)"
proof -
  have "\<exists>t. s = takeWhile (\<lambda>x. x \<noteq> CHR ''='') s @ CHR ''='' # t \<and> t = drop 1 (dropWhile (\<lambda>x. x \<noteq> CHR ''='') s)" if "CHR ''='' \<in> set s"
    using that by (induction s) auto
  moreover have "takeWhile (\<lambda>x. x \<noteq> CHR ''='') s = s" if "CHR ''='' \<notin> set s"
    using that by (simp add: takeWhile_eq_all_conv) metis
  ultimately show "attached s = (n, e) \<Longrightarrow> s = n @ (case e of None \<Rightarrow> [] | Some (_, v) \<Rightarrow> ''='' @ v)"
    by (auto simp: attached_def partition_at_def split: if_splits)
qed

lemma attached_value [simp]: "CHR ''='' \<notin> set n \<Longrightarrow> attached (n @ CHR ''='' # v) = (n, Some (True, v))"
proof -
  assume "CHR ''='' \<notin> set n"
  then have "\<forall>x \<in> set n. x \<noteq> CHR ''=''" by metis
  then show ?thesis by (simp add: attached_def partition_at_def takeWhile_append2 dropWhile_append2)
qed

lemma cli_stores: "map_of cli_options n = Some (Store d) \<Longrightarrow> n = ''--'' @ d \<and> d \<noteq> []"
  by (auto simp: cli_options_def split: if_splits)

lemma cli_stores_set: "(n, Store d) \<in> set cli_options \<Longrightarrow> n = ''--'' @ d \<and> d \<noteq> []"
  by (auto simp: cli_options_def)

lemma option_tuple_reads:
  assumes "option_tuples s = [Opt n (Store d) e]" and "2 \<le> length s"
  shows "reads_as (Opt n (Store d) e) s"
proof (cases "take 2 s = ''--''")
  case True
  obtain p e' where a: "attached s = (p, e')" by fastforce
  from assms True a have e: "e' = e" and f: "map (\<lambda>(n, a). Opt n a e) (filter (\<lambda>(n, a). prefix p n) cli_options) = [Opt n (Store d) e]"
    by (auto simp: option_tuples_def)
  from f have "Opt n (Store d) e \<in> set (map (\<lambda>(n, a). Opt n a e) (filter (\<lambda>(n, a). prefix p n) cli_options))" by simp
  then have "(n, Store d) \<in> set cli_options" and p: "prefix p n" by auto
  then have n: "n = ''--'' @ d" using cli_stores_set by blast
  have s: "s = p @ (case e of None \<Rightarrow> [] | Some (_, v) \<Rightarrow> ''='' @ v)" using attached_parts [OF a] by (simp add: e)
  have "prefix ''--'' p"
    using True s p n by (cases p; cases "tl p") (auto split: option.splits)
  moreover have "p \<noteq> ''--''"
    using f by (auto simp: cli_options_def)
  ultimately show ?thesis using p s n unfolding reads_as_def by (auto simp: strict_prefix_def)
next
  case False
  then have "Opt n (Store d) e \<in> set (option_tuples s)" using assms by simp
  with False have "(n, Store d) \<in> set cli_options" and c: "n = take 2 s \<or> prefix s n" by (auto simp: option_tuples_def)
  then have n: "n = ''--'' @ d" and "d \<noteq> []" by (auto dest: cli_stores_set)
  have "2 < length n" using n \<open>d \<noteq> []\<close> by (cases d) auto
  then have "n \<noteq> take 2 s" by auto
  with c have "prefix s n" by simp
  then have "take 2 s = take 2 n" using assms(2) by (auto simp: prefix_def)
  with False n show ?thesis by simp
qed

lemma parse_optional_cases:
  assumes "parse_optional s = Inr c"
  obtains (word) "c = Plain \<or> c = Unknown"
    | (full) a where "map_of cli_options s = Some a" "c = Opt s a None"
    | (equals) n v a where "attached s = (n, Some v)" "map_of cli_options n = Some a" "c = Opt n a (Some v)"
    | (short) "option_tuples s = [c]" "2 \<le> length s"
proof (cases "take 1 s = ''-'' \<and> map_of cli_options s = None \<and> length s \<noteq> 1")
  case True
  obtain n e where at: "attached s = (n, e)" by fastforce
  have "2 \<le> length s" using True by (cases s; cases "tl s") auto
  then show ?thesis
    using assms True at short equals word unfolding parse_optional_def
    by (cases e; cases "map_of cli_options n"; cases "option_tuples s"; cases "tl (option_tuples s)") (auto split: if_splits)
next
  case False
  then show ?thesis using assms word full unfolding parse_optional_def by (auto split: if_splits option.splits)
qed

lemma parse_optional_reads: "parse_optional s = Inr c \<Longrightarrow> reads_as c s"
proof (erule parse_optional_cases)
  show "reads_as c s" if "c = Plain \<or> c = Unknown" using that by auto
next
  fix a assume "map_of cli_options s = Some a" "c = Opt s a None"
  then show "reads_as c s"
    using cli_stores [of s] by (cases a) (auto simp: reads_as_def strict_prefix_def)
next
  fix n v a assume "attached s = (n, Some v)" "map_of cli_options n = Some a" "c = Opt n a (Some v)"
  then show "reads_as c s"
    using cli_stores [of n] attached_parts [of s n "Some v"] by (cases a) (auto simp: reads_as_def strict_prefix_def)
next
  assume "option_tuples s = [c]" "2 \<le> length s"
  then show "reads_as c s"
    using option_tuple_reads [of s] by (cases c; cases "case c of Opt n a e \<Rightarrow> a | _ \<Rightarrow> Show_help") auto
qed

lemma classify_reads: "classify ws = Inr cs \<Longrightarrow> map snd cs = ws \<and> list_all (\<lambda>(c, s). reads_as c s) cs"
proof (induction ws arbitrary: cs)
  case (Cons s ws)
  then show ?case
    by (auto simp: parse_optional_reads o_def list_all_iff split: if_splits)
qed simp

lemma parse_known_given:
  "parse_known cs vs ex = Inr (vs', ex') \<Longrightarrow> list_all (\<lambda>(c, s). reads_as c s) cs \<Longrightarrow> dict_get vs' d = Some v
     \<Longrightarrow> dict_get vs d = Some v \<or> given (map snd cs) d v"
proof (induction cs vs ex rule: parse_known.induct)
  case (3 n k eq w s cs vs ex)
  then have "dict_get (dict_set k w vs) d = Some v \<or> given (map snd cs) d v" and "reads_as (Opt n (Store k) (Some (eq, w))) s"
    by simp_all
  then show ?case using given_attached [of _ k w "map snd cs"]
    by (auto simp: reads_as_def split: if_splits)
next
  case (4 n k s w cs vs ex)
  then have "dict_get (dict_set k w vs) d = Some v \<or> given (map snd cs) d v" and "reads_as (Opt n (Store k) None) s"
    by simp_all
  then show ?case using given_next [of _ k w "map snd cs"]
    by (auto simp: reads_as_def split: if_splits)
qed auto

lemma parse_args_given:
  assumes "parse_args cwd ws = Inr a"
  shows "given ws ''prompt'' (cli_prompt a)"
    and "cli_backend a = ''codex'' \<or> given ws ''backend'' (cli_backend a)"
    and "cli_cwd a = cwd \<or> given ws ''cwd'' (cli_cwd a)"
proof -
  obtain cs vs where cs: "classify ws = Inr cs" "parse_known cs [] [] = Inr (vs, [])"
    and a: "dict_get vs ''prompt'' = Some (cli_prompt a)"
      "cli_backend a = (case dict_get vs ''backend'' of None \<Rightarrow> ''codex'' | Some b \<Rightarrow> b)"
      "cli_cwd a = (case dict_get vs ''cwd'' of None \<Rightarrow> cwd | Some d \<Rightarrow> d)"
    using assms by (fastforce simp: parse_args_def split: option.splits if_splits)
  have given: "given ws d v" if "dict_get vs d = Some v" for d v
    using parse_known_given [OF cs(2) _ that] classify_reads [OF cs(1)] by simp
  from given [OF a(1)] show "given ws ''prompt'' (cli_prompt a)" .
  show "cli_backend a = ''codex'' \<or> given ws ''backend'' (cli_backend a)"
    "cli_cwd a = cwd \<or> given ws ''cwd'' (cli_cwd a)" using a(2,3) given by (auto split: option.splits)
qed

subsection \<open>Giving values\<close>

lemma parse_optional_value:
  "d \<in> {''backend'', ''prompt'', ''cwd''} \<Longrightarrow> parse_optional (''--'' @ d @ ''='' @ v) = Inr (Opt (''--'' @ d) (Store d) (Some (True, v)))"
  using attached_value [of "''--'' @ d" v] by (auto simp: parse_optional_def cli_options_def)

lemma classify_append:
  "classify ws = Inr cs \<Longrightarrow> Dashes \<notin> fst ` set cs \<Longrightarrow> classify us = Inr ds \<Longrightarrow> classify (ws @ us) = Inr (cs @ ds)"
proof (induction ws arbitrary: cs)
  case (Cons s ws)
  then show ?case by (auto split: if_splits)
qed simp

lemma parse_known_extras: "parse_known cs vs ex = Inr (vs', ex') \<Longrightarrow> prefix ex ex'"
  by (induction cs vs ex rule: parse_known.induct) (auto dest: append_prefixD)

lemma parse_known_no_dashes: "parse_known cs vs ex = Inr (vs', []) \<Longrightarrow> Dashes \<notin> fst ` set cs"
  by (induction cs vs ex rule: parse_known.induct) (auto dest: parse_known_extras)

lemma parse_known_append:
  "parse_known cs vs ex = Inr (vs', ex') \<Longrightarrow> parse_known (cs @ ds) vs ex = parse_known ds vs' ex'"
  by (induction cs vs ex rule: parse_known.induct) auto

lemma later_value_wins:
  assumes "parse_args cwd ws = Inr a"
  shows "parse_args cwd (ws @ [''--prompt='' @ p]) = Inr (a\<lparr>cli_prompt := p\<rparr>)"
proof -
  obtain cs vs q where cs: "classify ws = Inr cs" "parse_known cs [] [] = Inr (vs, [])" and q: "dict_get vs ''prompt'' = Some q"
    and a: "a = \<lparr>cli_backend = (case dict_get vs ''backend'' of None \<Rightarrow> ''codex'' | Some b \<Rightarrow> b), cli_prompt = q,
      cli_cwd = (case dict_get vs ''cwd'' of None \<Rightarrow> cwd | Some d \<Rightarrow> d)\<rparr>"
    using assms by (fastforce simp: parse_args_def split: option.splits if_splits)
  have one: "classify [''--prompt='' @ p] = Inr [(Opt ''--prompt'' (Store ''prompt'') (Some (True, p)), ''--prompt='' @ p)]"
    using parse_optional_value [of "''prompt''" p] by simp
  from classify_append [OF cs(1) parse_known_no_dashes [OF cs(2)] one] parse_known_append [OF cs(2)]
  show ?thesis by (simp add: parse_args_def a)
qed

lemma values_round_trip:
  "parse_args cwd [''--backend='' @ b, ''--prompt='' @ p, ''--cwd='' @ d] = Inr \<lparr>cli_backend = b, cli_prompt = p, cli_cwd = d\<rparr>"
  using parse_optional_value [of "''backend''" b] parse_optional_value [of "''prompt''" p] parse_optional_value [of "''cwd''" d]
  by (simp add: parse_args_def)

lemma cli_main_status: "fst (cli_main M a) = Inr n \<Longrightarrow> n = 0 \<or> n = 1"
  by (auto simp: cli_main_def split: sum.splits exn.splits)


text \<open>C26. Words and values. The words \<open>--backend=b --prompt=p --cwd=d\<close> hand exactly these values to the run, whatever the
  strings are, dashes, blanks and equals signs included. For any words: the help ends with status 0; an error ends
  with status 2, says so on standard error and prints nothing on standard output; otherwise the status is not 2, the
  prompt stands in the words behind its option or an abbreviation of it, so do the backend and the directory unless
  they are the defaults, and a prompt added at the end replaces the earlier one and nothing else.\<close>

theorem cli_reads_words:
  shows "(\<forall>b p d. cli_entry X M [''--backend='' @ b, ''--prompt='' @ p, ''--cwd='' @ d]
            = cli_main M \<lparr>cli_backend = b, cli_prompt = p, cli_cwd = d\<rparr>)
    \<and> (case cli_entry X M ws of (status, con) \<Rightarrow>
         case parse_args (mc_getcwd M) ws of
           Inl Help_shown \<Rightarrow> status = Inr 0 \<and> con_stderr con = []
         | Inl (Usage_error m) \<Rightarrow> status = Inr 2 \<and> con_stdout con = [] \<and> con_stderr con \<noteq> []
         | Inr a \<Rightarrow> status \<noteq> Inr 2 \<and> given ws ''prompt'' (cli_prompt a)
             \<and> (cli_backend a = ''codex'' \<or> given ws ''backend'' (cli_backend a))
             \<and> (cli_cwd a = mc_getcwd M \<or> given ws ''cwd'' (cli_cwd a))
             \<and> (\<forall>p. parse_args (mc_getcwd M) (ws @ [''--prompt='' @ p]) = Inr (a\<lparr>cli_prompt := p\<rparr>)))"
proof (intro conjI allI)
  show "cli_entry X M [''--backend='' @ b, ''--prompt='' @ p, ''--cwd='' @ d]
      = cli_main M \<lparr>cli_backend = b, cli_prompt = p, cli_cwd = d\<rparr>" for b p d
    by (simp only: cli_entry_def values_round_trip sum.case)
next
  let ?p = "parse_args (mc_getcwd M) ws"
  show "case cli_entry X M ws of (status, con) \<Rightarrow> case ?p of
           Inl Help_shown \<Rightarrow> status = Inr 0 \<and> con_stderr con = []
         | Inl (Usage_error m) \<Rightarrow> status = Inr 2 \<and> con_stdout con = [] \<and> con_stderr con \<noteq> []
         | Inr a \<Rightarrow> status \<noteq> Inr 2 \<and> given ws ''prompt'' (cli_prompt a)
             \<and> (cli_backend a = ''codex'' \<or> given ws ''backend'' (cli_backend a))
             \<and> (cli_cwd a = mc_getcwd M \<or> given ws ''cwd'' (cli_cwd a))
             \<and> (\<forall>p. parse_args (mc_getcwd M) (ws @ [''--prompt='' @ p]) = Inr (a\<lparr>cli_prompt := p\<rparr>))"
  proof (cases ?p)
    case (Inl e)
    then show ?thesis by (cases e) (simp_all add: cli_entry_def)
  next
    case (Inr a)
    obtain status con where m: "cli_main M a = (status, con)" by fastforce
    have "status \<noteq> Inr 2" using cli_main_status [of M a 2] m by auto
    then show ?thesis
      using parse_args_given [OF Inr] later_value_wins [OF Inr] by (simp only: cli_entry_def Inr m sum.case prod.case) blast
  qed
qed

end
