(* ===== verification/Demo.thy ===== *)
theory Demo
  imports Bridge_Properties Channels Skills Git_Source Sqlite_Store Otel
begin

section \<open>The demonstration script\<close>

text \<open>
  \<open>examples/demo.py\<close>: one message from the webhook to the reply, the trace it leaves, skill provisioning and the
  workflow bridge, wired by hand from the parts of the engine. What the script prints is the report that \<open>script_main\<close>
  returns; a failing \<open>assert\<close>, like every other exception, ends it. The machine is what the script finds: its
  temporary directory, the decoder of JSON, the text of a float, the random identifiers and the clocks. The file of
  the SQLite store is the state of the store model and no file of the file system.
\<close>

record script_machine =
  xm_tmp :: string
  xm_loads :: json_loads
  xm_float :: "pyfloat \<Rightarrow> string"
  xm_session_uuid :: string
  xm_run_uuid :: string
  xm_next_uuid :: string
  xm_now :: rat
  xm_clock :: "nat \<Rightarrow> rat"

subsection \<open>The parts\<close>

definition script_run :: "agent_run_request \<Rightarrow> event_stream" where
  "script_run req =
     (let text = PStr (''echo: '' @ req_prompt req) in
      ([(agent_event MESSAGE_COMPLETED)\<lparr>ev_text := text\<rparr>,
        (agent_event TURN_COMPLETED)\<lparr>ev_backend_thread_id := PStr ''bt-1'',
          ev_result := Some (agent_run_result (PStr ''bt-1'') text no_usage)\<rparr>], None))"

definition script_backend :: backend where
  "script_backend =
     \<lparr>be_name = ''fake'',
      be_capabilities = \<lparr>supports_resume = True, supports_streaming = False, supports_tools = False,
                         supports_mcp = False, auth_modes = [''none'']\<rparr>,
      be_run = script_run,
      be_healthcheck = \<lparr>health_ok = True, health_detail = ''''\<rparr>\<rparr>"

definition script_identity :: memory_identity where
  "script_identity =
     \<lparr>mi_users = [''alice@example.com'' \<mapsto>
        \<lparr>user_id = ''u1'', display_name = ''Alice'', roles = [''dev''], default_workspace = Some ''ws1''\<rparr>],
      mi_authorized = [''u1'' \<mapsto> [''ws1'']], mi_denied_skills = [''u1'' \<mapsto> [''dangerous-skill'']],
      mi_denied_workflows = [''u1'' \<mapsto> []]\<rparr>"

definition plaintext :: string where
  "plaintext = ''PLAINTEXT-SECRET-DO-NOT-LEAK''"

definition script_config :: layered_config where
  "script_config =
     \<lparr>lc_global = [(''REGION'', ''global''), (''TIER'', ''g'')], lc_workspace = [''ws1'' \<mapsto> [(''REGION'', ''id'')]]\<rparr>"

definition script_secrets :: "string \<Rightarrow> string dict option" where
  "script_secrets = [''ws1'' \<mapsto> [(''JIRA_TOKEN'', plaintext)]]"

definition script_user_config :: user_envs where
  "script_user_config = [''u1'' \<mapsto> [''ws1'' \<mapsto> [(''USER_TAG'', ''alice'')]]]"

definition script_spec :: workspace_spec where
  "script_spec =
     \<lparr>sp_allowed_skills = [''abtest'', ''dag_tracer''], sp_allowed_workflows = [''scan_logistics''],
      sp_backend_name = Some ''fake'', sp_max_rounds = Some 20\<rparr>"

definition script_resolver :: "script_machine \<Rightarrow> workspace_resolver" where
  "script_resolver m =
     memory_resolver script_config script_secrets (path_join (xm_tmp m) ''workspaces'') [''ws1'' \<mapsto> script_spec] (Some script_user_config)"

definition path_mkdir_new :: "fpath \<Rightarrow> fs \<Rightarrow> (exn + unit) \<times> fs" where
  \<comment> \<open>\<open>mkdir(parents=True)\<close>: the directory itself must be new\<close>
  "path_mkdir_new cs fs =
     (case mkdir cs fs of
        (Inr _, fs1) \<Rightarrow> (Inr (), fs1)
      | (Inl e, fs1) \<Rightarrow>
          (if exn_type e = ''FileNotFoundError'' \<and> cs \<noteq> []
           then (case path_mkdir (butlast cs) fs1 of
                   (Inl e', fs2) \<Rightarrow> (Inl e', fs2)
                 | (Inr _, fs2) \<Rightarrow> mkdir cs fs2)
           else (Inl e, fs1)))"

definition script_assert :: "bool \<Rightarrow> string \<Rightarrow> exn + unit" where
  "script_assert b message = (if b then Inr () else Inl (AssertionError message))"

definition script_workspace :: "script_machine \<Rightarrow> exn + string \<times> resolved_workspace" where
  \<comment> \<open>the text that is printed, and the workspace; its one sensitive key is the only order of the set\<close>
  "script_workspace m =
     res_bind (resolve (script_resolver m) ''ws1'' (Some ''u1''))
       (\<lambda>ws. let shown = workspace_repr [''JIRA_TOKEN''] ws in
         case dict_get (rw_env ws) ''JIRA_TOKEN'' of
           None \<Rightarrow> Inl (KeyError ''JIRA_TOKEN'')
         | Some v \<Rightarrow>
             res_bind (script_assert (v = plaintext) '''')
               (\<lambda>_. res_bind (script_assert (\<not> sublist ''PLAINTEXT-SECRET'' shown) '''') (\<lambda>_. Inr (shown, ws))))"

subsection \<open>The message\<close>

definition script_registry :: engine_registry where
  "script_registry = register_backend ''fake'' (\<lambda>_. Inr script_backend) empty_registry"

definition script_secret :: string where
  "script_secret = ''wh-secret''"

definition script_payload :: pyv where
  "script_payload =
     PDict [(''user'', PStr ''alice@example.com''), (''thread'', PStr ''thread-A''), (''text'', PStr ''hello world''),
            (''message_id'', PStr ''m1'')]"

definition script_body :: string where
  "script_body = json_dumps no_float script_payload"

definition script_sign :: "string \<Rightarrow> string" where
  "script_sign body = hexdigest (hmac_sha256 (utf8 script_secret) (utf8 body))"

type_synonym script_world = "(channel_state, sqlite_db, memory_tracer) run_world"

definition script_world_init :: script_world where
  "script_world_init =
     \<lparr>rn_channel = new_channel, rn_conv = \<lparr>cw_store = sqlite_init, cw_engine = \<lparr>es_tracer = [], es_runs = [], es_seen = []\<rparr>\<rparr>\<rparr>"

definition script_message :: "script_machine \<Rightarrow> (exn + agent_run_result) \<times> script_world" where
  "script_message m =
     handle_raw (webhook_ops (xm_float m) (xm_loads m) script_secret) (identity_route (memory_identity_ops script_identity))
       (script_resolver m) (sqlite_store_ops (xm_float m)) memory_tracer_ops script_registry ''fake'' (xm_session_uuid m) (xm_now m)
       script_body [(''X-Signature'', script_sign script_body)] script_world_init"

definition last_or :: "exn \<Rightarrow> 'a list \<Rightarrow> exn + 'a" where
  "last_or e xs = (if xs = [] then Inl e else Inr (last xs))"

definition dims_repr :: "trace_dims \<Rightarrow> string" where
  "dims_repr d =
     ''TraceDims(workspace_id='' @ py_repr no_float (dim_workspace_id d) @ '', user_id='' @ py_repr no_float (dim_user_id d)
     @ '', session_id='' @ py_repr no_float (dim_session_id d) @ '', backend_name='' @ py_repr no_float (dim_backend_name d) @ '')''"

definition script_trace :: "memory_tracer \<Rightarrow> exn + trace_record" where
  "script_trace t =
     (case t of
        [] \<Rightarrow> Inl (OtherError ''IndexError'' ''list index out of range'')
      | rec # _ \<Rightarrow>
          res_bind (script_assert (\<not> sublist ''PLAINTEXT-SECRET'' (py_repr no_float (PDict (tr_metadata rec))))
              ''secret leaked into trace metadata!'')
            (\<lambda>_. res_bind (script_assert (\<not> sublist ''PLAINTEXT-SECRET'' (dims_repr (tr_dims rec))) ''secret leaked into trace dims!'')
              (\<lambda>_. Inr rec)))"

subsection \<open>Skills\<close>

fun write_skills :: "fpath \<Rightarrow> string list \<Rightarrow> fs \<Rightarrow> (exn + unit) \<times> fs" where
  "write_skills src [] fs = (Inr (), fs)"
| "write_skills src (name # names) fs =
     (case path_mkdir_new (src @ [name]) fs of
        (Inl e, fs1) \<Rightarrow> (Inl e, fs1)
      | (Inr _, fs1) \<Rightarrow>
          (case write_file (src @ [name, ''SKILL.md'']) (''# '' @ name) fs1 of
             (Inl e, fs2) \<Rightarrow> (Inl e, fs2)
           | (Inr _, fs2) \<Rightarrow> write_skills src names fs2))"

definition script_skills :: "script_machine \<Rightarrow> resolved_workspace \<Rightarrow> fs \<Rightarrow> (exn + provision_result) \<times> fs" where
  "script_skills m ws fs =
     (let src = path_join (xm_tmp m) ''skills_src'' in
      case write_skills (path_parts src) [''abtest'', ''dag_tracer'', ''dangerous-skill''] fs of
        (Inl e, fs1) \<Rightarrow> (Inl e, fs1)
      | (Inr _, fs1) \<Rightarrow>
          (case mi_resolve_user script_identity ''alice@example.com'' of
             Inl e \<Rightarrow> (Inl e, fs1)
           | Inr u \<Rightarrow> provision (xm_loads m) (local_source src) (memory_identity_ops script_identity) DEFAULT_SKILLS_SUBDIR ws u fs1))"

subsection \<open>Workflows\<close>

definition scan_logistics :: workflow_handler where
  "scan_logistics params =
     WfReturn (PDict [(''scanned'', case dict_get params ''region'' of None \<Rightarrow> PStr ''id'' | Some v \<Rightarrow> v), (''items'', PInt 1048)])"

definition script_workflows :: engine_registry where
  "script_workflows =
     register_workflow ''forbidden_wf'' (\<lambda>_. WfReturn (PStr ''should not run'')) (register_workflow ''scan_logistics'' scan_logistics empty_registry)"

definition not_allowed :: "exn + 'a \<Rightarrow> exn + exn option" where
  \<comment> \<open>\<open>try: ... except WorkflowNotAllowed as e\<close>: what was caught\<close>
  "not_allowed r = (case r of Inr _ \<Rightarrow> Inr None | Inl (WorkflowNotAllowed w n) \<Rightarrow> Inr (Some (WorkflowNotAllowed w n)) | Inl e \<Rightarrow> Inl e)"

definition deny_workflows :: "string \<Rightarrow> string list \<Rightarrow> memory_identity \<Rightarrow> memory_identity" where
  \<comment> \<open>\<open>identity._denied_workflows[uid] = names\<close>\<close>
  "deny_workflows uid names m = m\<lparr>mi_denied_workflows := (mi_denied_workflows m)(uid \<mapsto> names)\<rparr>"

definition script_bridge :: "script_machine \<Rightarrow> exn + tool_invocation_result \<times> workflow_run \<times> exn option \<times> exn option" where
  "script_bridge m =
     res_bind (mi_resolve_user script_identity ''alice@example.com'')
       (\<lambda>u. let E = \<lparr>we_clock = xm_clock m, we_float = xm_float m\<rparr>; pr = \<lparr>pr_user = u, pr_workspace_id = ''ws1''\<rparr>;
                svc = inline_service E memory_wf_ops script_workflows;
                I = memory_identity_ops script_identity;
                w = \<lparr>wf_store = Map.empty, wf_heap = [], wf_ticks = 0\<rparr>
            in case bridge_invoke I (script_resolver m) (svc (xm_run_uuid m)) ''scan_logistics'' (Some [(''region'', PStr ''id'')]) pr w of
                 (Inl e, _) \<Rightarrow> Inl e
               | (Inr started, w1) \<Rightarrow>
                   res_bind (bridge_get I (script_resolver m) memory_wf_ops (ti_run_id started) pr w1)
                     (\<lambda>run. case bridge_invoke I (script_resolver m) (svc (xm_next_uuid m)) ''forbidden_wf'' (Some []) pr w1 of
                        (second, w2) \<Rightarrow>
                          res_bind (not_allowed second)
                            (\<lambda>forbidden. res_bind
                              (not_allowed (bridge_get (memory_identity_ops (deny_workflows ''u1'' [''scan_logistics''] script_identity))
                                 (script_resolver m) memory_wf_ops (ti_run_id started) pr w2))
                              (\<lambda>revoked. Inr (started, run, forbidden, revoked)))))"

subsection \<open>The script\<close>

record script_report =
  sr_workspace :: string
  sr_reply :: pyv
  sr_outbound :: "reply_target \<times> pyv"
  sr_trace :: trace_record
  sr_provision :: provision_result
  sr_invoked :: tool_invocation_result
  sr_run :: workflow_run
  sr_forbidden :: "exn option"
  sr_revoked :: "exn option"

definition script_answer :: "script_machine \<Rightarrow> exn + agent_run_result \<times> (reply_target \<times> pyv) \<times> trace_record" where
  "script_answer m =
     (case script_message m of
        (Inl e, w) \<Rightarrow> Inl e
      | (Inr r, w) \<Rightarrow>
          res_bind (last_or (OtherError ''IndexError'' ''list index out of range'') (sent_texts (rn_channel w)))
            (\<lambda>out. res_bind (script_trace (es_tracer (cw_engine (rn_conv w)))) (\<lambda>rec. Inr (r, out, rec))))"

definition script_main :: "script_machine \<Rightarrow> fs \<Rightarrow> (exn + script_report) \<times> fs" where
  "script_main m fs =
     (case path_mkdir_new (path_parts (xm_tmp m) @ [''workspaces'', ''ws1'']) fs of
        (Inl e, fs1) \<Rightarrow> (Inl e, fs1)
      | (Inr _, fs1) \<Rightarrow>
          (case res_bind (script_workspace m) (\<lambda>(shown, ws). res_bind (script_answer m) (\<lambda>a. Inr (shown, ws, a))) of
             Inl e \<Rightarrow> (Inl e, fs1)
           | Inr (shown, ws, r, out, rec) \<Rightarrow>
               (case script_skills m ws fs1 of
                  (Inl e, fs2) \<Rightarrow> (Inl e, fs2)
                | (Inr pr, fs2) \<Rightarrow>
                    (res_bind (script_bridge m)
                       (\<lambda>(started, run, forbidden, revoked).
                          Inr \<lparr>sr_workspace = shown, sr_reply = final_text r, sr_outbound = out, sr_trace = rec, sr_provision = pr,
                               sr_invoked = started, sr_run = run, sr_forbidden = forbidden, sr_revoked = revoked\<rparr>), fs2))))"

subsection \<open>What the script does\<close>

definition script_ws :: resolved_workspace where
  "script_ws =
     \<lparr>rw_workspace_id = ''ws1'', rw_cwd = ''/tmp/t/workspaces/ws1'',
      rw_env = [(''REGION'', ''id''), (''TIER'', ''g''), (''USER_TAG'', ''alice''), (''JIRA_TOKEN'', plaintext)],
      rw_sensitive_keys = {''JIRA_TOKEN''}, rw_allowed_skills = [''abtest'', ''dag_tracer''],
      rw_allowed_workflows = [''scan_logistics''], rw_backend_name = Some ''fake'', rw_max_rounds = Some 20\<rparr>"

definition script_shown :: string where
  "script_shown = workspace_repr [''JIRA_TOKEN''] script_ws"

definition tmp_disk :: fs where
  "tmp_disk = [([''tmp''], FDir), ([''tmp'', ''t''], FDir)]"

lemma script_resolves:
  assumes "xm_tmp m = ''/tmp/t''" shows "resolve (script_resolver m) ''ws1'' (Some ''u1'') = Inr script_ws"
proof -
  have "resolve (memory_resolver script_config script_secrets (path_join ''/tmp/t'' ''workspaces'') [''ws1'' \<mapsto> script_spec] (Some script_user_config))
     ''ws1'' (Some ''u1'') = Inr script_ws"
    by code_simp
  then show ?thesis by (simp add: script_resolver_def assms)
qed

lemma script_shown_redacted: "\<not> sublist ''PLAINTEXT-SECRET'' script_shown"
  by code_simp

lemma script_workspace_ok:
  assumes "xm_tmp m = ''/tmp/t''" shows "script_workspace m = Inr (script_shown, script_ws)"
proof -
  have "dict_get (rw_env script_ws) ''JIRA_TOKEN'' = Some plaintext" by code_simp
  then show ?thesis
    by (simp add: script_workspace_def script_resolves [OF assms] script_assert_def script_shown_def [symmetric] script_shown_redacted Let_def)
qed

lemma script_mkdir: "path_mkdir_new [''tmp'', ''t'', ''workspaces'', ''ws1''] tmp_disk
   = (Inr (), tmp_disk @ [([''tmp'', ''t'', ''workspaces''], FDir), ([''tmp'', ''t'', ''workspaces'', ''ws1''], FDir)])"
  by code_simp

definition ws_disk :: fs where
  "ws_disk = tmp_disk @ [([''tmp'', ''t'', ''workspaces''], FDir), ([''tmp'', ''t'', ''workspaces'', ''ws1''], FDir)]"

definition script_user :: user where
  "script_user = \<lparr>user_id = ''u1'', display_name = ''Alice'', roles = [''dev''], default_workspace = Some ''ws1''\<rparr>"

definition src_disk :: fs where
  "src_disk = snd (write_skills [''tmp'', ''t'', ''skills_src''] [''abtest'', ''dag_tracer'', ''dangerous-skill''] ws_disk)"

lemma script_skills_written: "fst (write_skills [''tmp'', ''t'', ''skills_src''] [''abtest'', ''dag_tracer'', ''dangerous-skill''] ws_disk) = Inr ()"
  by code_simp


lemma script_user_ok: "mi_resolve_user script_identity ''alice@example.com'' = Inr script_user"
  by code_simp

definition script_result :: pyv where
  "script_result = PDict [(''scanned'', PStr ''id''), (''items'', PInt 1048)]"


definition script_wf :: "memory_wf_store wf_world" where
  "script_wf = \<lparr>wf_store = Map.empty, wf_heap = [], wf_ticks = 0\<rparr>"

lemma script_scan_run:
  "\<exists>w r. inline_run E memory_wf_ops script_workflows uuid ''scan_logistics'' (Some [(''region'', PStr ''id'')]) None (Some ''ws1'') script_wf
     = (Inr r, w) \<and> get_run memory_wf_ops uuid w = Inr r \<and> wr_id r = uuid \<and> wr_status r = SUCCESS \<and> wr_result r = script_result
       \<and> wr_owner r = Some ''ws1'' \<and> wr_name r = ''scan_logistics''"
proof -
  have h: "resolve_workflow script_workflows ''scan_logistics'' = Inr scan_logistics" by (simp add: script_workflows_def)
  have p: "scan_logistics (dict_of [(''region'', PStr ''id'')]) = WfReturn script_result"
    by (simp add: scan_logistics_def script_result_def dict_of_def dict_set_def dict_get_def)
  show ?thesis
    by (simp add: inline_run_def service_run_def h execute_def create_run_def update_run_def script_wf_def new_run_def get_run_def save_run_def
      memwf_save_def memwf_get_def tick_def heap_get_def with_status_def with_result_def p Let_def)
qed


lemma script_permissions:
  "mi_can_access_workspace script_identity script_user ''ws1''"
  "mi_can_run_workflow script_identity script_user ''ws1'' ''scan_logistics''"
  "mi_can_access_workspace (deny_workflows ''u1'' [''scan_logistics''] script_identity) script_user ''ws1''"
  "\<not> mi_can_run_workflow (deny_workflows ''u1'' [''scan_logistics''] script_identity) script_user ''ws1'' ''scan_logistics''"
  by code_simp+

lemma script_ws_sel: "rw_allowed_workflows script_ws = [''scan_logistics'']" "user_id script_user = ''u1''"
  by (simp_all add: script_ws_def script_user_def)

lemma script_bridge_ok:
  assumes "xm_tmp m = ''/tmp/t''"
  shows "\<exists>run. script_bridge m = Inr (\<lparr>ti_run_id = xm_run_uuid m, ti_status = SUCCESS\<rparr>, run,
      Some (WorkflowNotAllowed ''ws1'' ''forbidden_wf''), Some (WorkflowNotAllowed ''ws1'' ''scan_logistics''))
    \<and> wr_status run = SUCCESS \<and> wr_result run = script_result \<and> wr_owner run = Some ''ws1''"
proof -
  let ?E = "\<lparr>we_clock = xm_clock m, we_float = xm_float m\<rparr>"
  obtain w r where r: "inline_run ?E memory_wf_ops script_workflows (xm_run_uuid m) ''scan_logistics'' (Some [(''region'', PStr ''id'')]) None
      (Some ''ws1'') \<lparr>wf_store = Map.empty, wf_heap = [], wf_ticks = 0\<rparr> = (Inr r, w)" and g: "get_run memory_wf_ops (xm_run_uuid m) w = Inr r"
    and sel: "wr_id r = xm_run_uuid m" "wr_status r = SUCCESS" "wr_result r = script_result" "wr_owner r = Some ''ws1''" "wr_name r = ''scan_logistics''"
    using script_scan_run [of ?E "xm_run_uuid m"] unfolding script_wf_def by blast
  show ?thesis
    by (simp add: script_bridge_def script_user_ok Let_def bridge_invoke_def check_workflow_def inline_service_def r g sel bridge_get_def
        script_permissions script_ws_sel script_resolves [OF assms] not_allowed_def)
qed


definition script_inbound :: incoming_message where
  "script_inbound = \<lparr>im_channel = ''webhook'', im_raw_user_ref = ''alice@example.com'', im_thread_key = ''thread-A'', im_text = ''hello world'',
     im_message_id = PStr ''m1'', im_attachments = [], im_is_command = False\<rparr>"

lemma script_admitted:
  assumes "xm_loads m script_body = Inr script_payload"
  shows "admit (webhook_ops (xm_float m) (xm_loads m) script_secret) (identity_route (memory_identity_ops script_identity)) script_body
     [(''X-Signature'', script_sign script_body)] = Inr (script_inbound, \<lparr>rd_workspace_id = ''ws1'', rd_user_id = Some ''u1''\<rparr>)"
proof -
  have "lower ''X-Signature'' = ''x-signature''" by code_simp
  then have "webhook_verify script_secret script_body [(''X-Signature'', script_sign script_body)] = Inr ()"
    by (simp add: webhook_verify_iff lower_headers_def dict_of_def dict_set_def dict_get_def script_sign_def webhook_signature_def)
  moreover have "webhook_parse (xm_float m) (xm_loads m) script_body = Inr script_inbound"
    by (simp add: webhook_parse_def assms script_payload_def webhook_fields_def webhook_attachments_def
        as_value_error_def dict_get_def dget_def starts_with_def script_inbound_def)
  moreover have "identity_route (memory_identity_ops script_identity) script_inbound = Inr \<lparr>rd_workspace_id = ''ws1'', rd_user_id = Some ''u1''\<rparr>"
    by code_simp
  ultimately show ?thesis by (simp add: admit_def)
qed

definition script_reply :: pyv where
  "script_reply = PStr ''echo: hello world''"

definition script_args :: conv_args where
  "script_args = conv_args_of (gateway_args_of ''fake'' script_inbound \<lparr>rd_workspace_id = ''ws1'', rd_user_id = Some ''u1''\<rparr>) script_ws"

lemma script_args_sel [simp]:
  "ca_key script_args = (''ws1'', ''webhook'', ''thread-A'')" "ca_workspace_id script_args = ''ws1''" "ca_channel script_args = ''webhook''"
  "ca_text script_args = ''hello world''" "ca_backend_name script_args = ''fake''" "ca_max_rounds script_args = 20"
  "ca_message_id script_args = PStr ''m1''" "ca_model script_args = None" "ca_user_id script_args = Some ''u1''"
  "ca_trace_metadata script_args = Some [(''redacted_env'', str_dict (redacted_env script_ws))]"
  "ca_cwd script_args = rw_cwd script_ws" "ca_env script_args = rw_env script_ws"
  by (simp_all add: script_args_def conv_args_of_def gateway_args_of_def script_inbound_def backend_or_def rounds_or_def
      ca_key_def) (simp_all add: script_ws_def)

lemma script_first_session:
  "sqlite_get_or_create uuid key bn 20 sqlite_init
     = (Inr (new_session uuid key bn 20), \<lparr>db_sessions = [session_to_row (new_session uuid key bn 20)], db_processed = []\<rparr>)"
  by (simp add: sqlite_get_or_create_def sqlite_init_def sql_select_key_def sql_insert_session_def sql_int_def new_session_def Let_def)

lemma script_recorded:
  "\<exists>d. record_turn (sqlite_store_ops fr) now (new_session uuid key ''fake'' 20) script_args
     (agent_run_result (PStr ''bt-1'') script_reply no_usage) db = (Inr (agent_run_result (PStr ''bt-1'') script_reply no_usage), d)"
  by (simp add: record_turn_def sqlite_save_def sqlite_mark_processed_def sql_int_def new_session_def with_turn_def agent_run_result_def)

lemma script_turn_ok:
  "\<exists>es rec. run_turn memory_tracer_ops script_registry (turn_args_of (new_session uuid (''ws1'', ''webhook'', ''thread-A'') ''fake'' 20) script_args)
       \<lparr>es_tracer = [], es_runs = [], es_seen = []\<rparr> = (Inr (agent_run_result (PStr ''bt-1'') script_reply no_usage), es)
     \<and> es_tracer es = [rec] \<and> tr_finished rec \<and> tr_output rec = script_reply
     \<and> tr_dims rec = \<lparr>dim_workspace_id = PStr ''ws1'', dim_user_id = PStr ''u1'', dim_session_id = PStr uuid, dim_backend_name = PStr ''fake''\<rparr>
     \<and> tr_metadata rec = [(''redacted_env'', str_dict (redacted_env script_ws))]"
  by (simp add: run_turn_def turn_args_of_def new_session_def script_registry_def turn_request_def script_backend_def turn_dims_def
      script_run_def turn_body_def leave_span_def note_tool_def mem_start_trace_def Let_def script_reply_def
      mem_finish_def mem_exit_def upd_at_def dget_def dict_get_def)

lemma script_gateway_ok:
  assumes "xm_tmp m = ''/tmp/t''"
  shows "\<exists>cw rec. gateway_handle (script_resolver m) (sqlite_store_ops fr) memory_tracer_ops script_registry uuid now
      (gateway_args_of ''fake'' script_inbound \<lparr>rd_workspace_id = ''ws1'', rd_user_id = Some ''u1''\<rparr>) (rn_conv script_world_init)
    = (Inr (agent_run_result (PStr ''bt-1'') script_reply no_usage), cw) \<and> es_tracer (cw_engine cw) = [rec]
      \<and> tr_finished rec \<and> tr_output rec = script_reply
      \<and> tr_dims rec = \<lparr>dim_workspace_id = PStr ''ws1'', dim_user_id = PStr ''u1'', dim_session_id = PStr uuid, dim_backend_name = PStr ''fake''\<rparr>
      \<and> tr_metadata rec = [(''redacted_env'', str_dict (redacted_env script_ws))]"
proof -
  let ?x = "new_session uuid (''ws1'', ''webhook'', ''thread-A'') ''fake'' 20"
  obtain es rec where es: "run_turn memory_tracer_ops script_registry (turn_args_of ?x script_args) \<lparr>es_tracer = [], es_runs = [], es_seen = []\<rparr>
      = (Inr (agent_run_result (PStr ''bt-1'') script_reply no_usage), es)" and rec: "es_tracer es = [rec]" "tr_finished rec" "tr_output rec = script_reply"
     "tr_dims rec = \<lparr>dim_workspace_id = PStr ''ws1'', dim_user_id = PStr ''u1'', dim_session_id = PStr uuid, dim_backend_name = PStr ''fake''\<rparr>"
     "tr_metadata rec = [(''redacted_env'', str_dict (redacted_env script_ws))]"
    using script_turn_ok by blast
  have ids: "ga_workspace_id (gateway_args_of ''fake'' script_inbound \<lparr>rd_workspace_id = ''ws1'', rd_user_id = Some ''u1''\<rparr>) = ''ws1''"
    "ga_user_id (gateway_args_of ''fake'' script_inbound \<lparr>rd_workspace_id = ''ws1'', rd_user_id = Some ''u1''\<rparr>) = Some ''u1''"
    by (simp_all add: gateway_args_of_def)
  obtain d where d: "record_turn (sqlite_store_ops fr) now ?x script_args (agent_run_result (PStr ''bt-1'') script_reply no_usage)
      \<lparr>db_sessions = [session_to_row ?x], db_processed = []\<rparr> = (Inr (agent_run_result (PStr ''bt-1'') script_reply no_usage), d)"
    using script_recorded by blast
  have rounds: "ss_max_rounds ?x = 20" "ss_round_count ?x = 0" by (simp_all add: new_session_def)
  have new: "already_processed (sqlite_store_ops fr) ?x script_args \<lparr>db_sessions = [session_to_row ?x], db_processed = []\<rparr>
      = (Inr False, \<lparr>db_sessions = [session_to_row ?x], db_processed = []\<rparr>)"
    by (simp add: already_processed_def sqlite_is_processed_def)
  show ?thesis
    by (simp add: gateway_handle_def ids script_resolves [OF assms] script_args_def [symmetric] conv_handle_def script_first_session new rounds
        script_world_init_def es d rec)
qed

definition uuid_char :: "char \<Rightarrow> bool" where
  "uuid_char c \<longleftrightarrow> c \<in> set ''0123456789abcdef-''"

definition uuid_text :: "string \<Rightarrow> bool" where
  \<comment> \<open>what \<open>str(uuid4())\<close> consists of\<close>
  "uuid_text s \<longleftrightarrow> list_all uuid_char s"

lemma uuid_repr:
  assumes "uuid_text s" shows "CHR ''P'' \<notin> set (repr_str s)"
proof -
  let ?quotes = "[char_of (39 :: nat), char_of (34 :: nat)]"
  have "list_all (\<lambda>q. q \<noteq> CHR ''P'' \<and> list_all (\<lambda>c. CHR ''P'' \<notin> set (repr_char q c)) ''0123456789abcdef-'') ?quotes"
    by code_simp
  then have q: "q \<noteq> CHR ''P''" and c: "uuid_char c \<Longrightarrow> CHR ''P'' \<notin> set (repr_char q c)" if "q \<in> set ?quotes" for q c
    using that unfolding list_all_iff uuid_char_def by blast+
  have "CHR ''P'' \<notin> set (concat (map (repr_char q) s))" if "q \<in> set ?quotes" for q
    using assms c [OF that] unfolding uuid_text_def by (induction s) auto
  with q show ?thesis by (auto simp: repr_str_def Let_def)
qed

lemma script_answer_ok:
  assumes "xm_tmp m = ''/tmp/t''" and "xm_loads m script_body = Inr script_payload"
    and "uuid_text (xm_session_uuid m)"
  shows "\<exists>rec. script_answer m = Inr (agent_run_result (PStr ''bt-1'') script_reply no_usage, (reply_to script_inbound, script_reply), rec)
     \<and> tr_finished rec \<and> tr_output rec = script_reply"
proof -
  obtain cw rec where cw: "gateway_handle (script_resolver m) (sqlite_store_ops (xm_float m)) memory_tracer_ops script_registry (xm_session_uuid m) (xm_now m)
      (gateway_args_of ''fake'' script_inbound \<lparr>rd_workspace_id = ''ws1'', rd_user_id = Some ''u1''\<rparr>) (rn_conv script_world_init)
    = (Inr (agent_run_result (PStr ''bt-1'') script_reply no_usage), cw)" and t: "es_tracer (cw_engine cw) = [rec]" "tr_finished rec" "tr_output rec = script_reply"
    and dims: "tr_dims rec = \<lparr>dim_workspace_id = PStr ''ws1'', dim_user_id = PStr ''u1'', dim_session_id = PStr (xm_session_uuid m), dim_backend_name = PStr ''fake''\<rparr>"
    and md: "tr_metadata rec = [(''redacted_env'', str_dict (redacted_env script_ws))]"
    using script_gateway_ok [OF assms(1)] by blast
  have "\<not> sublist ''PLAINTEXT-SECRET'' (py_repr no_float (PDict (tr_metadata rec)))"
    unfolding md by code_simp
  moreover have fixed: "CHR ''P'' \<notin> set (repr_str ''ws1'')" "CHR ''P'' \<notin> set (repr_str ''u1'')" "CHR ''P'' \<notin> set (repr_str ''fake'')" by code_simp+
  have "\<not> sublist ''PLAINTEXT-SECRET'' (dims_repr (tr_dims rec))"
  proof -
    have "CHR ''P'' \<notin> set (dims_repr (tr_dims rec))"
      using uuid_repr [OF assms(3)] fixed by (simp add: dims dims_repr_def)
    then show ?thesis by (auto simp: sublist_def)
  qed
  ultimately have tr: "script_trace [rec] = Inr rec" by (simp add: script_trace_def script_assert_def del: py_repr.simps)
  have ch: "rn_channel script_world_init = new_channel" "sent_texts new_channel = []" by (simp_all add: script_world_init_def new_channel_def)
  have "script_message m = (Inr (agent_run_result (PStr ''bt-1'') script_reply no_usage),
      script_world_init\<lparr>rn_conv := cw, rn_channel := new_channel\<lparr>sent_texts := [(reply_to script_inbound, script_reply)]\<rparr>\<rparr>)"
  proof -
    have "mg_send_text (webhook_ops (xm_float m) (xm_loads m) script_secret) = ch_send_text" by (simp add: webhook_ops_def)
    then show ?thesis
      by (simp add: script_message_def handle_raw_def script_admitted [OF assms(2)] cw ch ch_send_text_def)
  qed
  then show ?thesis using t by (simp add: script_answer_def last_or_def tr)
qed

lemma script_skills_parts:
  assumes "xm_tmp m = ''/tmp/t''"
  shows "script_skills m script_ws ws_disk =
    provision (xm_loads m) (local_source ''/tmp/t/skills_src'') (memory_identity_ops script_identity) DEFAULT_SKILLS_SUBDIR script_ws script_user src_disk"
proof -
  have p: "path_join ''/tmp/t'' ''skills_src'' = ''/tmp/t/skills_src''" "path_parts ''/tmp/t/skills_src'' = [''tmp'', ''t'', ''skills_src'']"
    by code_simp+
  have "write_skills [''tmp'', ''t'', ''skills_src''] [''abtest'', ''dag_tracer'', ''dangerous-skill''] ws_disk = (Inr (), src_disk)"
    using script_skills_written by (simp add: src_disk_def prod_eq_iff)
  then show ?thesis by (simp add: script_skills_def assms p script_user_ok Let_def del: write_skills.simps)
qed

lemma script_skills_provisioned:
  "case provision loads (local_source ''/tmp/t/skills_src'') (memory_identity_ops script_identity) DEFAULT_SKILLS_SUBDIR script_ws script_user src_disk of
     (x, fs) \<Rightarrow> x = Inr \<lparr>pv_provisioned = [''abtest'', ''dag_tracer''], pv_denied = [], pv_missing = [], pv_invalid = [], pv_revoked = []\<rparr>
       \<and> stat fs [''tmp'', ''t'', ''workspaces'', ''ws1'', ''.agents'', ''skills'', ''abtest'', ''SKILL.md''] = Some (FFile ''# abtest'')
       \<and> stat fs [''tmp'', ''t'', ''workspaces'', ''ws1'', ''.agents'', ''skills'', ''dangerous-skill''] = None"
  by code_simp

text \<open>The script runs to its end, whatever the clocks and the identifiers are: no assertion fails, the reply, the trace,
  the skills and the workflow are as its comments say, the workflow outside the allow-list is refused, and the old run is
  hidden once the right to it is withdrawn.\<close>

theorem script_runs:
  assumes "xm_tmp m = ''/tmp/t''" and "xm_loads m script_body = Inr script_payload" and "uuid_text (xm_session_uuid m)"
  shows "case script_main m tmp_disk of
      (Inl e, fs) \<Rightarrow> False
    | (Inr r, fs) \<Rightarrow>
        \<not> sublist ''PLAINTEXT-SECRET'' (sr_workspace r)
        \<and> sr_reply r = script_reply
        \<and> sr_outbound r = (\<lparr>rt_channel = ''webhook'', rt_thread_key = ''thread-A'', rt_raw_user_ref = ''alice@example.com''\<rparr>, script_reply)
        \<and> tr_finished (sr_trace r) \<and> tr_output (sr_trace r) = script_reply
        \<and> pv_provisioned (sr_provision r) = [''abtest'', ''dag_tracer'']
        \<and> stat fs [''tmp'', ''t'', ''workspaces'', ''ws1'', ''.agents'', ''skills'', ''dangerous-skill''] = None
        \<and> ti_status (sr_invoked r) = SUCCESS \<and> wr_result (sr_run r) = script_result \<and> wr_owner (sr_run r) = Some ''ws1''
        \<and> sr_forbidden r = Some (WorkflowNotAllowed ''ws1'' ''forbidden_wf'')
        \<and> sr_revoked r = Some (WorkflowNotAllowed ''ws1'' ''scan_logistics'')"
proof -
  let ?out = "\<lparr>rt_channel = ''webhook'', rt_thread_key = ''thread-A'', rt_raw_user_ref = ''alice@example.com''\<rparr>"
  have parts: "path_parts ''/tmp/t'' = [''tmp'', ''t'']" by code_simp
  have made: "path_mkdir_new [''tmp'', ''t'', ''workspaces'', ''ws1''] tmp_disk = (Inr (), ws_disk)"
    using script_mkdir by (simp add: ws_disk_def)
  have to: "reply_to script_inbound = ?out" by (simp add: reply_to_def script_inbound_def)
  obtain rec where a: "script_answer m = Inr (agent_run_result (PStr ''bt-1'') script_reply no_usage, (?out, script_reply), rec)"
    and rec: "tr_finished rec" "tr_output rec = script_reply"
    using script_answer_ok [OF assms] unfolding to by blast
  obtain x fs where p: "script_skills m script_ws ws_disk = (x, fs)" by fastforce
  have x: "x = Inr \<lparr>pv_provisioned = [''abtest'', ''dag_tracer''], pv_denied = [], pv_missing = [], pv_invalid = [], pv_revoked = []\<rparr>"
    "stat fs [''tmp'', ''t'', ''workspaces'', ''ws1'', ''.agents'', ''skills'', ''dangerous-skill''] = None"
    using script_skills_provisioned [of "xm_loads m"] unfolding script_skills_parts [OF assms(1), symmetric] p by simp_all
  obtain run where b: "script_bridge m = Inr (\<lparr>ti_run_id = xm_run_uuid m, ti_status = SUCCESS\<rparr>, run,
      Some (WorkflowNotAllowed ''ws1'' ''forbidden_wf''), Some (WorkflowNotAllowed ''ws1'' ''scan_logistics''))"
    and run: "wr_result run = script_result" "wr_owner run = Some ''ws1''"
    using script_bridge_ok [OF assms(1)] by blast
  show ?thesis
    by (simp add: script_main_def assms(1) parts made script_workspace_ok [OF assms(1)] a p x b run rec script_shown_redacted agent_run_result_def)
qed

end
