(* ===== verification/Spec2Isabelle.thy ===== *)
theory Spec2Isabelle
  imports Store_Agreement Context_Properties Bridge_Properties Backend_Properties Skill_Properties Git_Properties Openbao_Properties Sqlalchemy_Tables Sqlalchemy_Service Sqlalchemy_Engine Otel Command_Line Demo
begin

text \<open>
  A model of claw_engine, an engine that runs coding agents for chat users: a message comes in on a channel, is
  verified and routed to a workspace, becomes a turn of a session, and an agent backend answers it. All paths
  below are under \<open>src/claw_engine/\<close>.

  \<^bold>\<open>Parts and theories.\<close> An operation of the code is one definition with the name of the method; its state is an
  argument and comes back with the result. A raised exception is the left side of a sum; \<open>exn\<close> (\<open>Errors\<close>) has one
  constructor per exception class of the code. A Python protocol is a record of operations (\<open>..._ops\<close>) with a locale
  that states its contract, interpreted on every implementation.

  \<^item> \<open>Prelude\<close>, \<open>Values\<close>, \<open>Decoded\<close>, \<open>Url_Text\<close>: results, text, dictionaries, unchecked JSON values (\<open>pyv\<close>), format
    strings and URLs - what the program uses of Python and its standard library.
  \<^item> \<open>Runtime\<close>, \<open>Errors\<close>, \<open>Registry\<close>: \<open>engine/runtime/contracts.py\<close>, the exceptions, \<open>engine/bootstrap.py\<close>.
  \<^item> \<open>Observability\<close>, \<open>Otel\<close>: the tracer protocol with the recording, the silent and the OpenTelemetry tracer
    (\<open>engine/observability/\<close>, \<open>adapters/observability/otel/tracer.py\<close>). A span of OpenTelemetry is the list of the
    calls made on it.
  \<^item> \<open>Engine\<close>, \<open>Engine_Trace\<close>: \<open>Engine.run_turn\<close> (\<open>engine/orchestration/engine.py\<close>): a turn over any backend and any
    tracer, and what it leaves in the trace.
  \<^item> \<open>Sessions\<close>, \<open>Memory_Store\<close>, \<open>Sqlite_Store\<close>, \<open>Sql_Validation\<close>, \<open>Sqlalchemy_Store\<close> with \<open>_Properties\<close> and
    \<open>_Tables\<close>, \<open>Store_Agreement\<close>, \<open>Sqlalchemy_Service\<close>: the session store protocol as a locale over a map specification, its three
    implementations, and the theorem that clients cannot tell them apart.
  \<^item> \<open>Sqlalchemy_Engine\<close>: the double-checked lock around the engine of the SQLAlchemy store, threads as positions in
    \<open>_ensure_engine\<close> and \<open>_engine_and_tables\<close> that take one step at a time in any order.
  \<^item> \<open>Conversation\<close>, \<open>Conversation_History\<close>, \<open>Conversation_Properties\<close>: \<open>ConversationService.handle\<close> over any store,
    and whole histories of messages.
  \<^item> \<open>Identity\<close>: the identity protocol, the provider in memory and the Casbin adapter.
  \<^item> \<open>Context\<close>, \<open>Context_Properties\<close>, \<open>Openbao\<close>, \<open>Openbao_Properties\<close>: configuration, secrets, redaction, the workspace
    resolver, and the OpenBao secret provider.
  \<^item> \<open>Gateway\<close>, \<open>Sha256\<close>, \<open>Channels\<close>, \<open>Channel_Properties\<close>: the workspace gateway, HMAC, both channels, the routers and
    \<open>ChannelRunner.handle_raw\<close>, the path of a message through all the parts above.
  \<^item> \<open>Workflows\<close>, \<open>Workflow_Inline\<close>, \<open>Workflow_Threads\<close>, \<open>Workflow_Pool\<close>, \<open>Workflow_Life\<close>, \<open>Workflow_Properties\<close>: runs, their
    store and service; the inline executor as a function, the thread pool as a machine that advances one store
    access of one task at a time under any schedule.
  \<^item> \<open>Bridge\<close>, \<open>Bridge_Properties\<close>: \<open>WorkflowToolBridge\<close>, with the checks of workspace, permission and owner.
  \<^item> \<open>Backends\<close>, \<open>Backend_Properties\<close>, \<open>Echo\<close>, \<open>Command_Line\<close>: the codex and claude backends from the argument list to the
    last event, and \<open>__main__.py\<close> from the words of the command line to the exit status.
  \<^item> \<open>Filesystem\<close>, \<open>Skills\<close>, \<open>Skill_Properties\<close>, \<open>Git_Source\<close>, \<open>Git_Properties\<close>: a file system with links, the skill
    provisioner and the git skill source.

  \<^item> \<open>Demo\<close>: \<open>examples/demo.py\<close>, the script that wires the parts together, run to its end in the model.

  \<^bold>\<open>What the lemmas show.\<close> Turns: the trace mirrors the outcome and is closed on every path. Conversations: a message
  is handled once, the budget of rounds holds, a thread is resumed, a failed turn can be retried, over any store
  that keeps the contract. Stores: refinement of the map specification, on SQLite, in memory and over any database
  that \<open>sql_backend\<close> describes, within the keys and widths its tables declare; processes that race in \<open>get_or_create\<close> agree; threads that
  start a store at once share one engine and never block each other for good. Context: precedence of the layers,
  containment of paths, secrets only in the child's environment. Channels: no turn without a valid signature and an
  authorised user. Workflows: the life cycle of a run is an invariant of every schedule, threads give what inline
  execution gives, and when the workers have nothing left to do every accepted run is settled as its handler ended.
  Bridge: isolation of workspaces, revocation. Backends: the stream contract,
  and the inputs on which it breaks. Command line: every value can be given and none is made up. Skills: only permitted skills reach the disk, and nothing outside the
  destination is touched, on a disk where no link stands at, above or below the destination; a manifest that is
  damaged ends in one of the exceptions that are listed. What a link does is shown by examples (\<open>provision_follows_link\<close>,
  \<open>refresh_follows_repository_link\<close>).

  \<^bold>\<open>Bounds.\<close> A path resolves through at most 40 links (\<open>link_limit\<close>, the limit of Linux); the walks of \<open>Filesystem\<close>
  count it down, so they end without fuel. SQLite integers have 64 bits, those of other databases 32. SHA-256 works on
  32-bit words. \<open>goc_run\<close> ends after three transactions by the rank of its position; \<open>template_parse\<close> and \<open>scan_name\<close>
  consume their text.

  \<^bold>\<open>Parameters.\<close> What the repository does not contain is an argument: \<open>json.loads\<close>, the decimal text of a float, the
  clock, \<open>uuid4\<close>, the child process and what it prints, the git program, \<open>requests.get\<close>, \<open>make_url\<close>, the database
  behind SQLAlchemy, the Casbin enforcer, and the handlers and backends a client registers. Hypotheses on them
  (\<open>sql_backend\<close>, \<open>git_stays\<close>, \<open>skill_source\<close> and the like) state what their documentation promises; each is shown to hold
  of a concrete function.

  \<^bold>\<open>Not modelled.\<close> Text is Latin-1: a character is a code point below 256, and the Chinese words of messages are
  rendered in English. Of a float only its rational value, infinities and NaN count. \<open>argparse\<close> is the
  one of CPython 3.11, with the layout of its usage and help texts a parameter. A workflow handler (\<open>wf_prog\<close>) is a
  finite program of reports and writes to its dictionary that then returns or raises: one that loops forever, waits
  for another run or writes to the store by itself is outside the model, and so is a call of a library that never
  comes back. \<open>json.loads\<close> returns or raises JSONDecodeError (no RecursionError, no integer beyond the limit of
  digits), and in the attributes of a span a float has one text, where \<open>json.dumps\<close> and \<open>str\<close> differ on NaN and the
  infinities. MySQL's single-precision FLOAT breaks an assumption of \<open>sql_backend\<close>. File permissions and concurrent changes of the file
  system during one operation are left out, and so are a database that fails in the middle of a statement and
  the memory model of the interpreter (the steps of threads are sequentially consistent). The \<open>__init__.py\<close> files only
  re-export.
\<close>

section \<open>Secrets behind the channel\<close>

definition refuses :: "exn + http_response \<Rightarrow> bool" where
  \<comment> \<open>out of reach, too slow, or any status but found and not found\<close>
  "refuses a = (case a of Inl e \<Rightarrow> is_timeout e \<or> is_connection_error e | Inr r \<Rightarrow> hr_status r \<noteq> 200 \<and> hr_status r \<noteq> 404)"

lemma valid_segment: "validate_workspace_id ws = Inr () \<longleftrightarrow> segment_name ws"
  by (simp add: validate_workspace_id_def segment_name_def)

lemma source_answer:
  assumes "segment_name ws" and "openbao_url E p ws = Inr url"
  shows "\<exists>rq. openbao_source E http p ws = (case http rq of Inl e \<Rightarrow> on_request_error E p ws e | Inr r \<Rightarrow> on_response E p ws r)"
  using get_secrets_cases [OF assms, of http] unfolding openbao_source_def Let_def by (metis fst_conv)

lemma refused_source:
  assumes "segment_name ws" and "openbao_url E p ws = Inr url" and shown: "safe_url_for_error E p ws = Inr shown"
    and refuses: "\<And>rq. refuses (http rq)"
  shows "\<exists>m st c. openbao_source E http p ws = Inl (SecretProviderError m st c)"
proof -
  obtain rq where src: "openbao_source E http p ws
      = (case http rq of Inl e \<Rightarrow> on_request_error E p ws e | Inr r \<Rightarrow> on_response E p ws r)"
    using source_answer [OF assms(1,2)] by blast
  note fail = failure_shown [OF shown] SECRET_STAGES_def
  show ?thesis
    using refuses [of rq]
    by (cases "http rq") (auto simp: src refuses_def on_request_error_def on_response_def Let_def fail)
qed

lemma delivered_source:
  assumes "segment_name ws" and "openbao_url E p ws = Inr url"
    and "\<And>rq. http rq = Inr r" and "hr_status r = 200" and "data_data (hr_json r) = Some (PDict kvs)"
  shows "openbao_source E http p ws = Inr (List.map (\<lambda>(k, v). (k, py_str (pe_float E) v)) kvs)"
  using source_answer [OF assms(1,2), of http] assms(3-5)
  by (auto simp: on_response_def read_secrets_def simp flip: indexed_data)

text \<open>C40. A message whose workspace has its secrets in OpenBao, when the configured part of its environment resolves,
  its id is one path segment, and the URL of its secrets can be formed and shown. When OpenBao cannot be reached, is too slow or answers
  anything but found and not found, the message ends in a \<open>SecretProviderError\<close> after its signature and its route
  were accepted, and nothing has happened: no session, no round, no mark of the message, no run, no trace, no
  reply, so the message can be sent again. When it delivers, a run that the message starts has the configured
  environment overlaid with the secrets as strings.\<close>

theorem openbao_behind_runner:
  assumes "admit M route raw headers = Inr (msg, d)"
    and "rs_secrets rs = openbao_source E http p"
    and "base_env rs (rd_workspace_id d) (rd_user_id d) = Inr env"
    and "segment_name (rd_workspace_id d)" and "openbao_url E p (rd_workspace_id d) = Inr url"
    and "safe_url_for_error E p (rd_workspace_id d) = Inr shown"
    and "handle_raw M route rs S T reg db uuid now raw headers w = (out, w')"
  shows "((\<forall>rq. refuses (http rq)) \<longrightarrow> w' = w \<and> (\<exists>m st c. out = Inl (SecretProviderError m st c)))
    \<and> (\<forall>r kvs. (\<forall>rq. http rq = Inr r) \<and> hr_status r = 200 \<and> data_data (hr_json r) = Some (PDict kvs)
         \<longrightarrow> (\<forall>(name, req) \<in> set (drop (length (es_runs (cw_engine (rn_conv w)))) (es_runs (cw_engine (rn_conv w')))).
                req_env req = dict_update env (List.map (\<lambda>(k, v). (k, py_str (pe_float E) v)) kvs)))"
proof (intro conjI impI allI)
  let ?ws = "rd_workspace_id d" and ?g = "gateway_args_of db msg d"
  assume "\<forall>rq. refuses (http rq)"
  then obtain m st c where "rs_secrets rs ?ws = Inl (SecretProviderError m st c)"
    using refused_source [OF assms(4-6)] assms(2) by metis
  then have "resolve rs ?ws (rd_user_id d) = Inl (SecretProviderError m st c)"
    using assms(3,4) valid_segment [of ?ws] by (simp add: resolve_def)
  then have "gateway_handle rs S T reg uuid now ?g (rn_conv w) = (Inl (SecretProviderError m st c), rn_conv w)"
    by (simp add: gateway_handle_def gateway_args_of_def)
  then show "w' = w" and "\<exists>m st c. out = Inl (SecretProviderError m st c)"
    using assms(1,7) by (auto simp: handle_raw_def)
next
  let ?ws = "rd_workspace_id d" and ?g = "gateway_args_of db msg d"
  fix r kvs
  assume r: "(\<forall>rq. http rq = Inr r) \<and> hr_status r = 200 \<and> data_data (hr_json r) = Some (PDict kvs)"
  let ?sec = "List.map (\<lambda>(k, v). (k, py_str (pe_float E) v)) kvs"
  have "rs_secrets rs ?ws = Inr ?sec"
    using delivered_source [OF assms(4,5), of http r kvs] r assms(2) by simp
  then obtain rw where rw: "resolve rs ?ws (rd_user_id d) = Inr rw" "rw_env rw = dict_update env ?sec"
    using assms(3,4) valid_segment [of ?ws] by (auto simp: resolve_def Let_def)
  have conv: "rn_conv w' = snd (gateway_handle rs S T reg uuid now ?g (rn_conv w))"
    using assms(1,7) by (auto simp: handle_raw_def split: prod.splits sum.splits)
  have "req_env req = dict_update env ?sec"
    if "(name, req) \<in> set (drop (length (es_runs (cw_engine (rn_conv w)))) (es_runs (cw_engine (rn_conv w'))))" for name req
    using gateway_handle_runs [of rs ?g rw name req "rn_conv w" S T reg uuid now] that rw
    by (simp add: conv gateway_args_of_def)
  then show "\<forall>(name, req) \<in> set (drop (length (es_runs (cw_engine (rn_conv w)))) (es_runs (cw_engine (rn_conv w')))).
      req_env req = dict_update env ?sec" by blast
qed

definition outage_resolver :: workspace_resolver where
  \<comment> \<open>the resolver of the demonstration with an OpenBao that refuses the token\<close>
  "outage_resolver =
     (demo_resolver [])\<lparr>rs_secrets := openbao_source sample_env (\<lambda>rq. Inr \<lparr>hr_status = 403, hr_json = Inr PNone\<rparr>) sample_provider\<rparr>"

theorem openbao_behind_runner_witness:
  "snd (handle_raw demo_webhook (identity_route (memory_identity_ops demo_identity)) outage_resolver memory_store_ops
      memory_tracer_ops demo_registry ''fake'' ''s1'' 1 ''{...}'' (demo_headers ''{...}'') demo_run_world) = demo_run_world"
proof -
  obtain out w' where h: "handle_raw demo_webhook (identity_route (memory_identity_ops demo_identity)) outage_resolver memory_store_ops
      memory_tracer_ops demo_registry ''fake'' ''s1'' 1 ''{...}'' (demo_headers ''{...}'') demo_run_world = (out, w')" by fastforce
  let ?d = "\<lparr>rd_workspace_id = ''ws1'', rd_user_id = Some ''u1''\<rparr>"
  have src: "rs_secrets outage_resolver = openbao_source sample_env (\<lambda>rq. Inr \<lparr>hr_status = 403, hr_json = Inr PNone\<rparr>) sample_provider"
    by (simp add: outage_resolver_def)
  obtain env where "base_env (demo_resolver []) ''ws1'' (Some ''u1'') = Inr env"
    using demo_resolves [of "[]"] by (auto simp: resolve_def)
  then have base: "base_env outage_resolver (rd_workspace_id ?d) (rd_user_id ?d) = Inr env"
    by (simp add: base_env_def outage_resolver_def)
  have seg: "segment_name (rd_workspace_id ?d)" by code_simp
  have url: "openbao_url sample_env sample_provider (rd_workspace_id ?d) = Inr ''https://bao/v1/secret/data/claw/ws1''" by code_simp
  have shown: "safe_url_for_error sample_env sample_provider (rd_workspace_id ?d) = Inr ''https://bao/v1/secret/data/claw/ws1''"
    by code_simp
  from openbao_behind_runner [OF demo_admit src base seg url shown h] show ?thesis
    by (simp add: h refuses_def)
qed

end
